(* ===== verification/Prelude.thy ===== *)
theory Prelude
  imports Main
begin

text \<open>
  What every component shares: the Go values of type \<open>error\<close>, the outcome of a call that may
  panic, and the facts about lists of documents with a unique key that the stores of
  \<open>internal/database\<close> rest on.

  A Go \<open>string\<close> or \<open>[]byte\<close> is Isabelle's \<^typ>\<open>string\<close>: a list of bytes.  A result of
  Go type \<open>error\<close> is \<open>go_error option\<close> with \<^term>\<open>None\<close> for \<open>nil\<close>; a
  result \<open>(T, error)\<close> whose first part is meaningless on error is a sum, \<^term>\<open>Inl\<close> holding
  the error.
\<close>

section \<open>Errors and panics\<close>

text \<open>
  The sentinels of \<open>internal/database/errors.go\<close> and \<open>internal/coderun/errors.go\<close>, the
  errors of the MongoDB driver the code tells apart (\<open>mongo.ErrNoDocuments\<close>, and those for
  which \<open>mongo.IsDuplicateKeyError\<close> holds), the two errors of a finished context, and any
  other error by its text.
\<close>

datatype go_error =
    ErrNoSuchPath
  | ErrDuplicateKey
  | ErrNoSuchRecord
  | ErrNoSuchPool
  | ErrBadRouteType
  | ErrCodeRunFailed
  | ErrWorkerFailed
  | MongoNoDocuments
  | MongoDuplicateKey string
  | ContextCanceled
  | ContextDeadlineExceeded
  | GoError string

fun IsDuplicateKeyError :: "go_error option \<Rightarrow> bool" where
  "IsDuplicateKeyError (Some (MongoDuplicateKey _)) = True"
| "IsDuplicateKeyError _ = False"

text \<open>The texts \<open>err.Error()\<close> of the sentinels; the handlers copy them into the response.\<close>

fun Error :: "go_error \<Rightarrow> string" where
  "Error ErrNoSuchPath = ''no such path''"
| "Error ErrDuplicateKey = ''duplicate key''"
| "Error ErrNoSuchRecord = ''no such record''"
| "Error ErrNoSuchPool = ''no such pool''"
| "Error ErrBadRouteType = ''bad route type''"
| "Error ErrCodeRunFailed = ''coderun failed''"
| "Error ErrWorkerFailed = ''worker failed''"
| "Error MongoNoDocuments = ''mongo: no documents in result''"
| "Error (MongoDuplicateKey m) = m"
| "Error ContextCanceled = ''context canceled''"
| "Error ContextDeadlineExceeded = ''context deadline exceeded''"
| "Error (GoError m) = m"

text \<open>A call returns or panics (a nil dereference, a slice out of range, a closed channel).\<close>

datatype 'a outcome = Return 'a | Panic string

section \<open>Collections of facts\<close>

named_theorems mem_simps "the database and the cache in memory, unfolded"

section \<open>Lists of documents with a unique key\<close>

definition lookup_by :: "('d \<Rightarrow> 'k) \<Rightarrow> 'd list \<Rightarrow> 'k \<Rightarrow> 'd option" where
  "lookup_by key ds k = List.find (\<lambda>d. key d = k) ds"

lemma lookup_by_Nil [simp]: "lookup_by key [] = Map.empty"
  by (rule ext) (simp add: lookup_by_def)

lemma lookup_by_Cons [simp]:
  "lookup_by key (d # ds) k = (if key d = k then Some d else lookup_by key ds k)"
  by (simp add: lookup_by_def)

lemma lookup_by_None [simp]: "lookup_by key ds k = None \<longleftrightarrow> k \<notin> key ` set ds"
  by (induction ds) auto

lemma lookup_by_SomeD: "lookup_by key ds k = Some d \<Longrightarrow> d \<in> set ds \<and> key d = k"
  by (induction ds) (auto split: if_splits)

lemma lookup_by_Some:
  "distinct (map key ds) \<Longrightarrow> lookup_by key ds k = Some d \<longleftrightarrow> d \<in> set ds \<and> key d = k"
  by (induction ds) (auto simp: image_iff)

lemma dom_lookup_by: "dom (lookup_by key ds) = key ` set ds"
  by (rule set_eqI) (simp only: domIff lookup_by_None not_not)

lemma lookup_by_snoc:
  "key d \<notin> key ` set ds \<Longrightarrow> lookup_by key (ds @ [d]) = (lookup_by key ds)(key d \<mapsto> d)"
proof (induction ds)
  case Nil
  then show ?case by (auto simp: fun_eq_iff)
next
  case (Cons x xs)
  then have "key x \<noteq> key d" and "lookup_by key (xs @ [d]) = (lookup_by key xs)(key d \<mapsto> d)"
    by auto
  then show ?case by (auto simp: fun_eq_iff)
qed

lemma lookup_by_filter_key:
  "lookup_by key (filter (\<lambda>d. key d \<noteq> k) ds) = (lookup_by key ds)(k := None)"
  by (induction ds) (auto simp: fun_eq_iff)

lemma lookup_by_map_if:
  assumes "\<And>d. key (f d) = key d"
  shows "lookup_by key (map (\<lambda>d. if P d then f d else d) ds) k
    = map_option (\<lambda>d. if P d then f d else d) (lookup_by key ds k)"
  by (induction ds) (auto simp: assms)

lemma map_key_map_if:
  assumes "\<And>d. key (f d) = key d"
  shows "map key (map (\<lambda>d. if P d then f d else d) ds) = map key ds"
  by (induction ds) (auto simp: assms)

text \<open>With a unique key a filter that fixes the key matches at most one document.\<close>

lemma unique_filter_length:
  assumes "distinct (map key ds)" and "\<And>d. P d \<Longrightarrow> key d = k"
  shows "length (filter P ds) \<le> 1"
  using assms(1)
proof (induction ds)
  case Nil
  then show ?case by simp
next
  case (Cons d ds)
  show ?case
  proof (cases "P d")
    case True
    from Cons.prems have "key d \<notin> key ` set ds" by simp
    with True have "\<not> P x" if "x \<in> set ds" for x
      using that assms(2) by (metis image_eqI)
    then have "filter P ds = []" by (simp add: filter_empty_conv)
    with True show ?thesis by simp
  next
    case False
    with Cons show ?thesis by simp
  qed
qed

lemma distinct_map_key_filter: "distinct (map key ds) \<Longrightarrow> distinct (map key (filter P ds))"
  by (induction ds) auto

lemma unique_length_filter_lookup:
  "distinct (map key ds) \<Longrightarrow> length (filter (\<lambda>d. key d = k \<and> Q d) ds)
    = (case lookup_by key ds k of Some d \<Rightarrow> (if Q d then 1 else 0) | None \<Rightarrow> 0)"
proof (induction ds)
  case Nil
  then show ?case by simp
next
  case (Cons d ds)
  then have "key d \<notin> key ` set ds" by simp
  then have "filter (\<lambda>x. key x = key d \<and> Q x) ds = []"
    by (auto simp: filter_empty_conv image_iff)
  moreover have "lookup_by key ds (key d) = None"
    using \<open>key d \<notin> key ` set ds\<close> by simp
  ultimately show ?case using Cons by (cases "key d = k") auto
qed


section \<open>Counting the elements with a property\<close>

definition n_of :: "('a \<Rightarrow> bool) \<Rightarrow> 'a list \<Rightarrow> nat" where
  "n_of P xs = length (filter P xs)"

lemma n_of_simps [simp]:
  "n_of P [] = 0" "n_of P (x # xs) = (if P x then 1 else 0) + n_of P xs"
  "n_of P (xs @ ys) = n_of P xs + n_of P ys"
  by (simp_all add: n_of_def)

lemma n_of_0 [simp]: "n_of P xs = 0 \<longleftrightarrow> (\<forall>x \<in> set xs. \<not> P x)"
  by (simp add: n_of_def filter_empty_conv)

lemma n_of_pos [simp]: "0 < n_of P xs \<longleftrightarrow> (\<exists>x \<in> set xs. P x)"
  using n_of_0 [of P xs] by (auto simp del: n_of_0)

lemma n_of_update:
  "i < length xs \<Longrightarrow>
   n_of P (xs[i := x]) + (if P (xs ! i) then 1 else 0) = n_of P xs + (if P x then 1 else 0)"
proof (induction xs arbitrary: i)
  case (Cons y ys)
  show ?case
  proof (cases i)
    case (Suc j)
    with Cons.IH [of j] Cons.prems show ?thesis by simp
  qed simp
qed simp

lemma n_of_replicate: "n_of P (replicate n x) = (if P x then n else 0)"
  by (induction n) auto

end
