(* ===== verification/Driver.thy ===== *)
theory Driver
  imports Prelude "HOL-Library.Multiset"
begin

text \<open>
  The two libraries behind every store of \<open>internal/database\<close>, which are not part of the
  repository: the collections of the MongoDB driver (\<open>go.mongodb.org/mongo-driver\<close>) and the
  loading cache \<open>github.com/bluele/gcache\<close>.  Both are parameters: a record of the calls the
  code makes, over a collection state \<open>'c\<close> and a cache state \<open>'h\<close> nothing else looks into.
  What the code relies on is stated as laws over an observation of those states (\<open>docs\<close>: the
  documents a collection holds; \<open>entry\<close>: the value a cache holds for a key), and the theorems
  take them as hypotheses.  The end of the theory has an executable instance that satisfies all
  of them, for the witnesses.
\<close>

section \<open>The calls\<close>

text \<open>
  A BSON filter is a predicate on documents and a \<open>$set\<close> document a function that changes
  one.  \<open>UpdateOne\<close> returns the matched count of its result, \<^term>\<open>None\<close> standing for a nil
  result pointer, next to its error.  \<open>FindAll\<close> is \<open>Find\<close> with \<open>cursor.All\<close>.
\<close>

record ('c, 'd) coll_driver =
  InsertOne :: "'c \<Rightarrow> 'd \<Rightarrow> 'c \<times> go_error option"
  FindOne :: "'c \<Rightarrow> ('d \<Rightarrow> bool) \<Rightarrow> go_error + 'd"
  DeleteOne :: "'c \<Rightarrow> ('d \<Rightarrow> bool) \<Rightarrow> 'c \<times> go_error option"
  UpdateOne :: "'c \<Rightarrow> ('d \<Rightarrow> bool) \<Rightarrow> ('d \<Rightarrow> 'd) \<Rightarrow> 'c \<times> nat option \<times> go_error option"
  FindAll :: "'c \<Rightarrow> ('d \<Rightarrow> bool) \<Rightarrow> go_error + 'd list"

text \<open>\<open>CacheGet\<close> takes the cache's \<open>LoaderFunc\<close>, which it calls on a miss.\<close>

record ('h, 'd) cache_driver =
  CacheGet :: "'h \<Rightarrow> string \<Rightarrow> (string \<Rightarrow> go_error + 'd) \<Rightarrow> 'h \<times> (go_error + 'd)"
  CacheSet :: "'h \<Rightarrow> string \<Rightarrow> 'd \<Rightarrow> 'h \<times> go_error option"
  CacheRemove :: "'h \<Rightarrow> string \<Rightarrow> 'h"

record ('c, 'h, 'd) backend =
  mdb :: "('c, 'd) coll_driver"
  gca :: "('h, 'd) cache_driver"

section \<open>What the code relies on\<close>

text \<open>
  \<open>clash\<close> is the conflict of the unique indexes of a collection.  A write that reports an
  error has not been applied: single-document writes are atomic, and a lost acknowledgement of an
  applied write is outside the laws.  \<open>DeleteOne\<close> that matches nothing is no error, and
  \<open>ErrNoDocuments\<close> is an error of \<open>FindOne\<close> only.  Which of several matching documents a
  call picks is not specified, so deletes and updates are described where at most one matches; nor
  is the order of \<open>Find\<close> when the sort key is absent from the documents.
\<close>

text \<open>No library returns an error value this program declares.\<close>

definition foreign :: "go_error \<Rightarrow> bool" where
  "foreign e \<longleftrightarrow> e \<notin> {ErrNoSuchPath, ErrDuplicateKey, ErrNoSuchRecord, ErrNoSuchPool, ErrBadRouteType,
     ErrCodeRunFailed, ErrWorkerFailed}"

definition insert_law :: "('c, 'd) coll_driver \<Rightarrow> ('d \<Rightarrow> 'd \<Rightarrow> bool) \<Rightarrow> ('c \<Rightarrow> 'd list) \<Rightarrow> bool" where
  "insert_law m clash docs \<longleftrightarrow> (\<forall>c d c' e. InsertOne m c d = (c', e) \<longrightarrow>
     (if e = None then docs c' = docs c @ [d] \<and> (\<forall>d' \<in> set (docs c). \<not> clash d d')
      else docs c' = docs c \<and> foreign (the e) \<and> (IsDuplicateKeyError e \<longrightarrow> (\<exists>d' \<in> set (docs c). clash d d'))))"

definition find_law :: "('c, 'd) coll_driver \<Rightarrow> ('c \<Rightarrow> 'd list) \<Rightarrow> bool" where
  "find_law m docs \<longleftrightarrow> (\<forall>c P.
     (\<forall>d. FindOne m c P = Inr d \<longrightarrow> d \<in> set (docs c) \<and> P d) \<and>
     (\<forall>e. FindOne m c P = Inl e \<longrightarrow> foreign e) \<and>
     (FindOne m c P = Inl MongoNoDocuments \<longrightarrow> (\<forall>d \<in> set (docs c). \<not> P d)))"

definition delete_law :: "('c, 'd) coll_driver \<Rightarrow> ('c \<Rightarrow> 'd list) \<Rightarrow> bool" where
  "delete_law m docs \<longleftrightarrow> (\<forall>c P c' e. DeleteOne m c P = (c', e) \<longrightarrow> e \<noteq> Some MongoNoDocuments \<and>
     (if e = None then length (filter P (docs c)) \<le> 1 \<longrightarrow> docs c' = filter (\<lambda>d. \<not> P d) (docs c)
      else docs c' = docs c \<and> foreign (the e)))"

definition update_law :: "('c, 'd) coll_driver \<Rightarrow> ('c \<Rightarrow> 'd list) \<Rightarrow> bool" where
  "update_law m docs \<longleftrightarrow> (\<forall>c P f c' n e. UpdateOne m c P f = (c', n, e) \<longrightarrow>
     e \<noteq> Some MongoNoDocuments \<and>
     (if e = None
      then length (filter P (docs c)) \<le> 1 \<longrightarrow> n = Some (length (filter P (docs c))) \<and>
        docs c' = map (\<lambda>d. if P d then f d else d) (docs c)
      else docs c' = docs c \<and> n = None \<and> foreign (the e)))"

definition list_law :: "('c, 'd) coll_driver \<Rightarrow> ('c \<Rightarrow> 'd list) \<Rightarrow> bool" where
  "list_law m docs \<longleftrightarrow>
     (\<forall>c P ds. FindAll m c P = Inr ds \<longrightarrow> mset ds = mset (filter P (docs c)))"

text \<open>
  The cache: a hit returns the entry and keeps the rest; a miss returns what the loader
  returns, and may store it; any call may evict other entries; \<open>Set\<close> and \<open>Remove\<close> take
  effect at once.  \<open>Set\<close> fails only through a serializer, and the code configures none.
\<close>

definition cache_law :: "('h, 'd) cache_driver \<Rightarrow> ('h \<Rightarrow> string \<Rightarrow> 'd option) \<Rightarrow> bool" where
  "cache_law g entry \<longleftrightarrow>
     (\<forall>h k load h' r. CacheGet g h k load = (h', r) \<longrightarrow>
        (case entry h k of
           Some d \<Rightarrow> r = Inr d \<and> entry h' \<subseteq>\<^sub>m entry h
         | None \<Rightarrow> r = load k \<and>
             entry h' \<subseteq>\<^sub>m (case r of Inl _ \<Rightarrow> entry h | Inr d \<Rightarrow> (entry h)(k \<mapsto> d)))) \<and>
     (\<forall>h k d h' e. CacheSet g h k d = (h', e) \<longrightarrow>
        e = None \<and> entry h' k = Some d \<and> entry h' \<subseteq>\<^sub>m (entry h)(k \<mapsto> d)) \<and>
     (\<forall>h k. entry (CacheRemove g h k) \<subseteq>\<^sub>m (entry h)(k := None))"

definition backend_ok :: "('c, 'h, 'd) backend \<Rightarrow> ('d \<Rightarrow> 'd \<Rightarrow> bool) \<Rightarrow> ('c \<Rightarrow> 'd list)
    \<Rightarrow> ('h \<Rightarrow> string \<Rightarrow> 'd option) \<Rightarrow> bool" where
  "backend_ok be clash docs entry \<longleftrightarrow> insert_law (mdb be) clash docs \<and> find_law (mdb be) docs \<and>
     delete_law (mdb be) docs \<and> update_law (mdb be) docs \<and> list_law (mdb be) docs \<and>
     cache_law (gca be) entry"

text \<open>
  A live backend is one whose server answers: no call fails but for the reason the data gives.
\<close>

definition backend_live :: "('c, 'h, 'd) backend \<Rightarrow> ('d \<Rightarrow> 'd \<Rightarrow> bool) \<Rightarrow> ('c \<Rightarrow> 'd list) \<Rightarrow> bool" where
  "backend_live be clash docs \<longleftrightarrow> (\<forall>c d P f.
     (if \<exists>d' \<in> set (docs c). clash d d' then IsDuplicateKeyError (snd (InsertOne (mdb be) c d))
      else snd (InsertOne (mdb be) c d) = None) \<and>
     (if \<exists>d' \<in> set (docs c). P d' then \<not> isl (FindOne (mdb be) c P)
      else FindOne (mdb be) c P = Inl MongoNoDocuments) \<and>
     snd (DeleteOne (mdb be) c P) = None \<and>
     snd (snd (UpdateOne (mdb be) c P f)) = None \<and>
     \<not> isl (FindAll (mdb be) c P))"

text \<open>With a backend that also lists in insertion order the listings are lists, not bags.\<close>

definition natural_order :: "('c, 'd) coll_driver \<Rightarrow> ('c \<Rightarrow> 'd list) \<Rightarrow> bool" where
  "natural_order m docs \<longleftrightarrow> (\<forall>c P ds. FindAll m c P = Inr ds \<longrightarrow> ds = filter P (docs c))"

lemma backend_okD:
  assumes "backend_ok be clash docs entry"
  shows "insert_law (mdb be) clash docs" and "find_law (mdb be) docs"
    and "delete_law (mdb be) docs" and "update_law (mdb be) docs" and "list_law (mdb be) docs"
    and "cache_law (gca be) entry"
  using assms by (simp_all add: backend_ok_def)

section \<open>The laws as rules\<close>

lemma InsertOne_ok:
  assumes "insert_law m clash docs" and "InsertOne m c d = (c', None)"
  shows "docs c' = docs c @ [d]" and "\<forall>d' \<in> set (docs c). \<not> clash d d'"
  using assms by (fastforce simp: insert_law_def)+

lemma InsertOne_err:
  assumes "insert_law m clash docs" and "InsertOne m c d = (c', Some e)"
  shows "docs c' = docs c" and "foreign e"
    and "IsDuplicateKeyError (Some e) \<Longrightarrow> \<exists>d' \<in> set (docs c). clash d d'"
  using assms by (fastforce simp: insert_law_def)+

lemma FindOne_ok: "find_law m docs \<Longrightarrow> FindOne m c P = Inr d \<Longrightarrow> d \<in> set (docs c) \<and> P d"
  unfolding find_law_def by blast

lemma FindOne_err: "find_law m docs \<Longrightarrow> FindOne m c P = Inl e \<Longrightarrow> foreign e"
  unfolding find_law_def by blast

lemma FindOne_none:
  "find_law m docs \<Longrightarrow> FindOne m c P = Inl MongoNoDocuments \<Longrightarrow> d \<in> set (docs c) \<Longrightarrow> \<not> P d"
  unfolding find_law_def by blast

lemma DeleteOne_ok:
  assumes "delete_law m docs" and "DeleteOne m c P = (c', None)" and "length (filter P (docs c)) \<le> 1"
  shows "docs c' = filter (\<lambda>d. \<not> P d) (docs c)"
  using assms by (fastforce simp: delete_law_def)

lemma DeleteOne_err:
  assumes "delete_law m docs" and "DeleteOne m c P = (c', Some e)"
  shows "docs c' = docs c" and "e \<noteq> MongoNoDocuments" and "foreign e"
  using assms by (fastforce simp: delete_law_def)+

lemma UpdateOne_ok:
  assumes "update_law m docs" and "UpdateOne m c P f = (c', n, None)"
    and "length (filter P (docs c)) \<le> 1"
  shows "n = Some (length (filter P (docs c)))"
    and "docs c' = map (\<lambda>d. if P d then f d else d) (docs c)"
  using assms by (fastforce simp: update_law_def)+

lemma UpdateOne_err:
  assumes "update_law m docs" and "UpdateOne m c P f = (c', n, Some e)"
  shows "docs c' = docs c" and "n = None" and "e \<noteq> MongoNoDocuments" and "foreign e"
  using assms by (fastforce simp: update_law_def)+

lemma FindAll_ok: "list_law m docs \<Longrightarrow> FindAll m c P = Inr ds \<Longrightarrow> mset ds = mset (filter P (docs c))"
  by (simp add: list_law_def)

lemma FindAll_set: "list_law m docs \<Longrightarrow> FindAll m c P = Inr ds \<Longrightarrow> set ds = {d \<in> set (docs c). P d}"
  by (metis FindAll_ok set_filter set_mset_mset)

lemma UpdateOne_live: "backend_live be clash docs \<Longrightarrow> snd (snd (UpdateOne (mdb be) c P f)) = None"
  unfolding backend_live_def by (erule allE [of _ c], erule allE, erule allE [of _ P], erule allE [of _ f], elim conjE)

lemma FindAll_live: "backend_live be clash docs \<Longrightarrow> \<not> isl (FindAll (mdb be) c P)"
  unfolding backend_live_def by (erule allE [of _ c], erule allE, erule allE [of _ P], erule allE, elim conjE)

lemma CacheGet_hit:
  assumes "cache_law g entry" and "CacheGet g h k load = (h', r)" and "entry h k = Some d"
  shows "r = Inr d" and "entry h' \<subseteq>\<^sub>m entry h"
  using assms by (fastforce simp: cache_law_def)+

lemma CacheGet_miss:
  assumes "cache_law g entry" and "CacheGet g h k load = (h', r)" and "entry h k = None"
  shows "r = load k"
    and "entry h' \<subseteq>\<^sub>m (case r of Inl _ \<Rightarrow> entry h | Inr d \<Rightarrow> (entry h)(k \<mapsto> d))"
  using assms by (fastforce simp: cache_law_def)+

lemma CacheSet_ok:
  assumes "cache_law g entry" and "CacheSet g h k d = (h', e)"
  shows "e = None" and "entry h' k = Some d" and "entry h' \<subseteq>\<^sub>m (entry h)(k \<mapsto> d)"
  using assms by (fastforce simp: cache_law_def)+

lemma CacheRemove_ok: "cache_law g entry \<Longrightarrow> entry (CacheRemove g h k) \<subseteq>\<^sub>m (entry h)(k := None)"
  by (simp add: cache_law_def)

section \<open>An executable instance\<close>

text \<open>
  A collection as the list of its documents, a cache as an association list of at most \<open>n\<close>
  entries (\<open>n = 0\<close>: no limit, as in \<open>gcache.New(0).Simple()\<close>), and a collection whose
  server is down.
\<close>

fun delete_first :: "('d \<Rightarrow> bool) \<Rightarrow> 'd list \<Rightarrow> 'd list" where
  "delete_first P [] = []"
| "delete_first P (d # ds) = (if P d then ds else d # delete_first P ds)"

fun update_first :: "('d \<Rightarrow> bool) \<Rightarrow> ('d \<Rightarrow> 'd) \<Rightarrow> 'd list \<Rightarrow> 'd list" where
  "update_first P f [] = []"
| "update_first P f (d # ds) = (if P d then f d # ds else d # update_first P f ds)"

definition mem_coll :: "('d \<Rightarrow> 'd \<Rightarrow> bool) \<Rightarrow> ('d list, 'd) coll_driver" where
  "mem_coll clash = \<lparr>
     InsertOne = (\<lambda>c d. if list_ex (clash d) c
       then (c, Some (MongoDuplicateKey ''E11000 duplicate key error'')) else (c @ [d], None)),
     FindOne = (\<lambda>c P. case List.find P c of None \<Rightarrow> Inl MongoNoDocuments | Some d \<Rightarrow> Inr d),
     DeleteOne = (\<lambda>c P. (delete_first P c, None)),
     UpdateOne = (\<lambda>c P f. (update_first P f c, Some (if list_ex P c then 1 else 0), None)),
     FindAll = (\<lambda>c P. Inr (filter P c))\<rparr>"

definition down_coll :: "('d list, 'd) coll_driver" where
  "down_coll = \<lparr>
     InsertOne = (\<lambda>c d. (c, Some (GoError ''server selection error''))),
     FindOne = (\<lambda>c P. Inl (GoError ''server selection error'')),
     DeleteOne = (\<lambda>c P. (c, Some (GoError ''server selection error''))),
     UpdateOne = (\<lambda>c P f. (c, None, Some (GoError ''server selection error''))),
     FindAll = (\<lambda>c P. Inl (GoError ''server selection error''))\<rparr>"

definition limit :: "nat \<Rightarrow> 'a list \<Rightarrow> 'a list" where
  "limit n xs = (if n = 0 then xs else take n xs)"

definition mem_put :: "nat \<Rightarrow> (string \<times> 'd) list \<Rightarrow> string \<Rightarrow> 'd \<Rightarrow> (string \<times> 'd) list" where
  "mem_put n h k d = limit n ((k, d) # filter (\<lambda>e. fst e \<noteq> k) h)"

definition mem_cache :: "nat \<Rightarrow> ((string \<times> 'd) list, 'd) cache_driver" where
  "mem_cache n = \<lparr>
     CacheGet = (\<lambda>h k load. case map_of h k of Some d \<Rightarrow> (h, Inr d)
       | None \<Rightarrow> (case load k of Inl e \<Rightarrow> (h, Inl e) | Inr d \<Rightarrow> (mem_put n h k d, Inr d))),
     CacheSet = (\<lambda>h k d. (mem_put n h k d, None)),
     CacheRemove = (\<lambda>h k. filter (\<lambda>e. fst e \<noteq> k) h)\<rparr>"

definition mem_backend :: "('d \<Rightarrow> 'd \<Rightarrow> bool) \<Rightarrow> nat \<Rightarrow> ('d list, (string \<times> 'd) list, 'd) backend" where
  "mem_backend clash n = \<lparr>mdb = mem_coll clash, gca = mem_cache n\<rparr>"

declare mem_coll_def [mem_simps] mem_cache_def [mem_simps] mem_backend_def [mem_simps]

definition down_backend :: "nat \<Rightarrow> ('d list, (string \<times> 'd) list, 'd) backend" where
  "down_backend n = \<lparr>mdb = down_coll, gca = mem_cache n\<rparr>"

text \<open>The document list and the association list observe themselves.\<close>

definition mem_docs :: "'d list \<Rightarrow> 'd list" where
  [simp]: "mem_docs c = c"

lemma filter_none: "filter P ds = [] \<Longrightarrow> filter (\<lambda>d. \<not> P d) ds = ds"
  by (simp add: filter_empty_conv filter_id_conv)

lemma delete_first_filter:
  "length (filter P ds) \<le> 1 \<Longrightarrow> delete_first P ds = filter (\<lambda>d. \<not> P d) ds"
proof (induction ds)
  case (Cons d ds)
  then show ?case by (cases "P d") (simp_all add: filter_none)
qed simp

lemma update_first_map:
  "length (filter P ds) \<le> 1 \<Longrightarrow> update_first P f ds = map (\<lambda>d. if P d then f d else d) ds"
proof (induction ds)
  case (Cons d ds)
  show ?case
  proof (cases "P d")
    case True
    with Cons.prems have "\<forall>x \<in> set ds. \<not> P x" by (simp add: filter_empty_conv)
    then have "map (\<lambda>x. if P x then f x else x) ds = ds" by (simp add: map_idI)
    with True show ?thesis by simp
  next
    case False
    with Cons show ?thesis by simp
  qed
qed simp

lemma length_filter_list_ex:
  "length (filter P ds) \<le> 1 \<Longrightarrow> length (filter P ds) = (if list_ex P ds then 1 else 0)"
  by (cases "filter P ds") (auto simp: list_ex_iff filter_empty_conv dest: filter_eq_ConsD)

lemma map_of_limit: "map_of (limit n xs) \<subseteq>\<^sub>m map_of xs"
proof (cases "n = 0")
  case False
  have "map_of xs = map_of (drop n xs) ++ map_of (take n xs)"
    by (metis append_take_drop_id map_of_append)
  with False show ?thesis by (simp add: limit_def)
qed (simp add: limit_def)

lemma map_of_filter_key: "map_of (filter (\<lambda>e. fst e \<noteq> k) h) = (map_of h)(k := None)"
  by (induction h) (auto simp: fun_eq_iff)

lemma map_of_mem_put:
  "map_of (mem_put n h k d) k = Some d \<and> map_of (mem_put n h k d) \<subseteq>\<^sub>m (map_of h)(k \<mapsto> d)"
proof
  have "mem_put n h k d = (k, d) # (if n = 0 then filter (\<lambda>e. fst e \<noteq> k) h
      else take (n - 1) (filter (\<lambda>e. fst e \<noteq> k) h))"
    by (cases n) (simp_all add: mem_put_def limit_def)
  then show "map_of (mem_put n h k d) k = Some d" by simp
  have "map_of (mem_put n h k d) \<subseteq>\<^sub>m map_of ((k, d) # filter (\<lambda>e. fst e \<noteq> k) h)"
    unfolding mem_put_def by (rule map_of_limit)
  also have "\<dots> = (map_of h)(k \<mapsto> d)"
    using map_of_filter_key [of k h] by auto
  finally show "map_of (mem_put n h k d) \<subseteq>\<^sub>m (map_of h)(k \<mapsto> d)" .
qed

lemma mem_cache_law: "cache_law (mem_cache n) map_of"
  unfolding cache_law_def
proof (intro conjI allI impI)
  fix h :: "(string \<times> 'd) list" and k load h' r
  assume g: "CacheGet (mem_cache n) h k load = (h', r)"
  show "case map_of h k of Some d \<Rightarrow> r = Inr d \<and> map_of h' \<subseteq>\<^sub>m map_of h
    | None \<Rightarrow> r = load k \<and>
        map_of h' \<subseteq>\<^sub>m (case r of Inl _ \<Rightarrow> map_of h | Inr d \<Rightarrow> (map_of h)(k \<mapsto> d))"
  proof (cases "map_of h k")
    case (Some d)
    with g show ?thesis by (simp add: mem_cache_def)
  next
    case None
    have "(h', r) = (case load k of Inl e \<Rightarrow> (h, Inl e) | Inr d \<Rightarrow> (mem_put n h k d, Inr d))"
      using g None by (simp add: mem_cache_def)
    with None show ?thesis
      by (cases "load k") (simp_all add: map_of_mem_put)
  qed
next
  fix h :: "(string \<times> 'd) list" and k d h' e
  assume "CacheSet (mem_cache n) h k d = (h', e)"
  then have "h' = mem_put n h k d" and "e = None" by (simp_all add: mem_cache_def)
  then show "e = None" and "map_of h' k = Some d" and "map_of h' \<subseteq>\<^sub>m (map_of h)(k \<mapsto> d)"
    using map_of_mem_put [of n h k d] by simp_all
next
  show "map_of (CacheRemove (mem_cache n) h k) \<subseteq>\<^sub>m (map_of h)(k := None)"
    for h :: "(string \<times> 'd) list" and k
    by (simp add: mem_cache_def map_of_filter_key)
qed

lemma mem_insert_law: "insert_law (mem_coll clash) clash mem_docs"
  by (auto simp: insert_law_def mem_coll_def list_ex_iff foreign_def)

lemma mem_find_law: "find_law (mem_coll clash) mem_docs"
  by (auto simp: find_law_def mem_coll_def foreign_def find_Some_iff find_None_iff split: option.splits)

lemma mem_delete_law: "delete_law (mem_coll clash) mem_docs"
  by (simp add: delete_law_def mem_coll_def delete_first_filter)

lemma mem_update_law: "update_law (mem_coll clash) mem_docs"
  unfolding update_law_def mem_coll_def
  using update_first_map length_filter_list_ex by fastforce

lemma mem_list_law: "list_law (mem_coll clash) mem_docs"
  by (simp add: list_law_def mem_coll_def)

lemma mem_backend_ok: "backend_ok (mem_backend clash n) clash mem_docs map_of"
  by (simp add: backend_ok_def mem_backend_def mem_cache_law mem_insert_law mem_find_law
      mem_delete_law mem_update_law mem_list_law)

lemma down_backend_ok: "backend_ok (down_backend n) clash mem_docs map_of"
  using mem_cache_law [of n]
  by (auto simp: backend_ok_def down_backend_def down_coll_def insert_law_def find_law_def
      delete_law_def update_law_def list_law_def foreign_def)

lemma mem_backend_live: "backend_live (mem_backend clash n) clash mem_docs"
  by (auto simp: backend_live_def mem_backend_def mem_coll_def list_ex_iff find_None_iff
      find_Some_iff split: option.splits dest: nth_mem)

lemma mem_natural_order: "natural_order (mem_coll clash) mem_docs"
  by (simp add: natural_order_def mem_coll_def)

end
