(* ===== verification/Store.thy ===== *)
theory Store
  imports Driver
begin

text \<open>
  The pattern three stores of \<open>internal/database\<close> share (\<open>routes\<close>, \<open>esbRecords\<close>,
  \<open>messagePools\<close>): a collection with a unique index and a loading cache in front of it.  The
  interface a store offers is the locale \<open>keyed_store\<close>; \<open>live_store\<close> adds what it
  promises while the database answers.  Clients are proved against the locales, and the theory of
  each store interprets them on its own operations.  The second half proves, once, that the
  insert / delete / get pattern meets the contract.
\<close>

section \<open>The contract of a store\<close>

locale keyed_store =
  fixes add :: "'s \<Rightarrow> 'd \<Rightarrow> 's \<times> go_error option"
    and remove :: "'s \<Rightarrow> string \<Rightarrow> 's \<times> go_error option"
    and get :: "'s \<Rightarrow> string \<Rightarrow> 's \<times> (go_error + 'd)"
    and key :: "'d \<Rightarrow> string"
    and tab :: "'s \<Rightarrow> string \<Rightarrow> 'd option"
    and inv :: "'s \<Rightarrow> bool"
    and missing :: go_error
  assumes add_inv: "inv s \<Longrightarrow> add s d = (s', err) \<Longrightarrow> inv s'"
    and remove_inv: "inv s \<Longrightarrow> remove s k = (s', err) \<Longrightarrow> inv s'"
    and get_inv: "inv s \<Longrightarrow> get s k = (s', r) \<Longrightarrow> inv s'"
    and add_done: "inv s \<Longrightarrow> add s d = (s', None) \<Longrightarrow>
      tab s (key d) = None \<and> tab s' = (tab s)(key d \<mapsto> d)"
    and add_fails: "inv s \<Longrightarrow> add s d = (s', Some e) \<Longrightarrow>
      tab s' = tab s \<and> (e = ErrDuplicateKey \<longrightarrow> tab s (key d) \<noteq> None)"
    and remove_done: "inv s \<Longrightarrow> remove s k = (s', None) \<Longrightarrow> tab s' = (tab s)(k := None)"
    and remove_fails: "inv s \<Longrightarrow> remove s k = (s', Some e) \<Longrightarrow> tab s' = tab s"
    and get_tab: "inv s \<Longrightarrow> get s k = (s', r) \<Longrightarrow> tab s' = tab s"
    and get_found: "inv s \<Longrightarrow> get s k = (s', Inr d) \<Longrightarrow> tab s k = Some d"
    and get_missing: "inv s \<Longrightarrow> get s k = (s', Inl missing) \<Longrightarrow> tab s k = None"

locale live_store = keyed_store +
  assumes add_live: "inv s \<Longrightarrow>
      snd (add s d) = (if tab s (key d) = None then None else Some ErrDuplicateKey)"
    and remove_live: "inv s \<Longrightarrow> snd (remove s k) = None"
    and get_live: "inv s \<Longrightarrow>
      snd (get s k) = (case tab s k of Some d \<Rightarrow> Inr d | None \<Rightarrow> Inl missing)"

section \<open>Histories\<close>

text \<open>
  A client's calls and what it saw of them.  \<open>history_ok\<close> is the abstract specification: the
  answers are those of a map that starts as \<open>m\<close>, whatever calls failed in between.
\<close>

datatype 'd store_op = Add 'd | Remove string | Get string

datatype 'd store_obs = Done "go_error option" | Got "go_error + 'd"

fun store_step :: "('s \<Rightarrow> 'd \<Rightarrow> 's \<times> go_error option) \<Rightarrow> ('s \<Rightarrow> string \<Rightarrow> 's \<times> go_error option) \<Rightarrow>
    ('s \<Rightarrow> string \<Rightarrow> 's \<times> (go_error + 'd)) \<Rightarrow> 's \<Rightarrow> 'd store_op \<Rightarrow> 's \<times> 'd store_obs" where
  "store_step add remove get s (Add d) = (case add s d of (s', e) \<Rightarrow> (s', Done e))"
| "store_step add remove get s (Remove k) = (case remove s k of (s', e) \<Rightarrow> (s', Done e))"
| "store_step add remove get s (Get k) = (case get s k of (s', r) \<Rightarrow> (s', Got r))"

fun store_run :: "('s \<Rightarrow> 'd store_op \<Rightarrow> 's \<times> 'd store_obs) \<Rightarrow> 's \<Rightarrow> 'd store_op list
    \<Rightarrow> 's \<times> ('d store_op \<times> 'd store_obs) list" where
  "store_run st s [] = (s, [])"
| "store_run st s (x # xs) = (case st s x of (s', r) \<Rightarrow>
     (case store_run st s' xs of (t, h) \<Rightarrow> (t, (x, r) # h)))"

fun history_ok :: "('d \<Rightarrow> string) \<Rightarrow> go_error \<Rightarrow> (string \<Rightarrow> 'd option)
    \<Rightarrow> ('d store_op \<times> 'd store_obs) list \<Rightarrow> bool" where
  "history_ok key missing m [] = True"
| "history_ok key missing m ((Add d, Done None) # h) =
     (m (key d) = None \<and> history_ok key missing (m(key d \<mapsto> d)) h)"
| "history_ok key missing m ((Add d, Done (Some e)) # h) =
     ((e = ErrDuplicateKey \<longrightarrow> m (key d) \<noteq> None) \<and> history_ok key missing m h)"
| "history_ok key missing m ((Remove k, Done None) # h) = history_ok key missing (m(k := None)) h"
| "history_ok key missing m ((Remove k, Done (Some e)) # h) = history_ok key missing m h"
| "history_ok key missing m ((Get k, Got (Inr d)) # h) =
     (m k = Some d \<and> history_ok key missing m h)"
| "history_ok key missing m ((Get k, Got (Inl e)) # h) =
     ((e = missing \<longrightarrow> m k = None) \<and> history_ok key missing m h)"
| "history_ok key missing m ((_, _) # h) = False"

text \<open>While the database answers, the answers are those of the map itself.\<close>

fun map_step :: "('d \<Rightarrow> string) \<Rightarrow> go_error \<Rightarrow> (string \<Rightarrow> 'd option) \<Rightarrow> 'd store_op
    \<Rightarrow> (string \<Rightarrow> 'd option) \<times> 'd store_obs" where
  "map_step key missing m (Add d) = (if m (key d) = None then (m(key d \<mapsto> d), Done None)
     else (m, Done (Some ErrDuplicateKey)))"
| "map_step key missing m (Remove k) = (m(k := None), Done None)"
| "map_step key missing m (Get k) = (m, Got (case m k of Some d \<Rightarrow> Inr d | None \<Rightarrow> Inl missing))"

context keyed_store
begin

lemma step_history:
  assumes "inv s" and "store_step add remove get s x = (s', r)"
  shows "inv s'" and "history_ok key missing (tab s') h \<Longrightarrow> history_ok key missing (tab s) ((x, r) # h)"
proof -
  have "inv s' \<and> (history_ok key missing (tab s') h \<longrightarrow> history_ok key missing (tab s) ((x, r) # h))"
  proof (cases x)
    case (Add d)
    then obtain e where a: "add s d = (s', e)" and r: "r = Done e"
      using assms(2) by (auto split: prod.splits)
    show ?thesis
      using add_done [OF assms(1), of d s'] add_fails [OF assms(1), of d s']
        add_inv [OF assms(1) a] a r Add
      by (cases e) auto
  next
    case (Remove k)
    then obtain e where a: "remove s k = (s', e)" and r: "r = Done e"
      using assms(2) by (auto split: prod.splits)
    show ?thesis
      using remove_done [OF assms(1), of k s'] remove_fails [OF assms(1), of k s']
        remove_inv [OF assms(1) a] a r Remove
      by (cases e) auto
  next
    case (Get k)
    then obtain g where a: "get s k = (s', g)" and r: "r = Got g"
      using assms(2) by (auto split: prod.splits)
    show ?thesis
      using get_found [OF assms(1), of k s'] get_missing [OF assms(1), of k s']
        get_tab [OF assms(1) a] get_inv [OF assms(1) a] a r Get
      by (cases g) auto
  qed
  then show "inv s'"
    and "history_ok key missing (tab s') h \<Longrightarrow> history_ok key missing (tab s) ((x, r) # h)"
    by blast+
qed

lemma run_history:
  assumes "inv s"
  shows "history_ok key missing (tab s) (snd (store_run (store_step add remove get) s xs))"
  using assms
proof (induction xs arbitrary: s)
  case (Cons x xs)
  obtain s' r where x: "store_step add remove get s x = (s', r)" by force
  have "inv s'" using step_history(1) [OF Cons.prems x] .
  with Cons.IH have "history_ok key missing (tab s') (snd (store_run (store_step add remove get) s' xs))"
    by blast
  with step_history(2) [OF Cons.prems x] x show ?case
    by (simp add: split_beta)
qed simp

text \<open>Reading back what was written, and not what was deleted.\<close>

lemma get_after_add:
  assumes "inv s" and "add s d = (s', None)" and "get s' (key d) = (s'', Inr d')"
  shows "d' = d"
  using assms get_found [of s' "key d" s'' d'] add_done [of s d s'] add_inv by fastforce

lemma no_get_after_remove:
  assumes "inv s" and "remove s k = (s', None)"
  shows "get s' k \<noteq> (s'', Inr d)"
  using assms get_found [of s' k s'' d] remove_done [of s k s'] remove_inv by fastforce

lemma no_add_twice:
  assumes "inv s" and "add s d = (s', None)" and "key d' = key d"
  shows "snd (add s' d') \<noteq> None"
proof
  assume "snd (add s' d') = None"
  then obtain s'' where "add s' d' = (s'', None)" by (cases "add s' d'") auto
  then have "tab s' (key d') = None"
    using add_done add_inv assms(1,2) by blast
  then show False using add_done [OF assms(1,2)] assms(3) by simp
qed

end

context live_store
begin

lemma step_map:
  assumes "inv s" and "store_step add remove get s x = (s', r)"
  shows "map_step key missing (tab s) x = (tab s', r)"
proof (cases x)
  case (Add d)
  then obtain e where a: "add s d = (s', e)" and r: "r = Done e"
    using assms(2) by (auto split: prod.splits)
  then show ?thesis
    using add_live [OF assms(1), of d] add_done [OF assms(1), of d s']
      add_fails [OF assms(1), of d s'] Add
    by (cases "tab s (key d)") auto
next
  case (Remove k)
  then obtain e where a: "remove s k = (s', e)" and r: "r = Done e"
    using assms(2) by (auto split: prod.splits)
  then show ?thesis
    using remove_live [OF assms(1), of k] remove_done [OF assms(1), of k s'] Remove by simp
next
  case (Get k)
  then obtain g where a: "get s k = (s', g)" and r: "r = Got g"
    using assms(2) by (auto split: prod.splits)
  then show ?thesis
    using get_live [OF assms(1), of k] get_tab [OF assms(1) a] Get by simp
qed

lemma run_map:
  assumes "inv s"
  shows "snd (store_run (store_step add remove get) s xs)
    = snd (store_run (map_step key missing) (tab s) xs)"
  using assms
proof (induction xs arbitrary: s)
  case (Cons x xs)
  obtain s' r where x: "store_step add remove get s x = (s', r)" by force
  show ?case
    using Cons.IH [OF step_history(1) [OF Cons.prems x]] step_map [OF Cons.prems x] x
    by (simp add: split_beta)
qed simp

end

section \<open>A collection behind a loading cache\<close>

record ('c, 'h) cached =
  coll :: 'c
  cache :: 'h

definition table :: "('d \<Rightarrow> string) \<Rightarrow> ('c \<Rightarrow> 'd list) \<Rightarrow> ('c, 'h) cached \<Rightarrow> string \<Rightarrow> 'd option" where
  "table key docs s = lookup_by key (docs (coll s))"

text \<open>
  Every cached entry is backed by a stored document it agrees with.  For a store nobody
  updates in place agreement is equality; \<open>Endpoints\<close> needs a coarser one.
\<close>

definition backed :: "('d \<Rightarrow> 'd \<Rightarrow> bool) \<Rightarrow> (string \<Rightarrow> 'd option) \<Rightarrow> (string \<Rightarrow> 'd option) \<Rightarrow> bool" where
  "backed R e t \<longleftrightarrow> (\<forall>k r. e k = Some r \<longrightarrow> (\<exists>d. t k = Some d \<and> R r d))"

definition coherent :: "('d \<Rightarrow> 'd \<Rightarrow> bool) \<Rightarrow> ('d \<Rightarrow> string) \<Rightarrow> ('c \<Rightarrow> 'd list)
    \<Rightarrow> ('h \<Rightarrow> string \<Rightarrow> 'd option) \<Rightarrow> ('c, 'h) cached \<Rightarrow> bool" where
  "coherent R key docs entry s \<longleftrightarrow>
     distinct (map key (docs (coll s))) \<and> backed R (entry (cache s)) (table key docs s)"

abbreviation same_key :: "('d \<Rightarrow> string) \<Rightarrow> 'd \<Rightarrow> 'd \<Rightarrow> bool" where
  "same_key key d d' \<equiv> key d = key d'"

definition cached_inv :: "('c, 'h, 'd) backend \<Rightarrow> ('d \<Rightarrow> 'd \<Rightarrow> bool) \<Rightarrow> ('d \<Rightarrow> string)
    \<Rightarrow> ('c \<Rightarrow> 'd list) \<Rightarrow> ('h \<Rightarrow> string \<Rightarrow> 'd option) \<Rightarrow> ('c, 'h) cached \<Rightarrow> bool" where
  "cached_inv be R key docs entry s \<longleftrightarrow>
     backend_ok be (same_key key) docs entry \<and> reflp R \<and> coherent R key docs entry s"

definition live_inv :: "('c, 'h, 'd) backend \<Rightarrow> ('d \<Rightarrow> 'd \<Rightarrow> bool) \<Rightarrow> ('d \<Rightarrow> string)
    \<Rightarrow> ('c \<Rightarrow> 'd list) \<Rightarrow> ('h \<Rightarrow> string \<Rightarrow> 'd option) \<Rightarrow> ('c, 'h) cached \<Rightarrow> bool" where
  "live_inv be R key docs entry s \<longleftrightarrow>
     cached_inv be R key docs entry s \<and> backend_live be (same_key key) docs"

text \<open>The three shapes of code the stores repeat.  \<open>wrap\<close> is what a store makes of an error.\<close>

definition cached_add :: "('c, 'h, 'd) backend \<Rightarrow> ('d \<Rightarrow> string) \<Rightarrow> ('c, 'h) cached \<Rightarrow> 'd
    \<Rightarrow> ('c, 'h) cached \<times> go_error option" where
  "cached_add be key s d = (case InsertOne (mdb be) (coll s) d of (c, err) \<Rightarrow>
     if IsDuplicateKeyError err then (s\<lparr>coll := c\<rparr>, Some ErrDuplicateKey)
     else if err \<noteq> None then (s\<lparr>coll := c\<rparr>, err)
     else (case CacheSet (gca be) (cache s) (key d) d of (h, err) \<Rightarrow>
       (s\<lparr>coll := c, cache := h\<rparr>, err)))"

definition cached_remove :: "('c, 'h, 'd) backend \<Rightarrow> ('d \<Rightarrow> string) \<Rightarrow> (go_error \<Rightarrow> go_error)
    \<Rightarrow> ('c, 'h) cached \<Rightarrow> string \<Rightarrow> ('c, 'h) cached \<times> go_error option" where
  "cached_remove be key wrap s k = (case DeleteOne (mdb be) (coll s) (\<lambda>d. key d = k) of (c, err) \<Rightarrow>
     (case err of Some e \<Rightarrow> (s\<lparr>coll := c\<rparr>, Some (wrap e))
      | None \<Rightarrow> (s\<lparr>coll := c, cache := CacheRemove (gca be) (cache s) k\<rparr>, None)))"

definition cached_get :: "('c, 'h, 'd) backend \<Rightarrow> ('d \<Rightarrow> string) \<Rightarrow> (go_error \<Rightarrow> go_error)
    \<Rightarrow> ('c, 'h) cached \<Rightarrow> string \<Rightarrow> ('c, 'h) cached \<times> (go_error + 'd)" where
  "cached_get be key wrap s k =
     (case CacheGet (gca be) (cache s) k (\<lambda>k. FindOne (mdb be) (coll s) (\<lambda>d. key d = k)) of (h, r) \<Rightarrow>
       (s\<lparr>cache := h\<rparr>, (case r of Inl e \<Rightarrow> Inl (wrap e) | Inr d \<Rightarrow> Inr d)))"

text \<open>\<open>wrap\<close> may rename \<open>ErrNoDocuments\<close> to the store's own sentinel, and nothing else.\<close>

definition wraps :: "(go_error \<Rightarrow> go_error) \<Rightarrow> go_error \<Rightarrow> bool" where
  "wraps wrap missing \<longleftrightarrow> \<not> foreign missing \<and> missing \<noteq> ErrDuplicateKey \<and>
     wrap = (\<lambda>e. if e = MongoNoDocuments then missing else e)"

lemma backed_le: "e' \<subseteq>\<^sub>m e \<Longrightarrow> backed R e t \<Longrightarrow> backed R e' t"
  unfolding backed_def map_le_def by (metis domI)

lemma backed_upd: "backed R e t \<Longrightarrow> R d d' \<Longrightarrow> backed R (e(k \<mapsto> d)) (t(k \<mapsto> d'))"
  by (simp add: backed_def)

lemma backed_del: "backed R e t \<Longrightarrow> backed R (e(k := None)) (t(k := None))"
  by (simp add: backed_def)

lemma backed_upd_same: "backed R e t \<Longrightarrow> t k = Some d' \<Longrightarrow> R d d' \<Longrightarrow> backed R (e(k \<mapsto> d)) t"
  by (simp add: backed_def)

lemma cached_invD:
  assumes "cached_inv be R key docs entry s"
  shows "backend_ok be (same_key key) docs entry" and "distinct (map key (docs (coll s)))"
    and "backed R (entry (cache s)) (table key docs s)" and "R d d"
  using assms by (simp_all add: cached_inv_def coherent_def reflpD)

lemma cached_invI:
  assumes "cached_inv be R key docs entry s" and "distinct (map key (docs (coll t)))"
    and "backed R (entry (cache t)) (table key docs t)"
  shows "cached_inv be R key docs entry t"
  using assms by (simp add: cached_inv_def coherent_def)

lemma cached_add_ok:
  assumes inv: "cached_inv be R key docs entry s" and run: "cached_add be key s d = (s', None)"
  shows "table key docs s (key d) = None"
    and "table key docs s' = (table key docs s)(key d \<mapsto> d)"
    and "cached_inv be R key docs entry s'"
proof -
  note laws = backend_okD [OF cached_invD(1) [OF inv]]
  obtain c where ins: "InsertOne (mdb be) (coll s) d = (c, None)"
    using run by (auto simp: cached_add_def split: prod.splits if_splits)
  obtain h where set: "CacheSet (gca be) (cache s) (key d) d = (h, None)"
    and s': "s' = s\<lparr>coll := c, cache := h\<rparr>"
    using run ins by (auto simp: cached_add_def split: prod.splits)
  have docs: "docs c = docs (coll s) @ [d]" and new: "key d \<notin> key ` set (docs (coll s))"
    using InsertOne_ok [OF laws(1) ins] by auto
  show free: "table key docs s (key d) = None"
    using new by (simp add: table_def)
  show tab: "table key docs s' = (table key docs s)(key d \<mapsto> d)"
    using new by (simp add: table_def s' docs lookup_by_snoc)
  show "cached_inv be R key docs entry s'"
  proof (rule cached_invI [OF inv])
    show "distinct (map key (docs (coll s')))"
      using cached_invD(2) [OF inv] new by (simp add: s' docs)
    have "backed R (entry h) ((table key docs s)(key d \<mapsto> d))"
      by (rule backed_le [OF CacheSet_ok(3) [OF laws(6) set]
            backed_upd [OF cached_invD(3,4) [OF inv]]])
    then show "backed R (entry (cache s')) (table key docs s')"
      unfolding tab by (simp add: s')
  qed
qed

lemma cached_add_err:
  assumes inv: "cached_inv be R key docs entry s" and run: "cached_add be key s d = (s', Some e)"
  shows "table key docs s' = table key docs s"
    and "e = ErrDuplicateKey \<Longrightarrow> table key docs s (key d) \<noteq> None"
    and "cached_inv be R key docs entry s'"
proof -
  note laws = backend_okD [OF cached_invD(1) [OF inv]]
  obtain c err where ins: "InsertOne (mdb be) (coll s) d = (c, err)" by force
  have "err \<noteq> None"
  proof
    assume "err = None"
    moreover obtain h r where set: "CacheSet (gca be) (cache s) (key d) d = (h, r)" by force
    ultimately show False
      using run ins CacheSet_ok(1) [OF laws(6) set] by (simp add: cached_add_def)
  qed
  then obtain e' where ins: "InsertOne (mdb be) (coll s) d = (c, Some e')" using ins by auto
  then have s': "s' = s\<lparr>coll := c\<rparr>"
    and e: "e = (if IsDuplicateKeyError (Some e') then ErrDuplicateKey else e')"
    using run by (auto simp: cached_add_def split: if_splits)
  note err = InsertOne_err [OF laws(1) ins]
  show tab: "table key docs s' = table key docs s"
    using err(1) by (simp add: table_def s')
  show "table key docs s (key d) \<noteq> None" if "e = ErrDuplicateKey"
    using that e err(2,3) by (auto simp: table_def foreign_def split: if_splits)
  show "cached_inv be R key docs entry s'"
    by (rule cached_invI [OF inv])
      (use cached_invD [OF inv] err(1) in \<open>simp_all add: s' table_def\<close>)
qed

lemma cached_remove_ok:
  assumes inv: "cached_inv be R key docs entry s" and run: "cached_remove be key wrap s k = (s', None)"
  shows "table key docs s' = (table key docs s)(k := None)"
    and "cached_inv be R key docs entry s'"
proof -
  note laws = backend_okD [OF cached_invD(1) [OF inv]]
  obtain c where del: "DeleteOne (mdb be) (coll s) (\<lambda>d. key d = k) = (c, None)"
    and s': "s' = s\<lparr>coll := c, cache := CacheRemove (gca be) (cache s) k\<rparr>"
    using run by (auto simp: cached_remove_def split: prod.splits option.splits)
  have one: "length (filter (\<lambda>d. key d = k) (docs (coll s))) \<le> 1"
    by (rule unique_filter_length [OF cached_invD(2) [OF inv]])
  have docs: "docs c = filter (\<lambda>d. key d \<noteq> k) (docs (coll s))"
    by (rule DeleteOne_ok [OF laws(3) del one])
  show tab: "table key docs s' = (table key docs s)(k := None)"
    by (simp add: table_def s' docs lookup_by_filter_key)
  show "cached_inv be R key docs entry s'"
  proof (rule cached_invI [OF inv])
    show "distinct (map key (docs (coll s')))"
      using cached_invD(2) [OF inv] by (simp add: s' docs distinct_map_key_filter)
    have "backed R (entry (CacheRemove (gca be) (cache s) k)) ((table key docs s)(k := None))"
      by (rule backed_le [OF CacheRemove_ok [OF laws(6)] backed_del [OF cached_invD(3) [OF inv]]])
    then show "backed R (entry (cache s')) (table key docs s')"
      unfolding tab by (simp add: s')
  qed
qed

lemma cached_remove_err:
  assumes inv: "cached_inv be R key docs entry s" and run: "cached_remove be key wrap s k = (s', Some e)"
  shows "table key docs s' = table key docs s" and "cached_inv be R key docs entry s'"
    and "\<exists>e'. e = wrap e' \<and> foreign e' \<and> e' \<noteq> MongoNoDocuments"
proof -
  note laws = backend_okD [OF cached_invD(1) [OF inv]]
  obtain c e' where del: "DeleteOne (mdb be) (coll s) (\<lambda>d. key d = k) = (c, Some e')"
    and s': "s' = s\<lparr>coll := c\<rparr>" and e: "e = wrap e'"
    using run by (auto simp: cached_remove_def split: prod.splits option.splits)
  note err = DeleteOne_err [OF laws(3) del]
  show "table key docs s' = table key docs s"
    using err(1) by (simp add: table_def s')
  show "cached_inv be R key docs entry s'"
    by (rule cached_invI [OF inv])
      (use cached_invD [OF inv] err(1) in \<open>simp_all add: s' table_def\<close>)
  show "\<exists>e'. e = wrap e' \<and> foreign e' \<and> e' \<noteq> MongoNoDocuments"
    using e err(2,3) by blast
qed

lemma cached_get_ok:
  assumes inv: "cached_inv be R key docs entry s" and run: "cached_get be key wrap s k = (s', r)"
  shows "table key docs s' = table key docs s"
    and "cached_inv be R key docs entry s'"
    and "r = Inr d \<Longrightarrow> \<exists>d'. table key docs s k = Some d' \<and> R d d'"
    and "r = Inl e \<Longrightarrow> \<exists>e'. e = wrap e' \<and> foreign e' \<and> (e' = MongoNoDocuments \<longrightarrow> table key docs s k = None)"
proof -
  note laws = backend_okD [OF cached_invD(1) [OF inv]]
  let ?load = "\<lambda>k. FindOne (mdb be) (coll s) (\<lambda>d. key d = k)"
  obtain h q where get: "CacheGet (gca be) (cache s) k ?load = (h, q)" by force
  then have s': "s' = s\<lparr>cache := h\<rparr>" and r: "r = (case q of Inl e \<Rightarrow> Inl (wrap e) | Inr d \<Rightarrow> Inr d)"
    using run by (auto simp: cached_get_def)
  have load: "table key docs s k = Some d" if "?load k = Inr d" for d
    using FindOne_ok [OF laws(2) that] cached_invD(2) [OF inv]
    by (simp add: table_def lookup_by_Some)
  show tab: "table key docs s' = table key docs s"
    by (simp add: table_def s')
  have "backed R (entry h) (table key docs s) \<and>
     (\<forall>d. q = Inr d \<longrightarrow> (\<exists>d'. table key docs s k = Some d' \<and> R d d')) \<and>
     (\<forall>e. q = Inl e \<longrightarrow> foreign e \<and> (e = MongoNoDocuments \<longrightarrow> table key docs s k = None))"
  proof (cases "entry (cache s) k")
    case (Some d)
    then have "\<exists>d'. table key docs s k = Some d' \<and> R d d'"
      using cached_invD(3) [OF inv] by (simp add: backed_def)
    with CacheGet_hit [OF laws(6) get Some] cached_invD(3) [OF inv] show ?thesis
      by (auto intro: backed_le)
  next
    case None
    note miss = CacheGet_miss [OF laws(6) get None]
    show ?thesis
    proof (cases q)
      case (Inl e)
      then have err: "?load k = Inl e" using miss(1) by simp
      have "table key docs s k = None" if "e = MongoNoDocuments"
        using FindOne_none [OF laws(2), of _ "\<lambda>d. key d = k"] err that
        by (auto simp: table_def image_iff)
      with miss(2) Inl FindOne_err [OF laws(2) err] cached_invD(3) [OF inv] show ?thesis
        by (auto intro: backed_le)
    next
      case (Inr d)
      then have tab: "table key docs s k = Some d" using miss(1) load by simp
      have "entry h \<subseteq>\<^sub>m (entry (cache s))(k \<mapsto> d)" using miss(2) Inr by simp
      then have "backed R (entry h) (table key docs s)"
        by (rule backed_le) (rule backed_upd_same [OF cached_invD(3) [OF inv] tab cached_invD(4) [OF inv]])
      with Inr tab cached_invD(4) [OF inv] show ?thesis by auto
    qed
  qed
  note facts = this
  show "cached_inv be R key docs entry s'"
    by (rule cached_invI [OF inv])
      (use cached_invD(2) [OF inv] facts in \<open>simp_all add: s' table_def\<close>)
  show "\<exists>d'. table key docs s k = Some d' \<and> R d d'" if "r = Inr d"
    using that r facts by (auto split: sum.splits)
  show "\<exists>e'. e = wrap e' \<and> foreign e' \<and> (e' = MongoNoDocuments \<longrightarrow> table key docs s k = None)"
    if "r = Inl e"
    using that r facts by (auto split: sum.splits)
qed

text \<open>Under a live backend the three shapes answer exactly as the table does.\<close>

lemma live_invD:
  assumes "live_inv be R key docs entry s"
  shows "cached_inv be R key docs entry s" and "backend_live be (same_key key) docs"
  using assms by (simp_all add: live_inv_def)

lemma cached_add_live:
  assumes "live_inv be R key docs entry s"
  shows "snd (cached_add be key s d)
    = (if table key docs s (key d) = None then None else Some ErrDuplicateKey)"
proof -
  note inv = live_invD(1) [OF assms] and live = live_invD(2) [OF assms]
  note laws = backend_okD [OF cached_invD(1) [OF inv]]
  obtain c e where ins: "InsertOne (mdb be) (coll s) d = (c, e)" by force
  obtain h r where set: "CacheSet (gca be) (cache s) (key d) d = (h, r)" by force
  have "(\<exists>d' \<in> set (docs (coll s)). key d = key d') \<longleftrightarrow> table key docs s (key d) \<noteq> None"
    by (auto simp: table_def image_iff)
  then show ?thesis
    using live ins set CacheSet_ok(1) [OF laws(6) set]
    by (auto simp: backend_live_def cached_add_def dest!: spec [of _ "coll s"] spec [of _ d]
        split: if_splits)
qed

lemma cached_remove_live: "live_inv be R key docs entry s \<Longrightarrow> snd (cached_remove be key wrap s k) = None"
  by (auto simp: live_inv_def backend_live_def cached_remove_def split: prod.splits option.splits)
    (metis option.distinct(1) snd_conv)

lemma cached_get_live:
  assumes "live_inv be R key docs entry s" and "wraps wrap missing"
  shows "case table key docs s k of
      Some d \<Rightarrow> (\<exists>d'. snd (cached_get be key wrap s k) = Inr d' \<and> R d' d)
    | None \<Rightarrow> snd (cached_get be key wrap s k) = Inl missing"
proof -
  note inv = live_invD(1) [OF assms(1)] and live = live_invD(2) [OF assms(1)]
  note laws = backend_okD [OF cached_invD(1) [OF inv]]
  let ?P = "\<lambda>d. key d = k"
  let ?load = "\<lambda>k. FindOne (mdb be) (coll s) (\<lambda>d. key d = k)"
  have loads: "if \<exists>d \<in> set (docs (coll s)). ?P d then \<not> isl (?load k) else ?load k = Inl MongoNoDocuments"
    using live unfolding backend_live_def by blast
  obtain s' r where run: "cached_get be key wrap s k = (s', r)" by force
  obtain h q where get: "CacheGet (gca be) (cache s) k ?load = (h, q)" by force
  have r: "r = (case q of Inl e \<Rightarrow> Inl (wrap e) | Inr d \<Rightarrow> Inr d)"
    using run get by (auto simp: cached_get_def)
  show ?thesis
  proof (cases r)
    case (Inr d)
    then show ?thesis using cached_get_ok(3) [OF inv run] run by auto
  next
    case (Inl e)
    then have q: "\<exists>e'. q = Inl e' \<and> e = wrap e'" using r by (auto split: sum.splits)
    then have none: "entry (cache s) k = None"
      using CacheGet_hit(1) [OF laws(6) get] by (cases "entry (cache s) k") auto
    then have "q = ?load k" using CacheGet_miss(1) [OF laws(6) get] by simp
    with q loads have "q = Inl MongoNoDocuments" and "\<forall>d \<in> set (docs (coll s)). \<not> ?P d"
      by (auto split: if_splits)
    then have "table key docs s k = None" and "e = missing"
      using q assms(2) by (auto simp: table_def wraps_def image_iff)
    with Inl run show ?thesis by simp
  qed
qed

text \<open>The pattern meets the contract; each store's interpretation is an instance of these two.\<close>

lemma cached_keyed_store:
  assumes "wraps wrap missing"
  shows "keyed_store (cached_add be key) (cached_remove be key rwrap) (cached_get be key wrap) key
    (table key docs) (cached_inv be (=) key docs entry) missing"
proof
  fix s d s' err
  assume inv: "cached_inv be (=) key docs entry s" and "cached_add be key s d = (s', err)"
  then show "cached_inv be (=) key docs entry s'"
    using cached_add_ok(3) [OF inv] cached_add_err(3) [OF inv] by (cases err) auto
next
  fix s k s' err
  assume inv: "cached_inv be (=) key docs entry s" and "cached_remove be key rwrap s k = (s', err)"
  then show "cached_inv be (=) key docs entry s'"
    using cached_remove_ok(2) [OF inv] cached_remove_err(2) [OF inv] by (cases err) auto
next
  fix s k s' r
  assume inv: "cached_inv be (=) key docs entry s" and get: "cached_get be key wrap s k = (s', r)"
  show "cached_inv be (=) key docs entry s'" and "table key docs s' = table key docs s"
    using cached_get_ok(1,2) [OF inv get] by auto
next
  fix s d s' e
  assume inv: "cached_inv be (=) key docs entry s"
  show "table key docs s (key d) = None \<and> table key docs s' = (table key docs s)(key d \<mapsto> d)"
    if "cached_add be key s d = (s', None)"
    using cached_add_ok(1,2) [OF inv that] by simp
  show "table key docs s' = table key docs s \<and> (e = ErrDuplicateKey \<longrightarrow> table key docs s (key d) \<noteq> None)"
    if "cached_add be key s d = (s', Some e)"
    using cached_add_err(1,2) [OF inv that] by simp
next
  fix s k s' e d
  assume inv: "cached_inv be (=) key docs entry s"
  show "table key docs s' = (table key docs s)(k := None)"
    if "cached_remove be key rwrap s k = (s', None)"
    by (rule cached_remove_ok(1) [OF inv that])
  show "table key docs s' = table key docs s" if "cached_remove be key rwrap s k = (s', Some e)"
    by (rule cached_remove_err(1) [OF inv that])
  show "table key docs s k = Some d" if "cached_get be key wrap s k = (s', Inr d)"
    using cached_get_ok(3) [OF inv that] by simp
  show "table key docs s k = None" if "cached_get be key wrap s k = (s', Inl missing)"
    using cached_get_ok(4) [OF inv that, of missing] assms by (auto simp: wraps_def split: if_splits)
qed

lemma keyed_store_guard:
  "keyed_store add remove get key tab I missing \<Longrightarrow>
   keyed_store add remove get key tab (\<lambda>s. I s \<and> G) missing"
proof (cases G)
  case False
  then have "(\<lambda>s. I s \<and> G) = (\<lambda>_. False)" by simp
  then show ?thesis by (simp only:) (unfold_locales, simp_all)
qed simp

lemma cached_live_store:
  assumes "wraps wrap missing"
  shows "live_store (cached_add be key) (cached_remove be key rwrap) (cached_get be key wrap) key
    (table key docs) (live_inv be (=) key docs entry) missing"
proof (rule live_store.intro)
  have inv: "live_inv be (=) key docs entry =
      (\<lambda>s. cached_inv be (=) key docs entry s \<and> backend_live be (same_key key) docs)"
    by (rule ext) (simp add: live_inv_def)
  show "keyed_store (cached_add be key) (cached_remove be key rwrap) (cached_get be key wrap) key
      (table key docs) (live_inv be (=) key docs entry) missing"
    unfolding inv by (rule keyed_store_guard [OF cached_keyed_store [OF assms]])
  show "live_store_axioms (cached_add be key) (cached_remove be key rwrap)
      (cached_get be key wrap) key (table key docs) (live_inv be (=) key docs entry) missing"
  proof
    fix s d k
    assume live: "live_inv be (=) key docs entry s"
    show "snd (cached_add be key s d) = (if table key docs s (key d) = None then None else Some ErrDuplicateKey)"
      by (rule cached_add_live [OF live])
    show "snd (cached_remove be key rwrap s k) = None"
      by (rule cached_remove_live [OF live])
    show "snd (cached_get be key wrap s k)
        = (case table key docs s k of Some d \<Rightarrow> Inr d | None \<Rightarrow> Inl missing)"
      using cached_get_live [OF live assms, of k] by (auto split: option.splits)
  qed
qed

end
