(* ===== verification/Routes.thy ===== *)
theory Routes
  imports Store
begin

text \<open>
  \<open>internal/database/routes.go\<close> and the \<open>Route\<close> of \<open>models.go\<close>: the routes
  collection with its unique index on \<open>path\<close> and its cache.  Each operation runs under the
  write or read lock of the struct (\<open>util.RunWithWriteLock\<close>, \<open>RunWithReadLock\<close>), so the
  model takes it as one atomic state change.
\<close>

record Route =
  Path :: string
  Type :: string
  ScriptName :: string
  Response :: string
  ProxyURL :: string

definition STATIC_ENDPOINT_TYPE :: string where
  "STATIC_ENDPOINT_TYPE = ''static_endpoint''"

definition PROXY_ENDPOINT_TYPE :: string where
  "PROXY_ENDPOINT_TYPE = ''proxy_endpoint''"

definition DYNAMIC_ENDPOINT_TYPE :: string where
  "DYNAMIC_ENDPOINT_TYPE = ''dynamic_endpoint''"

lemmas endpoint_types = STATIC_ENDPOINT_TYPE_def PROXY_ENDPOINT_TYPE_def DYNAMIC_ENDPOINT_TYPE_def

type_synonym ('c, 'h) routes = "('c, 'h) cached"

definition routes_loader :: "('c, 'h, Route) backend \<Rightarrow> ('c, 'h) routes \<Rightarrow> string \<Rightarrow> go_error + Route" where
  "routes_loader be r path = FindOne (mdb be) (coll r) (\<lambda>d. Path d = path)"

definition addRoute :: "('c, 'h, Route) backend \<Rightarrow> ('c, 'h) routes \<Rightarrow> Route
    \<Rightarrow> ('c, 'h) routes \<times> go_error option" where
  "addRoute be r route =
     (let (c, err) = InsertOne (mdb be) (coll r) route; r = r\<lparr>coll := c\<rparr> in
      if IsDuplicateKeyError err then (r, Some ErrDuplicateKey)
      else if err \<noteq> None then (r, err)
      else
        let (h, err) = CacheSet (gca be) (cache r) (Path route) route
        in (r\<lparr>cache := h\<rparr>, err))"

definition removeRoute :: "('c, 'h, Route) backend \<Rightarrow> ('c, 'h) routes \<Rightarrow> string
    \<Rightarrow> ('c, 'h) routes \<times> go_error option" where
  "removeRoute be r path =
     (let (c, err) = DeleteOne (mdb be) (coll r) (\<lambda>d. Path d = path); r = r\<lparr>coll := c\<rparr> in
      if err \<noteq> None then (r, err)
      else (r\<lparr>cache := CacheRemove (gca be) (cache r) path\<rparr>, None))"

text \<open>
  \<open>updateRoute\<close> reads \<open>res.MatchedCount\<close> before it looks at the error: with an error other
  than \<open>ErrNoDocuments\<close> and a nil result the dereference panics.  The \<open>$set\<close> document has
  the response and the script name, and not the proxy URL.
\<close>

definition updateRoute :: "('c, 'h, Route) backend \<Rightarrow> ('c, 'h) routes \<Rightarrow> Route
    \<Rightarrow> ('c, 'h) routes \<times> go_error option outcome" where
  "updateRoute be s route =
     (let (c, res, err) = UpdateOne (mdb be) (coll s)
        (\<lambda>d. Path d = Path route \<and> Type d = Type route)
        (\<lambda>d. d\<lparr>Response := Response route, ScriptName := ScriptName route\<rparr>);
        s = s\<lparr>coll := c\<rparr> in
      if err = Some MongoNoDocuments then (s, Return (Some ErrNoSuchPath))
      else case res of
        None \<Rightarrow> (s, Panic ''nil pointer dereference'')
      | Some MatchedCount \<Rightarrow>
          if MatchedCount = 0 then (s, Return (Some ErrNoSuchPath))
          else if err \<noteq> None then (s, Return err)
          else
            let (h, err) = CacheSet (gca be) (cache s) (Path route) route
            in (s\<lparr>cache := h\<rparr>, Return err))"

definition getRoute :: "('c, 'h, Route) backend \<Rightarrow> ('c, 'h) routes \<Rightarrow> string
    \<Rightarrow> ('c, 'h) routes \<times> (go_error + Route)" where
  "getRoute be s path =
     (let (h, res) = CacheGet (gca be) (cache s) path (routes_loader be s); s = s\<lparr>cache := h\<rparr> in
      case res of
        Inl err \<Rightarrow> if err = MongoNoDocuments then (s, Inl ErrNoSuchPath) else (s, Inl err)
      | Inr route \<Rightarrow> (s, Inr route))"

definition listAllRoutesPathsWithType :: "('c, 'h, Route) backend \<Rightarrow> ('c, 'h) routes \<Rightarrow> string
    \<Rightarrow> go_error + string list" where
  "listAllRoutesPathsWithType be r t =
     (case FindAll (mdb be) (coll r) (\<lambda>d. Type d = t) of
        Inl err \<Rightarrow> Inl err
      | Inr results \<Rightarrow> Inr (map Path results))"

section \<open>The routes store meets the contract\<close>

definition no_such_path :: "go_error \<Rightarrow> go_error" where
  "no_such_path e = (if e = MongoNoDocuments then ErrNoSuchPath else e)"

lemma wraps_no_such_path: "wraps no_such_path ErrNoSuchPath"
  by (simp add: wraps_def no_such_path_def foreign_def fun_eq_iff)

lemma addRoute_cached: "addRoute be = cached_add be Path"
  by (intro ext) (simp add: addRoute_def cached_add_def split_beta Let_def)

lemma removeRoute_cached: "removeRoute be = cached_remove be Path (\<lambda>e. e)"
  by (intro ext) (auto simp: removeRoute_def cached_remove_def split_beta Let_def split: option.splits)

lemma getRoute_cached: "getRoute be = cached_get be Path no_such_path"
proof (intro ext)
  fix s path
  have "routes_loader be s = (\<lambda>k. FindOne (mdb be) (coll s) (\<lambda>d. Path d = k))"
    by (rule ext) (simp add: routes_loader_def)
  then show "getRoute be s path = cached_get be Path no_such_path s path"
    by (simp add: getRoute_def cached_get_def no_such_path_def split_beta Let_def split: sum.split)
qed

lemmas routes_cached = addRoute_cached removeRoute_cached getRoute_cached

interpretation routes_store: keyed_store "addRoute be" "removeRoute be" "getRoute be" Path
    "table Path docs" "cached_inv be (=) Path docs entry" ErrNoSuchPath
  for be :: "('c, 'h, Route) backend" and docs entry
  unfolding routes_cached by (rule cached_keyed_store [OF wraps_no_such_path])

interpretation live_routes: live_store "addRoute be" "removeRoute be" "getRoute be" Path
    "table Path docs" "live_inv be (=) Path docs entry" ErrNoSuchPath
  for be :: "('c, 'h, Route) backend" and docs entry
  unfolding routes_cached by (rule cached_live_store [OF wraps_no_such_path])

end
