(* ===== verification/Endpoints.thy ===== *)
theory Endpoints
  imports Routes
begin

text \<open>
  The endpoint calls of \<open>internal/database/mongo.go\<close> (\<open>AddStaticEndpoint\<close> to
  \<open>ListAllDynamicEndpointPaths\<close>) on the routes store \<open>db.routes\<close>, and their abstract
  specification: a finite map from paths to endpoints, an endpoint being a static response, a
  proxy URL or a script.

  Updates of proxy endpoints do not reach the collection (see \<open>updateRoute\<close>), so a cached proxy
  route and the stored one may differ in the URL; \<open>agree\<close> is what the cache and the collection
  keep in common, and it is exact for the other two kinds.
\<close>

section \<open>The calls\<close>

definition AddStaticEndpoint :: "('c, 'h, Route) backend \<Rightarrow> ('c, 'h) routes \<Rightarrow> string \<Rightarrow> string
    \<Rightarrow> ('c, 'h) routes \<times> go_error option" where
  "AddStaticEndpoint be r path response = addRoute be r
     \<lparr>Path = path, Type = STATIC_ENDPOINT_TYPE, ScriptName = '''', Response = response, ProxyURL = ''''\<rparr>"

definition RemoveStaticEndpoint :: "('c, 'h, Route) backend \<Rightarrow> ('c, 'h) routes \<Rightarrow> string
    \<Rightarrow> ('c, 'h) routes \<times> go_error option" where
  "RemoveStaticEndpoint be r path = removeRoute be r path"

definition UpdateStaticEndpoint :: "('c, 'h, Route) backend \<Rightarrow> ('c, 'h) routes \<Rightarrow> string \<Rightarrow> string
    \<Rightarrow> ('c, 'h) routes \<times> go_error option outcome" where
  "UpdateStaticEndpoint be r path response = updateRoute be r
     \<lparr>Path = path, Type = STATIC_ENDPOINT_TYPE, ScriptName = '''', Response = response, ProxyURL = ''''\<rparr>"

definition GetStaticEndpointResponse :: "('c, 'h, Route) backend \<Rightarrow> ('c, 'h) routes \<Rightarrow> string
    \<Rightarrow> ('c, 'h) routes \<times> (go_error + string)" where
  "GetStaticEndpointResponse be r path = (let (r, res) = getRoute be r path in
     case res of Inl err \<Rightarrow> (r, Inl err)
     | Inr route \<Rightarrow> if Type route \<noteq> STATIC_ENDPOINT_TYPE then (r, Inl ErrBadRouteType)
         else (r, Inr (Response route)))"

definition ListAllStaticEndpointPaths :: "('c, 'h, Route) backend \<Rightarrow> ('c, 'h) routes
    \<Rightarrow> go_error + string list" where
  "ListAllStaticEndpointPaths be r = listAllRoutesPathsWithType be r STATIC_ENDPOINT_TYPE"

definition AddProxyEndpoint :: "('c, 'h, Route) backend \<Rightarrow> ('c, 'h) routes \<Rightarrow> string \<Rightarrow> string
    \<Rightarrow> ('c, 'h) routes \<times> go_error option" where
  "AddProxyEndpoint be r path proxyUrl = addRoute be r
     \<lparr>Path = path, Type = PROXY_ENDPOINT_TYPE, ScriptName = '''', Response = '''', ProxyURL = proxyUrl\<rparr>"

definition RemoveProxyEndpoint :: "('c, 'h, Route) backend \<Rightarrow> ('c, 'h) routes \<Rightarrow> string
    \<Rightarrow> ('c, 'h) routes \<times> go_error option" where
  "RemoveProxyEndpoint be r path = removeRoute be r path"

definition UpdateProxyEndpoint :: "('c, 'h, Route) backend \<Rightarrow> ('c, 'h) routes \<Rightarrow> string \<Rightarrow> string
    \<Rightarrow> ('c, 'h) routes \<times> go_error option outcome" where
  "UpdateProxyEndpoint be r path proxyUrl = updateRoute be r
     \<lparr>Path = path, Type = PROXY_ENDPOINT_TYPE, ScriptName = '''', Response = '''', ProxyURL = proxyUrl\<rparr>"

definition GetProxyEndpointProxyUrl :: "('c, 'h, Route) backend \<Rightarrow> ('c, 'h) routes \<Rightarrow> string
    \<Rightarrow> ('c, 'h) routes \<times> (go_error + string)" where
  "GetProxyEndpointProxyUrl be r path = (let (r, res) = getRoute be r path in
     case res of Inl err \<Rightarrow> (r, Inl err)
     | Inr route \<Rightarrow> if Type route \<noteq> PROXY_ENDPOINT_TYPE then (r, Inl ErrBadRouteType)
         else (r, Inr (ProxyURL route)))"

definition ListAllProxyEndpointPaths :: "('c, 'h, Route) backend \<Rightarrow> ('c, 'h) routes
    \<Rightarrow> go_error + string list" where
  "ListAllProxyEndpointPaths be r = listAllRoutesPathsWithType be r PROXY_ENDPOINT_TYPE"

definition AddDynamicEndpoint :: "('c, 'h, Route) backend \<Rightarrow> ('c, 'h) routes \<Rightarrow> string \<Rightarrow> string
    \<Rightarrow> ('c, 'h) routes \<times> go_error option" where
  "AddDynamicEndpoint be r path scriptName = addRoute be r
     \<lparr>Path = path, Type = DYNAMIC_ENDPOINT_TYPE, ScriptName = scriptName, Response = '''', ProxyURL = ''''\<rparr>"

definition RemoveDynamicEndpoint :: "('c, 'h, Route) backend \<Rightarrow> ('c, 'h) routes \<Rightarrow> string
    \<Rightarrow> ('c, 'h) routes \<times> go_error option" where
  "RemoveDynamicEndpoint be r path = removeRoute be r path"

definition UpdateDynamicEndpoint :: "('c, 'h, Route) backend \<Rightarrow> ('c, 'h) routes \<Rightarrow> string \<Rightarrow> string
    \<Rightarrow> ('c, 'h) routes \<times> go_error option outcome" where
  "UpdateDynamicEndpoint be r path scriptName = updateRoute be r
     \<lparr>Path = path, Type = DYNAMIC_ENDPOINT_TYPE, ScriptName = scriptName, Response = '''', ProxyURL = ''''\<rparr>"

definition GetDynamicEndpointScriptName :: "('c, 'h, Route) backend \<Rightarrow> ('c, 'h) routes \<Rightarrow> string
    \<Rightarrow> ('c, 'h) routes \<times> (go_error + string)" where
  "GetDynamicEndpointScriptName be r path = (let (r, res) = getRoute be r path in
     case res of Inl err \<Rightarrow> (r, Inl err)
     | Inr route \<Rightarrow> if Type route \<noteq> DYNAMIC_ENDPOINT_TYPE then (r, Inl ErrBadRouteType)
         else (r, Inr (ScriptName route)))"

definition GetRoute :: "('c, 'h, Route) backend \<Rightarrow> ('c, 'h) routes \<Rightarrow> string
    \<Rightarrow> ('c, 'h) routes \<times> (go_error + Route)" where
  "GetRoute be r path = getRoute be r path"

definition ListAllDynamicEndpointPaths :: "('c, 'h, Route) backend \<Rightarrow> ('c, 'h) routes
    \<Rightarrow> go_error + string list" where
  "ListAllDynamicEndpointPaths be r = listAllRoutesPathsWithType be r DYNAMIC_ENDPOINT_TYPE"

lemmas endpoint_calls =
  AddStaticEndpoint_def RemoveStaticEndpoint_def UpdateStaticEndpoint_def
  GetStaticEndpointResponse_def ListAllStaticEndpointPaths_def
  AddProxyEndpoint_def RemoveProxyEndpoint_def UpdateProxyEndpoint_def
  GetProxyEndpointProxyUrl_def ListAllProxyEndpointPaths_def
  AddDynamicEndpoint_def RemoveDynamicEndpoint_def UpdateDynamicEndpoint_def
  GetDynamicEndpointScriptName_def ListAllDynamicEndpointPaths_def GetRoute_def

section \<open>The abstract map of endpoints\<close>

datatype endpoint = Static string | Proxy string | Dynamic string

fun route_of :: "string \<Rightarrow> endpoint \<Rightarrow> Route" where
  "route_of path (Static response) = \<lparr>Path = path, Type = STATIC_ENDPOINT_TYPE, ScriptName = '''',
     Response = response, ProxyURL = ''''\<rparr>"
| "route_of path (Proxy url) = \<lparr>Path = path, Type = PROXY_ENDPOINT_TYPE, ScriptName = '''',
     Response = '''', ProxyURL = url\<rparr>"
| "route_of path (Dynamic script) = \<lparr>Path = path, Type = DYNAMIC_ENDPOINT_TYPE,
     ScriptName = script, Response = '''', ProxyURL = ''''\<rparr>"

definition endpoint_of :: "Route \<Rightarrow> endpoint option" where
  "endpoint_of r =
     (if Type r = STATIC_ENDPOINT_TYPE then Some (Static (Response r))
      else if Type r = PROXY_ENDPOINT_TYPE then Some (Proxy (ProxyURL r))
      else if Type r = DYNAMIC_ENDPOINT_TYPE then Some (Dynamic (ScriptName r))
      else None)"

text \<open>A route is shaped when it is the route of some endpoint: no stray field is set.\<close>

definition shaped :: "Route \<Rightarrow> bool" where
  "shaped r \<longleftrightarrow> (case endpoint_of r of None \<Rightarrow> False | Some e \<Rightarrow> r = route_of (Path r) e)"

fun same_kind :: "endpoint \<Rightarrow> endpoint \<Rightarrow> bool" where
  "same_kind (Static _) (Static _) = True"
| "same_kind (Proxy _) (Proxy _) = True"
| "same_kind (Dynamic _) (Dynamic _) = True"
| "same_kind _ _ = False"

definition endpoints :: "('c \<Rightarrow> Route list) \<Rightarrow> ('c, 'h) routes \<Rightarrow> string \<Rightarrow> endpoint option" where
  "endpoints docs s path = Option.bind (table Path docs s path) endpoint_of"

definition agree :: "Route \<Rightarrow> Route \<Rightarrow> bool" where
  "agree r d \<longleftrightarrow> r = d \<or> (Path r = Path d \<and> shaped r \<and>
     Type r = PROXY_ENDPOINT_TYPE \<and> Type d = PROXY_ENDPOINT_TYPE)"

definition endpoints_inv :: "('c, 'h, Route) backend \<Rightarrow> ('c \<Rightarrow> Route list)
    \<Rightarrow> ('h \<Rightarrow> string \<Rightarrow> Route option) \<Rightarrow> ('c, 'h) routes \<Rightarrow> bool" where
  "endpoints_inv be docs entry s \<longleftrightarrow>
     cached_inv be agree Path docs entry s \<and>
     (\<forall>path r. table Path docs s path = Some r \<longrightarrow> shaped r)"

lemma endpoint_of_route_of [simp]: "endpoint_of (route_of p e) = Some e"
  by (cases e) (simp_all add: endpoint_of_def endpoint_types)

lemma Path_route_of [simp]: "Path (route_of p e) = p"
  by (cases e) simp_all

lemma shaped_route_of [simp]: "shaped (route_of p e)"
  by (simp add: shaped_def)

lemma shapedE:
  assumes "shaped r"
  obtains e where "r = route_of (Path r) e"
  using assms by (auto simp: shaped_def split: option.splits)

lemma Type_route_of_eq [simp]: "Type (route_of p e) = Type (route_of q e') \<longleftrightarrow> same_kind e e'"
  by (cases e; cases e') (simp_all add: endpoint_types)

lemma reflp_agree: "reflp agree"
  by (rule reflpI) (simp add: agree_def)

lemma Type_route_of_Proxy [simp]: "Type (route_of p e) = PROXY_ENDPOINT_TYPE \<longleftrightarrow> (\<exists>u. e = Proxy u)"
  by (cases e) (simp_all add: endpoint_types)

text \<open>Two shaped routes that agree are routes of the same kind, equal unless they are proxies.\<close>

lemma agree_route_of:
  assumes "agree r (route_of p e)"
  obtains e' where "r = route_of p e'" and "same_kind e' e" and "(\<forall>u. e \<noteq> Proxy u) \<Longrightarrow> e' = e"
proof (cases "r = route_of p e")
  case True
  moreover have "same_kind e e" by (cases e) simp_all
  ultimately show thesis using that by blast
next
  case False
  with assms have "Path r = p" and "shaped r" and t: "Type r = PROXY_ENDPOINT_TYPE" "\<exists>u. e = Proxy u"
    by (auto simp: agree_def)
  then obtain e' where r: "r = route_of p e'" using shapedE by metis
  with t(1) obtain u' where "e' = Proxy u'" by auto
  moreover obtain u where "e = Proxy u" using t(2) by blast
  ultimately show thesis using that [OF r] by simp
qed

lemma endpoints_invD:
  assumes "endpoints_inv be docs entry s"
  shows "cached_inv be agree Path docs entry s"
    and "table Path docs s path = Some r \<Longrightarrow> \<exists>e. r = route_of path e"
proof -
  show inv: "cached_inv be agree Path docs entry s" using assms by (simp add: endpoints_inv_def)
  assume t: "table Path docs s path = Some r"
  then have "Path r = path" by (auto simp: table_def dest: lookup_by_SomeD)
  moreover have "shaped r" using assms t by (auto simp: endpoints_inv_def)
  ultimately show "\<exists>e. r = route_of path e" using shapedE by metis
qed

lemma endpoints_table:
  assumes "endpoints_inv be docs entry s"
  shows "table Path docs s path = map_option (route_of path) (endpoints docs s path)"
  using endpoints_invD(2) [OF assms, of path]
  by (cases "table Path docs s path") (auto simp: endpoints_def)

lemma endpoints_upd:
  "table Path docs s' = (table Path docs s)(p \<mapsto> route_of p e) \<Longrightarrow>
   endpoints docs s' = (endpoints docs s)(p \<mapsto> e)"
  by (rule ext) (simp add: endpoints_def)

lemma endpoints_invI:
  assumes "endpoints_inv be docs entry s" and "cached_inv be agree Path docs entry s'"
    and "\<And>path r. table Path docs s' path = Some r \<Longrightarrow>
      table Path docs s path = Some r \<or> (\<exists>e. r = route_of path e)"
  shows "endpoints_inv be docs entry s'"
  unfolding endpoints_inv_def
proof (intro conjI allI impI)
  show "cached_inv be agree Path docs entry s'" by (rule assms(2))
  show "shaped r" if "table Path docs s' path = Some r" for path r
    using assms(3) [OF that] endpoints_invD(2) [OF assms(1), of path r] by auto
qed

section \<open>Every call against the abstract map\<close>

lemma addRoute_endpoints:
  assumes inv: "endpoints_inv be docs entry s" and run: "addRoute be s (route_of p e) = (s', err)"
  shows "endpoints_inv be docs entry s'"
    and "err = None \<Longrightarrow> endpoints docs s p = None"
    and "err = None \<Longrightarrow> endpoints docs s' = (endpoints docs s)(p \<mapsto> e)"
    and "err \<noteq> None \<Longrightarrow> endpoints docs s' = endpoints docs s"
    and "err = Some ErrDuplicateKey \<Longrightarrow> endpoints docs s p \<noteq> None"
proof -
  note c = endpoints_invD(1) [OF inv]
  have run: "cached_add be Path s (route_of p e) = (s', err)"
    using run by (simp add: addRoute_cached)
  have free: "endpoints docs s p = None \<longleftrightarrow> table Path docs s p = None"
    by (simp add: endpoints_table [OF inv])
  show "endpoints_inv be docs entry s'"
  proof (rule endpoints_invI [OF inv])
    show "cached_inv be agree Path docs entry s'"
      using cached_add_ok(3) [OF c] cached_add_err(3) [OF c] run by (cases err) auto
    show "table Path docs s path = Some r \<or> (\<exists>e. r = route_of path e)"
      if "table Path docs s' path = Some r" for path r
      using that cached_add_ok(2) [OF c] cached_add_err(1) [OF c] run
      by (cases err) (auto split: if_splits)
  qed
  show "endpoints docs s p = None" if "err = None"
    using cached_add_ok(1) [OF c, of "route_of p e" s'] run that by (simp add: free)
  show "endpoints docs s' = (endpoints docs s)(p \<mapsto> e)" if "err = None"
    using cached_add_ok(2) [OF c] run that by (intro endpoints_upd) simp
  show "endpoints docs s' = endpoints docs s" if "err \<noteq> None"
    using cached_add_err(1) [OF c] run that by (auto simp: endpoints_def fun_eq_iff)
  show "endpoints docs s p \<noteq> None" if "err = Some ErrDuplicateKey"
    using cached_add_err(2) [OF c, of "route_of p e" s'] run that by (simp add: free)
qed

lemma removeRoute_endpoints:
  assumes inv: "endpoints_inv be docs entry s" and run: "removeRoute be s p = (s', err)"
  shows "endpoints_inv be docs entry s'"
    and "err = None \<Longrightarrow> endpoints docs s' = (endpoints docs s)(p := None)"
    and "err \<noteq> None \<Longrightarrow> endpoints docs s' = endpoints docs s"
    and "err \<noteq> Some ErrNoSuchPath"
proof -
  note c = endpoints_invD(1) [OF inv]
  have run: "cached_remove be Path (\<lambda>e. e) s p = (s', err)"
    using run by (simp add: removeRoute_cached)
  have tab: "table Path docs s' = (if err = None then (table Path docs s)(p := None) else table Path docs s)"
    using cached_remove_ok(1) [OF c] cached_remove_err(1) [OF c] run by (cases err) auto
  show "endpoints_inv be docs entry s'"
  proof (rule endpoints_invI [OF inv])
    show "cached_inv be agree Path docs entry s'"
      using cached_remove_ok(2) [OF c] cached_remove_err(2) [OF c] run by (cases err) auto
    show "table Path docs s path = Some r \<or> (\<exists>e. r = route_of path e)"
      if "table Path docs s' path = Some r" for path r
      using that by (simp add: tab split: if_splits)
  qed
  show "endpoints docs s' = (endpoints docs s)(p := None)" if "err = None"
    by (rule ext) (simp add: endpoints_def tab that)
  show "endpoints docs s' = endpoints docs s" if "err \<noteq> None"
    by (rule ext) (simp add: endpoints_def tab that)
  show "err \<noteq> Some ErrNoSuchPath"
    using cached_remove_err(3) [OF c] run by (auto simp: foreign_def)
qed

lemma getRoute_endpoints:
  assumes inv: "endpoints_inv be docs entry s" and run: "getRoute be s p = (s', res)"
  shows "endpoints_inv be docs entry s'"
    and "endpoints docs s' = endpoints docs s"
    and "res = Inr r \<Longrightarrow> \<exists>e e'. endpoints docs s p = Some e \<and> r = route_of p e' \<and> same_kind e' e \<and>
      ((\<forall>u. e \<noteq> Proxy u) \<longrightarrow> e' = e)"
    and "res = Inl ErrNoSuchPath \<Longrightarrow> endpoints docs s p = None"
    and "res \<noteq> Inl ErrBadRouteType"
proof -
  note c = endpoints_invD(1) [OF inv]
  have run: "cached_get be Path no_such_path s p = (s', res)"
    using run by (simp add: getRoute_cached)
  note get = cached_get_ok(1,2) [OF c run]
  note found = cached_get_ok(3) [OF c run] and failed = cached_get_ok(4) [OF c run]
  show "endpoints_inv be docs entry s'"
    by (rule endpoints_invI [OF inv get(2)]) (simp add: get(1))
  show "endpoints docs s' = endpoints docs s"
    by (rule ext) (simp add: endpoints_def get(1))
  show "\<exists>e e'. endpoints docs s p = Some e \<and> r = route_of p e' \<and> same_kind e' e \<and>
      ((\<forall>u. e \<noteq> Proxy u) \<longrightarrow> e' = e)" if "res = Inr r"
  proof -
    from found [OF that] obtain d where "table Path docs s p = Some d" and a: "agree r d" by auto
    then obtain e where e: "endpoints docs s p = Some e" and "d = route_of p e"
      using endpoints_table [OF inv] by auto
    with a obtain e' where "r = route_of p e'" "same_kind e' e" "(\<forall>u. e \<noteq> Proxy u) \<longrightarrow> e' = e"
      by (metis agree_route_of)
    with e show ?thesis by blast
  qed
  show "endpoints docs s p = None" if "res = Inl ErrNoSuchPath"
    using failed [OF that] by (auto simp: no_such_path_def foreign_def endpoints_def split: if_splits)
  show "res \<noteq> Inl ErrBadRouteType"
    using failed by (auto simp: no_such_path_def foreign_def split: if_splits)
qed


text \<open>What an update that found its route leaves in the collection: a proxy keeps its old URL.\<close>

fun stored :: "endpoint \<Rightarrow> endpoint \<Rightarrow> endpoint" where
  "stored old (Proxy _) = old"
| "stored old new = new"

lemma set_document:
  "same_kind old new \<Longrightarrow> (route_of p old)\<lparr>Response := Response (route_of p new),
     ScriptName := ScriptName (route_of p new)\<rparr> = route_of p (stored old new)"
  by (cases old; cases new) simp_all

lemma agree_stored: "same_kind old new \<Longrightarrow> agree (route_of p new) (route_of p (stored old new))"
  by (cases old; cases new) (simp_all add: agree_def shaped_def endpoint_of_def endpoint_types)

text \<open>The update document as the driver applies it, and what it does to the table of routes.\<close>

definition set_route :: "Route \<Rightarrow> Route \<Rightarrow> Route" where
  "set_route route d = d\<lparr>Response := Response route, ScriptName := ScriptName route\<rparr>"

abbreviation matches :: "Route \<Rightarrow> Route \<Rightarrow> bool" where
  "matches route d \<equiv> Path d = Path route \<and> Type d = Type route"

lemma set_route_simps [simp]:
  "Path (set_route route d) = Path d" "Type (set_route route d) = Type d"
  by (simp_all add: set_route_def)

lemma matches_route_of [simp]: "matches (route_of p e) (route_of q old) \<longleftrightarrow> q = p \<and> same_kind old e"
  by (cases old; cases e) (simp_all add: endpoint_types)

lemma update_table:
  assumes inv: "endpoints_inv be docs entry s"
    and upd: "UpdateOne (mdb be) (coll s) (matches (route_of p e)) (set_route (route_of p e)) = (k, n, None)"
  shows "distinct (map Path (docs k))"
    and "table Path docs (s\<lparr>coll := k\<rparr>) = (case endpoints docs s p of
      Some old \<Rightarrow> if same_kind old e then (table Path docs s)(p \<mapsto> route_of p (stored old e))
        else table Path docs s
    | None \<Rightarrow> table Path docs s)"
    and "n = Some (case endpoints docs s p of Some old \<Rightarrow> if same_kind old e then 1 else 0 | None \<Rightarrow> 0)"
proof -
  note c = endpoints_invD(1) [OF inv]
  note laws = backend_okD [OF cached_invD(1) [OF c]]
  have one: "length (filter (matches (route_of p e)) (docs (coll s))) \<le> 1"
    by (rule unique_filter_length [OF cached_invD(2) [OF c], where k = p]) simp
  note ok = UpdateOne_ok [OF laws(4) upd one]
  show "distinct (map Path (docs k))"
    using cached_invD(2) [OF c] map_key_map_if [of Path "set_route (route_of p e)"]
    by (simp only: ok(2) set_route_simps)
  have tab: "table Path docs (s\<lparr>coll := k\<rparr>) q = map_option (\<lambda>d. if matches (route_of p e) d
      then set_route (route_of p e) d else d) (table Path docs s q)" for q
    unfolding table_def by (simp add: ok(2)) (rule lookup_by_map_if, simp)
  show "table Path docs (s\<lparr>coll := k\<rparr>) = (case endpoints docs s p of
      Some old \<Rightarrow> if same_kind old e then (table Path docs s)(p \<mapsto> route_of p (stored old e))
        else table Path docs s
    | None \<Rightarrow> table Path docs s)"
  proof
    fix q
    show "table Path docs (s\<lparr>coll := k\<rparr>) q = (case endpoints docs s p of
      Some old \<Rightarrow> if same_kind old e then (table Path docs s)(p \<mapsto> route_of p (stored old e))
        else table Path docs s
    | None \<Rightarrow> table Path docs s) q"
      unfolding tab using endpoints_table [OF inv, of q] set_document [of _ e p]
      by (cases "endpoints docs s q") (auto simp: set_route_def split: option.splits)
  qed
  show "n = Some (case endpoints docs s p of Some old \<Rightarrow> if same_kind old e then 1 else 0 | None \<Rightarrow> 0)"
    using unique_length_filter_lookup [OF cached_invD(2) [OF c], of p "\<lambda>d. Type d = Type (route_of p e)"]
      endpoints_table [OF inv, of p]
    by (simp add: ok(1) table_def split: option.splits)
qed

lemma updateRoute_keep:
  assumes "endpoints_inv be docs entry s" and "distinct (map Path (docs k))"
    and "table Path docs (s\<lparr>coll := k\<rparr>) = table Path docs s"
  shows "endpoints_inv be docs entry (s\<lparr>coll := k\<rparr>)"
    and "endpoints docs (s\<lparr>coll := k\<rparr>) = endpoints docs s"
proof -
  note c = endpoints_invD(1) [OF assms(1)]
  have "cached_inv be agree Path docs entry (s\<lparr>coll := k\<rparr>)"
    by (rule cached_invI [OF c]) (use assms cached_invD(3) [OF c] in simp_all)
  then show "endpoints_inv be docs entry (s\<lparr>coll := k\<rparr>)"
    by (rule endpoints_invI [OF assms(1)]) (simp add: assms)
  show "endpoints docs (s\<lparr>coll := k\<rparr>) = endpoints docs s"
    by (rule ext) (simp add: endpoints_def assms)
qed

lemma updateRoute_hit:
  assumes inv: "endpoints_inv be docs entry s"
    and upd: "UpdateOne (mdb be) (coll s) (matches (route_of p e)) (set_route (route_of p e)) = (k, n, None)"
    and old: "endpoints docs s p = Some old" "same_kind old e"
    and set: "CacheSet (gca be) (cache s) p (route_of p e) = (h, None)"
  shows "endpoints_inv be docs entry (s\<lparr>coll := k, cache := h\<rparr>)"
    and "endpoints docs (s\<lparr>coll := k, cache := h\<rparr>) = (endpoints docs s)(p \<mapsto> stored old e)"
proof -
  let ?s' = "s\<lparr>coll := k, cache := h\<rparr>"
  note c = endpoints_invD(1) [OF inv]
  note laws = backend_okD [OF cached_invD(1) [OF c]]
  have tab: "table Path docs ?s' = (table Path docs s)(p \<mapsto> route_of p (stored old e))"
    using update_table(2) [OF inv upd] old by (simp add: table_def fun_eq_iff)
  have "cached_inv be agree Path docs entry ?s'"
  proof (rule cached_invI [OF c])
    show "distinct (map Path (docs (coll ?s')))" using update_table(1) [OF inv upd] by simp
    show "backed agree (entry (cache ?s')) (table Path docs ?s')"
      unfolding tab using backed_le [OF CacheSet_ok(3) [OF laws(6) set]
        backed_upd [OF cached_invD(3) [OF c] agree_stored [OF old(2)]]] by simp
  qed
  then show "endpoints_inv be docs entry ?s'"
    by (rule endpoints_invI [OF inv]) (auto simp: tab split: if_splits)
  show "endpoints docs ?s' = (endpoints docs s)(p \<mapsto> stored old e)"
    by (rule endpoints_upd [OF tab])
qed

text \<open>The outcomes of an update, read off the abstract map.\<close>

fun updated :: "(string \<Rightarrow> endpoint option) \<Rightarrow> string \<Rightarrow> endpoint \<Rightarrow> go_error option outcome
    \<Rightarrow> (string \<Rightarrow> endpoint option) \<Rightarrow> bool" where
  "updated m p e (Return None) m' =
     (\<exists>old. m p = Some old \<and> same_kind old e \<and> m' = m(p \<mapsto> stored old e))"
| "updated m p e (Return (Some err)) m' =
     (err = ErrNoSuchPath \<and> m' = m \<and> (\<forall>old. m p = Some old \<longrightarrow> \<not> same_kind old e))"
| "updated m p e (Panic _) m' = (m' = m)"

lemma updateRoute_endpoints:
  assumes inv: "endpoints_inv be docs entry s" and run: "updateRoute be s (route_of p e) = (s', res)"
  shows "endpoints_inv be docs entry s'" and "updated (endpoints docs s) p e res (endpoints docs s')"
proof -
  note c = endpoints_invD(1) [OF inv]
  note laws = backend_okD [OF cached_invD(1) [OF c]]
  obtain k n x where upd:
    "UpdateOne (mdb be) (coll s) (matches (route_of p e)) (set_route (route_of p e)) = (k, n, x)"
    by (rule prod_cases3)
  have code: "updateRoute be s (route_of p e) = (if x = Some MongoNoDocuments
      then (s\<lparr>coll := k\<rparr>, Return (Some ErrNoSuchPath))
      else case n of None \<Rightarrow> (s\<lparr>coll := k\<rparr>, Panic ''nil pointer dereference'')
      | Some m \<Rightarrow> if m = 0 then (s\<lparr>coll := k\<rparr>, Return (Some ErrNoSuchPath))
          else if x \<noteq> None then (s\<lparr>coll := k\<rparr>, Return x)
          else let (h, err) = CacheSet (gca be) (cache s) p (route_of p e)
            in (s\<lparr>coll := k, cache := h\<rparr>, Return err))"
    using upd by (cases x; cases n) (simp_all add: updateRoute_def set_route_def [abs_def] Let_def)
  have "endpoints_inv be docs entry s' \<and> updated (endpoints docs s) p e res (endpoints docs s')"
  proof (cases x)
    case (Some y)
    note err = UpdateOne_err [OF laws(4) upd [unfolded Some]]
    have "table Path docs (s\<lparr>coll := k\<rparr>) = table Path docs s"
      by (rule ext) (simp add: table_def err(1))
    with updateRoute_keep [OF inv _ this] cached_invD(2) [OF c] show ?thesis
      using run err Some by (auto simp: code)
  next
    case None
    note tab = update_table [OF inv upd [unfolded None]]
    obtain h where set: "CacheSet (gca be) (cache s) p (route_of p e) = (h, None)"
      using CacheSet_ok(1) [OF laws(6)] by (metis surj_pair)
    show ?thesis
    proof (cases "\<exists>old. endpoints docs s p = Some old \<and> same_kind old e")
      case True
      then obtain old where old: "endpoints docs s p = Some old" "same_kind old e" by blast
      with run set None tab(3) have "s' = s\<lparr>coll := k, cache := h\<rparr>" and "res = Return None"
        by (auto simp: code)
      with updateRoute_hit [OF inv upd [unfolded None] old set] old show ?thesis by auto
    next
      case False
      then have "n = Some 0" and same: "table Path docs (s\<lparr>coll := k\<rparr>) = table Path docs s"
        using tab(2,3) by (auto split: option.splits)
      with run None have "s' = s\<lparr>coll := k\<rparr>" and "res = Return (Some ErrNoSuchPath)"
        by (auto simp: code)
      with updateRoute_keep [OF inv tab(1) same] False show ?thesis by auto
    qed
  qed
  then show "endpoints_inv be docs entry s'" and "updated (endpoints docs s) p e res (endpoints docs s')"
    by auto
qed


section \<open>What a read shows\<close>

text \<open>
  The cache stands in front of the collection: a read shows the cached route, and the stored one
  when there is none.  The two maps differ in the URL of updated proxies only (\<open>shows_stored\<close>),
  because that is what \<open>updateRoute\<close> leaves out of the collection; any call may lose an entry, and
  then the stored endpoint shows again (\<open>evicts\<close>).
\<close>

definition shown :: "('c \<Rightarrow> Route list) \<Rightarrow> ('h \<Rightarrow> string \<Rightarrow> Route option) \<Rightarrow> ('c, 'h) routes
    \<Rightarrow> string \<Rightarrow> endpoint option" where
  "shown docs entry s p = (case entry (cache s) p of Some r \<Rightarrow> endpoint_of r | None \<Rightarrow> endpoints docs s p)"

definition evicts :: "(string \<Rightarrow> endpoint option) \<Rightarrow> (string \<Rightarrow> endpoint option) \<Rightarrow> (string \<Rightarrow> endpoint option) \<Rightarrow> bool" where
  "evicts m v v' \<longleftrightarrow> (\<forall>p. v' p = v p \<or> v' p = m p)"

definition shows_stored :: "(string \<Rightarrow> endpoint option) \<Rightarrow> (string \<Rightarrow> endpoint option) \<Rightarrow> bool" where
  "shows_stored m v \<longleftrightarrow> (\<forall>p. v p = m p \<or> (\<exists>u u'. m p = Some (Proxy u) \<and> v p = Some (Proxy u')))"

lemma evicts_refl [simp]: "evicts m v v"
  by (simp add: evicts_def)

lemma shown_cached:
  assumes inv: "endpoints_inv be docs entry s" and "entry (cache s) p = Some r"
  obtains e e' where "endpoints docs s p = Some e" and "r = route_of p e'" and "shown docs entry s p = Some e'"
    and "same_kind e' e" and "(\<forall>u. e \<noteq> Proxy u) \<Longrightarrow> e' = e"
proof -
  obtain d where d: "table Path docs s p = Some d" "agree r d"
    using cached_invD(3) [OF endpoints_invD(1) [OF inv]] assms(2) by (auto simp: backed_def)
  then obtain e where e: "endpoints docs s p = Some e" "d = route_of p e"
    using endpoints_table [OF inv, of p] by auto
  with d(2) obtain e' where "r = route_of p e'" "same_kind e' e" "(\<forall>u. e \<noteq> Proxy u) \<Longrightarrow> e' = e"
    by (metis agree_route_of)
  with e(1) assms(2) that show thesis by (simp add: shown_def)
qed

lemma shown_stored:
  assumes "endpoints_inv be docs entry s"
  shows "shows_stored (endpoints docs s) (shown docs entry s)"
  unfolding shows_stored_def
proof
  fix p
  show "shown docs entry s p = endpoints docs s p \<or>
      (\<exists>u u'. endpoints docs s p = Some (Proxy u) \<and> shown docs entry s p = Some (Proxy u'))"
  proof (cases "entry (cache s) p")
    case (Some r)
    from assms Some show ?thesis
    proof (rule shown_cached)
      fix e e'
      assume "endpoints docs s p = Some e" "shown docs entry s p = Some e'" "same_kind e' e"
        "(\<forall>u. e \<noteq> Proxy u) \<Longrightarrow> e' = e"
      then show ?thesis by (cases e; cases e') auto
    qed
  qed (simp add: shown_def)
qed

lemma shows_storedD:
  assumes "shows_stored m v"
  shows "v p = None \<longleftrightarrow> m p = None" and "v p = Some (Static x) \<longleftrightarrow> m p = Some (Static x)"
    and "v p = Some (Dynamic x) \<longleftrightarrow> m p = Some (Dynamic x)"
    and "(\<exists>u. v p = Some (Proxy u)) \<longleftrightarrow> (\<exists>u. m p = Some (Proxy u))"
  using assms unfolding shows_stored_def by (metis endpoint.distinct option.distinct(1) option.inject)+

text \<open>What the steps of the cache do to the shown endpoints.\<close>

lemma shown_loses:
  assumes "entry (cache s') \<subseteq>\<^sub>m entry (cache s)" and "endpoints docs s' = endpoints docs s"
  shows "evicts (endpoints docs s) (shown docs entry s) (shown docs entry s')"
  using assms by (auto simp: evicts_def shown_def map_le_def dom_def split: option.splits)

lemma shown_sets:
  assumes "entry (cache s') \<subseteq>\<^sub>m (entry (cache s))(p \<mapsto> route_of p e)"
    and "\<And>q. q \<noteq> p \<Longrightarrow> endpoints docs s' q = endpoints docs s q"
  shows "evicts (endpoints docs s') ((shown docs entry s)(p \<mapsto> e)) (shown docs entry s')"
  unfolding evicts_def
proof
  fix q
  show "shown docs entry s' q = ((shown docs entry s)(p \<mapsto> e)) q \<or> shown docs entry s' q = endpoints docs s' q"
    using assms(1) assms(2) [of q]
    by (cases "entry (cache s') q") (auto simp: shown_def map_le_def dom_def split: if_splits dest!: spec [of _ q])
qed

lemma shown_drops:
  assumes "entry (cache s') \<subseteq>\<^sub>m (entry (cache s))(p := None)"
    and "endpoints docs s' = (endpoints docs s)(p := None)"
  shows "evicts (endpoints docs s') ((shown docs entry s)(p := None)) (shown docs entry s')"
  unfolding evicts_def
proof
  fix q
  show "shown docs entry s' q = ((shown docs entry s)(p := None)) q \<or> shown docs entry s' q = endpoints docs s' q"
    using assms(1,2)
    by (cases "entry (cache s') q") (auto simp: shown_def map_le_def dom_def split: if_splits dest!: spec [of _ q])
qed

lemma shown_same: "cache s' = cache s \<Longrightarrow> endpoints docs s' = endpoints docs s \<Longrightarrow> shown docs entry s' = shown docs entry s"
  by (rule ext) (simp add: shown_def split: option.split)

lemma addRoute_shown:
  assumes inv: "endpoints_inv be docs entry s" and run: "addRoute be s (route_of p e) = (s', err)"
  shows "err = None \<Longrightarrow> evicts (endpoints docs s') ((shown docs entry s)(p \<mapsto> e)) (shown docs entry s')"
    and "err \<noteq> None \<Longrightarrow> shown docs entry s' = shown docs entry s"
proof -
  note laws = backend_okD [OF cached_invD(1) [OF endpoints_invD(1) [OF inv]]]
  obtain c x where ins: "InsertOne (mdb be) (coll s) (route_of p e) = (c, x)" by force
  obtain h y where set: "CacheSet (gca be) (cache s) p (route_of p e) = (h, y)" by force
  note cset = CacheSet_ok [OF laws(6) set]
  show "evicts (endpoints docs s') ((shown docs entry s)(p \<mapsto> e)) (shown docs entry s')" if "err = None"
  proof (rule shown_sets)
    show "entry (cache s') \<subseteq>\<^sub>m (entry (cache s))(p \<mapsto> route_of p e)"
      using run that ins set cset by (auto simp: addRoute_def Let_def split: if_splits)
  qed (simp add: addRoute_endpoints(3) [OF inv run that])
  show "shown docs entry s' = shown docs entry s" if "err \<noteq> None"
    by (rule shown_same [OF _ addRoute_endpoints(4) [OF inv run that]])
      (use run that ins set cset(1) in \<open>auto simp: addRoute_def Let_def split: if_splits\<close>)
qed

lemma removeRoute_shown:
  assumes inv: "endpoints_inv be docs entry s" and run: "removeRoute be s p = (s', err)"
  shows "err = None \<Longrightarrow> evicts (endpoints docs s') ((shown docs entry s)(p := None)) (shown docs entry s')"
    and "err \<noteq> None \<Longrightarrow> shown docs entry s' = shown docs entry s"
proof -
  note laws = backend_okD [OF cached_invD(1) [OF endpoints_invD(1) [OF inv]]]
  obtain c x where del: "DeleteOne (mdb be) (coll s) (\<lambda>d. Path d = p) = (c, x)" by force
  show "evicts (endpoints docs s') ((shown docs entry s)(p := None)) (shown docs entry s')" if "err = None"
    by (rule shown_drops [OF _ removeRoute_endpoints(2) [OF inv run that]])
      (use run that del CacheRemove_ok [OF laws(6)] in \<open>auto simp: removeRoute_def Let_def split: if_splits\<close>)
  show "shown docs entry s' = shown docs entry s" if "err \<noteq> None"
    by (rule shown_same [OF _ removeRoute_endpoints(3) [OF inv run that]])
      (use run that del in \<open>auto simp: removeRoute_def Let_def split: if_splits\<close>)
qed

lemma updateRoute_shown:
  assumes inv: "endpoints_inv be docs entry s" and run: "updateRoute be s (route_of p e) = (s', res)"
  shows "res = Return None \<Longrightarrow> shown docs entry s' p = Some e \<and>
      evicts (endpoints docs s') ((shown docs entry s)(p \<mapsto> e)) (shown docs entry s')"
    and "res \<noteq> Return None \<Longrightarrow> shown docs entry s' = shown docs entry s"
proof -
  note laws = backend_okD [OF cached_invD(1) [OF endpoints_invD(1) [OF inv]]]
  obtain c n x where upd: "UpdateOne (mdb be) (coll s) (\<lambda>d. Path d = Path (route_of p e) \<and> Type d = Type (route_of p e))
      (\<lambda>d. d\<lparr>Response := Response (route_of p e), ScriptName := ScriptName (route_of p e)\<rparr>) = (c, n, x)"
    by (rule prod_cases3)
  obtain h y where set: "CacheSet (gca be) (cache s) p (route_of p e) = (h, y)" by force
  note cset = CacheSet_ok [OF laws(6) set]
  note to = updateRoute_endpoints(2) [OF inv run]
  show "shown docs entry s' p = Some e \<and>
      evicts (endpoints docs s') ((shown docs entry s)(p \<mapsto> e)) (shown docs entry s')" if "res = Return None"
  proof
    have h: "cache s' = h"
      using run that upd set cset(1) by (auto simp: updateRoute_def Let_def split: if_splits option.splits)
    with cset(2) show "shown docs entry s' p = Some e" by (simp add: shown_def)
    show "evicts (endpoints docs s') ((shown docs entry s)(p \<mapsto> e)) (shown docs entry s')"
      by (rule shown_sets) (use h cset(3) to that in auto)
  qed
  show "shown docs entry s' = shown docs entry s" if "res \<noteq> Return None"
  proof (rule shown_same)
    show "cache s' = cache s"
      using run that upd set cset(1) by (auto simp: updateRoute_def Let_def split: if_splits option.splits)
    show "endpoints docs s' = endpoints docs s"
      using to that by (cases "(endpoints docs s, p, e, res, endpoints docs s')" rule: updated.cases) auto
  qed
qed

text \<open>A read answers with the endpoint shown, whether it comes from the cache or the collection.\<close>

lemma getRoute_shown:
  assumes inv: "endpoints_inv be docs entry s" and run: "getRoute be s p = (s', res)"
  shows "res = Inr r \<Longrightarrow> \<exists>e. shown docs entry s p = Some e \<and> r = route_of p e"
    and "evicts (endpoints docs s) (shown docs entry s) (shown docs entry s')"
proof -
  note laws = backend_okD [OF cached_invD(1) [OF endpoints_invD(1) [OF inv]]]
  note keep = getRoute_endpoints(2) [OF inv run]
  obtain h x where get: "CacheGet (gca be) (cache s) p (routes_loader be s) = (h, x)" by force
  have h: "cache s' = h" and x: "res = Inr r \<Longrightarrow> x = Inr r" for r
    using run get by (auto simp: getRoute_def Let_def split: sum.splits if_splits)
  have "(\<forall>r. res = Inr r \<longrightarrow> (\<exists>e. shown docs entry s p = Some e \<and> r = route_of p e)) \<and>
      evicts (endpoints docs s) (shown docs entry s) (shown docs entry s')"
  proof (cases "entry (cache s) p")
    case (Some d)
    note hit = CacheGet_hit [OF laws(6) get Some]
    have "evicts (endpoints docs s) (shown docs entry s) (shown docs entry s')"
      by (rule shown_loses [OF _ keep]) (simp add: h hit(2))
    moreover have "\<exists>e. shown docs entry s p = Some e \<and> r = route_of p e" if "res = Inr r" for r
      using shown_cached [OF inv Some] x [OF that] hit(1) by (metis sum.inject(2))
    ultimately show ?thesis by blast
  next
    case None
    note miss = CacheGet_miss [OF laws(6) get None]
    show ?thesis
    proof (cases x)
      case (Inl err)
      have "evicts (endpoints docs s) (shown docs entry s) (shown docs entry s')"
        by (rule shown_loses [OF _ keep]) (use miss(2) Inl h in simp)
      with Inl x show ?thesis by auto
    next
      case (Inr d)
      then have "FindOne (mdb be) (coll s) (\<lambda>d. Path d = p) = Inr d" using miss(1) by (simp add: routes_loader_def)
      from FindOne_ok [OF laws(2) this] have "table Path docs s p = Some d"
        using cached_invD(2) [OF endpoints_invD(1) [OF inv]]
        by (simp add: table_def lookup_by_Some)
      then obtain e where e: "endpoints docs s p = Some e" "d = route_of p e"
        using endpoints_table [OF inv, of p] by auto
      then have e': "shown docs entry s p = Some e" using None by (simp add: shown_def)
      then have same: "(shown docs entry s)(p \<mapsto> e) = shown docs entry s" by auto
      have "evicts (endpoints docs s') ((shown docs entry s)(p \<mapsto> e)) (shown docs entry s')"
        by (rule shown_sets) (use miss(2) Inr h e keep in auto)
      then have "evicts (endpoints docs s) (shown docs entry s) (shown docs entry s')"
        by (simp only: same keep)
      with e e' x Inr show ?thesis by auto
    qed
  qed
  then show "res = Inr r \<Longrightarrow> \<exists>e. shown docs entry s p = Some e \<and> r = route_of p e"
    and "evicts (endpoints docs s) (shown docs entry s) (shown docs entry s')" by blast+
qed

section \<open>Histories of endpoint calls\<close>

text \<open>
  A client's call, the code it runs, and the abstract specification of one call: what the map
  of endpoints was, what the client saw, what the map is afterwards.  \<open>Told\<close> is the error of
  a write, \<open>Read\<close> the result of \<open>GetRoute\<close>.
\<close>

datatype ep_call = AddEp string endpoint | RemoveEp string endpoint | UpdateEp string endpoint | GetEp string

datatype ep_obs = Told "go_error option outcome" | Read "go_error + Route"

fun ep_step :: "('c, 'h, Route) backend \<Rightarrow> ('c, 'h) routes \<Rightarrow> ep_call \<Rightarrow> ('c, 'h) routes \<times> ep_obs" where
  "ep_step be s (AddEp p (Static r)) = apsnd (\<lambda>e. Told (Return e)) (AddStaticEndpoint be s p r)"
| "ep_step be s (AddEp p (Proxy u)) = apsnd (\<lambda>e. Told (Return e)) (AddProxyEndpoint be s p u)"
| "ep_step be s (AddEp p (Dynamic n)) = apsnd (\<lambda>e. Told (Return e)) (AddDynamicEndpoint be s p n)"
| "ep_step be s (RemoveEp p (Static _)) = apsnd (\<lambda>e. Told (Return e)) (RemoveStaticEndpoint be s p)"
| "ep_step be s (RemoveEp p (Proxy _)) = apsnd (\<lambda>e. Told (Return e)) (RemoveProxyEndpoint be s p)"
| "ep_step be s (RemoveEp p (Dynamic _)) = apsnd (\<lambda>e. Told (Return e)) (RemoveDynamicEndpoint be s p)"
| "ep_step be s (UpdateEp p (Static r)) = apsnd Told (UpdateStaticEndpoint be s p r)"
| "ep_step be s (UpdateEp p (Proxy u)) = apsnd Told (UpdateProxyEndpoint be s p u)"
| "ep_step be s (UpdateEp p (Dynamic n)) = apsnd Told (UpdateDynamicEndpoint be s p n)"
| "ep_step be s (GetEp p) = apsnd Read (GetRoute be s p)"

fun ep_run :: "('c, 'h, Route) backend \<Rightarrow> ('c, 'h) routes \<Rightarrow> ep_call list
    \<Rightarrow> ('c, 'h) routes \<times> (ep_call \<times> ep_obs) list" where
  "ep_run be s [] = (s, [])"
| "ep_run be s (x # xs) = (case ep_step be s x of (s', ob) \<Rightarrow>
     (case ep_run be s' xs of (t, h) \<Rightarrow> (t, (x, ob) # h)))"

fun ep_spec :: "(string \<Rightarrow> endpoint option) \<times> (string \<Rightarrow> endpoint option) \<Rightarrow> ep_call \<Rightarrow> ep_obs
    \<Rightarrow> (string \<Rightarrow> endpoint option) \<times> (string \<Rightarrow> endpoint option) \<Rightarrow> bool" where
  "ep_spec (m, v) (AddEp p e) (Told (Return None)) (m', v') =
     (m p = None \<and> m' = m(p \<mapsto> e) \<and> evicts m' (v(p \<mapsto> e)) v')"
| "ep_spec (m, v) (AddEp p e) (Told (Return (Some err))) (m', v') =
     (m' = m \<and> v' = v \<and> (err = ErrDuplicateKey \<longrightarrow> m p \<noteq> None))"
| "ep_spec (m, v) (RemoveEp p _) (Told (Return None)) (m', v') =
     (m' = m(p := None) \<and> evicts m' (v(p := None)) v')"
| "ep_spec (m, v) (RemoveEp p _) (Told (Return (Some err))) (m', v') = (m' = m \<and> v' = v \<and> err \<noteq> ErrNoSuchPath)"
| "ep_spec (m, v) (UpdateEp p e) (Told x) (m', v') = (updated m p e x m' \<and>
     (if x = Return None then v' p = Some e \<and> evicts m' (v(p \<mapsto> e)) v' else v' = v))"
| "ep_spec (m, v) (GetEp p) (Read (Inr r)) (m', v') =
     (m' = m \<and> evicts m v v' \<and> (\<exists>e. v p = Some e \<and> r = route_of p e))"
| "ep_spec (m, v) (GetEp p) (Read (Inl err)) (m', v') =
     (m' = m \<and> evicts m v v' \<and> err \<noteq> ErrBadRouteType \<and> (err = ErrNoSuchPath \<longrightarrow> v p = None))"
| "ep_spec _ _ _ _ = False"

fun ep_spec_run :: "(string \<Rightarrow> endpoint option) \<times> (string \<Rightarrow> endpoint option) \<Rightarrow> (ep_call \<times> ep_obs) list
    \<Rightarrow> (string \<Rightarrow> endpoint option) \<times> (string \<Rightarrow> endpoint option) \<Rightarrow> bool" where
  "ep_spec_run a [] a' = (a' = a)"
| "ep_spec_run a ((x, ob) # h) a' = (\<exists>a1. ep_spec a x ob a1 \<and> shows_stored (fst a1) (snd a1) \<and> ep_spec_run a1 h a')"

text \<open>The abstract state of a store: what its collection holds, and what a read shows.\<close>

definition ep_view :: "('c \<Rightarrow> Route list) \<Rightarrow> ('h \<Rightarrow> string \<Rightarrow> Route option) \<Rightarrow> ('c, 'h) routes
    \<Rightarrow> (string \<Rightarrow> endpoint option) \<times> (string \<Rightarrow> endpoint option)" where
  "ep_view docs entry s = (endpoints docs s, shown docs entry s)"

text \<open>Every call is one of four, on the route of its endpoint.\<close>

lemma ep_step_simps:
  "ep_step be s (AddEp p e) = apsnd (\<lambda>x. Told (Return x)) (addRoute be s (route_of p e))"
  "ep_step be s (RemoveEp p e) = apsnd (\<lambda>x. Told (Return x)) (removeRoute be s p)"
  "ep_step be s (UpdateEp p e) = apsnd Told (updateRoute be s (route_of p e))"
  by (cases e; simp add: endpoint_calls)+

lemma ep_step_spec:
  assumes inv: "endpoints_inv be docs entry s" and run: "ep_step be s x = (s', ob)"
  shows "endpoints_inv be docs entry s'" and "ep_spec (ep_view docs entry s) x ob (ep_view docs entry s')"
proof -
  have "endpoints_inv be docs entry s' \<and> ep_spec (ep_view docs entry s) x ob (ep_view docs entry s')"
  proof (cases x)
    case (AddEp p e)
    with run obtain err where add: "addRoute be s (route_of p e) = (s', err)" and ob: "ob = Told (Return err)"
      by (auto simp: ep_step_simps apsnd_def map_prod_def split: prod.splits)
    show ?thesis
      using addRoute_endpoints [OF inv add] addRoute_shown [OF inv add] AddEp ob
      by (cases err) (simp_all add: ep_view_def)
  next
    case (RemoveEp p e)
    with run obtain err where rm: "removeRoute be s p = (s', err)" and ob: "ob = Told (Return err)"
      by (auto simp: ep_step_simps apsnd_def map_prod_def split: prod.splits)
    show ?thesis
      using removeRoute_endpoints [OF inv rm] removeRoute_shown [OF inv rm] RemoveEp ob
      by (cases err) (auto simp: ep_view_def)
  next
    case (UpdateEp p e)
    with run obtain res where "updateRoute be s (route_of p e) = (s', res)" "ob = Told res"
      by (auto simp: ep_step_simps apsnd_def map_prod_def split: prod.splits)
    with updateRoute_endpoints [OF inv] updateRoute_shown [OF inv] UpdateEp show ?thesis by (simp add: ep_view_def)
  next
    case (GetEp p)
    with run obtain res where get: "getRoute be s p = (s', res)" "ob = Read res"
      by (auto simp: GetRoute_def apsnd_def map_prod_def split: prod.splits)
    have "res = Inl ErrNoSuchPath \<Longrightarrow> shown docs entry s p = None"
      using getRoute_endpoints(4) [OF inv get(1)] shows_storedD(1) [OF shown_stored [OF inv]] by simp
    with getRoute_endpoints [OF inv get(1)] getRoute_shown [OF inv get(1)] GetEp get(2) show ?thesis
      by (cases res) (auto simp: ep_view_def)
  qed
  then show "endpoints_inv be docs entry s'" and "ep_spec (ep_view docs entry s) x ob (ep_view docs entry s')"
    by auto
qed

lemma ep_run_spec:
  "endpoints_inv be docs entry s \<Longrightarrow> ep_run be s xs = (t, h) \<Longrightarrow>
   endpoints_inv be docs entry t \<and> ep_spec_run (ep_view docs entry s) h (ep_view docs entry t)"
proof (induction xs arbitrary: s h)
  case (Cons x xs)
  obtain s' ob where x: "ep_step be s x = (s', ob)" by force
  obtain h' where xs: "ep_run be s' xs = (t, h')" and h: "h = (x, ob) # h'"
    using Cons.prems(2) x by (auto split: prod.splits)
  note step = ep_step_spec [OF Cons.prems(1) x]
  have "shows_stored (fst (ep_view docs entry s')) (snd (ep_view docs entry s'))"
    using shown_stored [OF step(1)] by (simp add: ep_view_def)
  with Cons.IH [OF step(1) xs] step(2) show ?case unfolding h ep_spec_run.simps by blast
qed simp

text \<open>The state after \<open>routes.init\<close> on an empty collection.\<close>

lemma mem_endpoints_inv: "endpoints_inv (mem_backend (same_key Path) n) mem_docs map_of \<lparr>coll = [], cache = []\<rparr>"
  by (simp add: endpoints_inv_def cached_inv_def mem_backend_ok reflp_agree coherent_def backed_def table_def)

section \<open>Reads of one type\<close>

text \<open>A store whose database answers.\<close>

definition endpoints_live :: "('c, 'h, Route) backend \<Rightarrow> ('c \<Rightarrow> Route list)
    \<Rightarrow> ('h \<Rightarrow> string \<Rightarrow> Route option) \<Rightarrow> ('c, 'h) routes \<Rightarrow> bool" where
  "endpoints_live be docs entry s \<longleftrightarrow>
     endpoints_inv be docs entry s \<and> backend_live be (same_key Path) docs"

lemma getRoute_live:
  assumes "endpoints_live be docs entry s"
  obtains "endpoints docs s p = None" and "snd (getRoute be s p) = Inl ErrNoSuchPath"
  | e e' where "endpoints docs s p = Some e" and "snd (getRoute be s p) = Inr (route_of p e')"
      and "same_kind e' e" and "(\<forall>u. e \<noteq> Proxy u) \<Longrightarrow> e' = e"
proof -
  have inv: "endpoints_inv be docs entry s"
    and live: "live_inv be agree Path docs entry s"
    using assms endpoints_invD(1) by (auto simp: endpoints_live_def live_inv_def)
  obtain s' r where run: "getRoute be s p = (s', r)" by force
  have ans: "case table Path docs s p of Some d \<Rightarrow> \<exists>d'. r = Inr d' \<and> agree d' d | None \<Rightarrow> r = Inl ErrNoSuchPath"
    using cached_get_live [OF live wraps_no_such_path, of p] run
    by (simp add: getRoute_cached split: option.splits)
  show thesis
  proof (cases "endpoints docs s p")
    case None
    with ans run show thesis using that(1) by (simp add: endpoints_table [OF inv])
  next
    case (Some e)
    then obtain d' where d': "r = Inr d'" "agree d' (route_of p e)"
      using ans by (auto simp: endpoints_table [OF inv])
    from d'(2) show thesis
      by (rule agree_route_of) (use that(2) [OF Some] d'(1) run in auto)
  qed
qed


section \<open>Reads and writes while the database answers\<close>

lemma endpoints_liveD:
  assumes "endpoints_live be docs entry s"
  shows "endpoints_inv be docs entry s" and "live_inv be agree Path docs entry s"
    and "endpoints_inv be docs entry s' \<Longrightarrow> endpoints_live be docs entry s'"
  using assms endpoints_invD(1) by (auto simp: endpoints_live_def live_inv_def)

lemma addRoute_live:
  assumes "endpoints_live be docs entry s"
  shows "snd (addRoute be s (route_of p e)) = (if endpoints docs s p = None then None else Some ErrDuplicateKey)"
  using cached_add_live [OF endpoints_liveD(2) [OF assms], of "route_of p e"]
  by (simp add: addRoute_cached endpoints_table [OF endpoints_liveD(1) [OF assms]] del: route_of.simps)

lemma removeRoute_live: "endpoints_live be docs entry s \<Longrightarrow> snd (removeRoute be s p) = None"
  using cached_remove_live [OF endpoints_liveD(2)] by (simp add: removeRoute_cached)

lemma updateRoute_live:
  assumes "endpoints_live be docs entry s" and "updateRoute be s (route_of p e) = (s', res)"
  shows "res = Return None \<or> res = Return (Some ErrNoSuchPath)"
proof -
  let ?P = "\<lambda>d. Path d = Path (route_of p e) \<and> Type d = Type (route_of p e)"
  let ?f = "\<lambda>d. d\<lparr>Response := Response (route_of p e), ScriptName := ScriptName (route_of p e)\<rparr>"
  obtain k n x where upd: "UpdateOne (mdb be) (coll s) ?P ?f = (k, n, x)"
    by (rule prod_cases3)
  note laws = backend_okD [OF cached_invD(1) [OF endpoints_invD(1) [OF endpoints_liveD(1) [OF assms(1)]]]]
  have "backend_live be (same_key Path) docs" using assms(1) by (simp add: endpoints_live_def)
  from UpdateOne_live [OF this, of "coll s" ?P ?f] have "x = None" unfolding upd by simp
  have "\<exists>m. n = Some m"
    using update_table(3) [OF endpoints_liveD(1) [OF assms(1)], of p e k n] upd \<open>x = None\<close>
    by (simp add: set_route_def [abs_def])
  obtain h y where set: "CacheSet (gca be) (cache s) p (route_of p e) = (h, y)" by force
  with CacheSet_ok(1) [OF laws(6) set] assms(2) upd \<open>x = None\<close> \<open>\<exists>m. n = Some m\<close> set show ?thesis
    by (auto simp: updateRoute_def Let_def split: if_splits)
qed

text \<open>The three typed reads, in one lemma: \<open>sel\<close> is the field the type \<open>t\<close> keeps its text in.\<close>

fun text_of :: "endpoint \<Rightarrow> string" where
  "text_of (Static r) = r"
| "text_of (Proxy u) = u"
| "text_of (Dynamic n) = n"

abbreviation has_type :: "string \<Rightarrow> endpoint option \<Rightarrow> bool" where
  "has_type t x \<equiv> \<exists>e. x = Some e \<and> Type (route_of '''' e) = t"

lemma Type_route_any: "NO_MATCH '''' p \<Longrightarrow> Type (route_of p e) = Type (route_of '''' e)"
  by (cases e) simp_all

lemma field_text:
  "\<forall>q e. Type (route_of q e) = STATIC_ENDPOINT_TYPE \<longrightarrow> Response (route_of q e) = text_of e"
  "\<forall>q e. Type (route_of q e) = PROXY_ENDPOINT_TYPE \<longrightarrow> ProxyURL (route_of q e) = text_of e"
  "\<forall>q e. Type (route_of q e) = DYNAMIC_ENDPOINT_TYPE \<longrightarrow> ScriptName (route_of q e) = text_of e"
proof -
  have "(Type (route_of q e) = STATIC_ENDPOINT_TYPE \<longrightarrow> Response (route_of q e) = text_of e) \<and>
    (Type (route_of q e) = PROXY_ENDPOINT_TYPE \<longrightarrow> ProxyURL (route_of q e) = text_of e) \<and>
    (Type (route_of q e) = DYNAMIC_ENDPOINT_TYPE \<longrightarrow> ScriptName (route_of q e) = text_of e)" for q e
    by (cases e) (simp_all add: endpoint_types)
  then show "\<forall>q e. Type (route_of q e) = STATIC_ENDPOINT_TYPE \<longrightarrow> Response (route_of q e) = text_of e"
    "\<forall>q e. Type (route_of q e) = PROXY_ENDPOINT_TYPE \<longrightarrow> ProxyURL (route_of q e) = text_of e"
    "\<forall>q e. Type (route_of q e) = DYNAMIC_ENDPOINT_TYPE \<longrightarrow> ScriptName (route_of q e) = text_of e" by blast+
qed

lemma typed_read:
  assumes inv: "endpoints_inv be docs entry s" and run: "getRoute be s p = (s', res)"
    and x: "x = (case res of Inl err \<Rightarrow> Inl err | Inr route \<Rightarrow>
      if Type route \<noteq> t then Inl ErrBadRouteType else Inr (sel route))"
    and sel: "\<forall>q e. Type (route_of q e) = t \<longrightarrow> sel (route_of q e) = text_of e"
  shows "endpoints_inv be docs entry s'" and "endpoints docs s' = endpoints docs s"
    and "evicts (endpoints docs s) (shown docs entry s) (shown docs entry s')"
    and "x = Inr y \<Longrightarrow> \<exists>e. shown docs entry s p = Some e \<and> Type (route_of '''' e) = t \<and> y = text_of e"
    and "x = Inl ErrNoSuchPath \<or> x = Inl ErrBadRouteType \<Longrightarrow> \<not> has_type t (shown docs entry s p)"
    and "backend_live be (same_key Path) docs \<Longrightarrow> x = Inl err \<Longrightarrow> err = ErrNoSuchPath \<or> err = ErrBadRouteType"
proof -
  note get = getRoute_endpoints [OF inv run] and seen = getRoute_shown [OF inv run]
  show "endpoints_inv be docs entry s'" "endpoints docs s' = endpoints docs s"
    "evicts (endpoints docs s) (shown docs entry s) (shown docs entry s')" using get(1,2) seen(2) by blast+
  show "\<exists>e. shown docs entry s p = Some e \<and> Type (route_of '''' e) = t \<and> y = text_of e" if "x = Inr y"
  proof -
    from that x obtain r where r: "res = Inr r" "Type r = t" "y = sel r" by (auto split: sum.splits if_splits)
    with seen(1) obtain e where "shown docs entry s p = Some e" "r = route_of p e" by blast
    with r sel show ?thesis by (metis Type_route_of_eq same_kind.simps(1-3) text_of.cases)
  qed
  show "\<not> has_type t (shown docs entry s p)" if "x = Inl ErrNoSuchPath \<or> x = Inl ErrBadRouteType"
  proof (cases res)
    case (Inl err)
    with that x get(5) have "res = Inl ErrNoSuchPath" by auto
    with get(4) have "shown docs entry s p = None" using shows_storedD(1) [OF shown_stored [OF inv], of p] by blast
    then show ?thesis by simp
  next
    case (Inr r)
    with seen(1) obtain e where e: "shown docs entry s p = Some e" "r = route_of p e" by blast
    with that x Inr have "Type (route_of p e) \<noteq> t" by (auto split: if_splits)
    with e(1) show ?thesis by (metis Type_route_of_eq option.inject same_kind.simps(1-3) text_of.cases)
  qed
  show "err = ErrNoSuchPath \<or> err = ErrBadRouteType" if "backend_live be (same_key Path) docs" "x = Inl err"
  proof -
    have "endpoints_live be docs entry s" using that(1) inv by (simp add: endpoints_live_def)
    from getRoute_live [OF this, of p] run have "res = Inl ErrNoSuchPath \<or> (\<exists>r. res = Inr r)" by (metis snd_conv)
    with that(2) x show ?thesis by (auto split: if_splits)
  qed
qed


section \<open>Listings\<close>

lemma list_paths:
  assumes inv: "endpoints_inv be docs entry s" and run: "listAllRoutesPathsWithType be s t = Inr ps"
  shows "distinct ps"
    and "set ps = {p. \<exists>e. endpoints docs s p = Some e \<and> Type (route_of p e) = t}"
proof -
  note c = endpoints_invD(1) [OF inv]
  note laws = backend_okD [OF cached_invD(1) [OF c]]
  obtain ds where ds: "FindAll (mdb be) (coll s) (\<lambda>d. Type d = t) = Inr ds" and ps: "ps = map Path ds"
    using run by (auto simp: listAllRoutesPathsWithType_def split: sum.splits)
  have "mset ps = mset (map Path (filter (\<lambda>d. Type d = t) (docs (coll s))))"
    using FindAll_ok [OF laws(5) ds] by (simp add: ps)
  then show "distinct ps"
    using distinct_map_key_filter [OF cached_invD(2) [OF c]] by (metis mset_eq_imp_distinct_iff)
  have "p \<in> set ps \<longleftrightarrow> (\<exists>e. endpoints docs s p = Some e \<and> Type (route_of p e) = t)" for p
  proof -
    have "p \<in> set ps \<longleftrightarrow> (\<exists>d. table Path docs s p = Some d \<and> Type d = t)"
      using FindAll_set [OF laws(5) ds] cached_invD(2) [OF c]
      by (auto simp: ps table_def lookup_by_Some)
    then show ?thesis by (auto simp: endpoints_table [OF inv])
  qed
  then show "set ps = {p. \<exists>e. endpoints docs s p = Some e \<and> Type (route_of p e) = t}" by blast
qed

section \<open>Properties\<close>

text \<open>C2: Whatever calls a client makes and whatever calls of the database fail (a write that
  answers an error has changed nothing), the endpoint store behaves as a map from paths to endpoints:
  every answer is one the abstract specification allows, and the invariant (unique paths, every cached
  route backed by the stored one) holds afterwards.  A read shows the endpoint last given for its path;
  the one exception is the URL of an updated proxy, which the collection does not take over: it is shown
  until the cache loses the entry, and from then on the URL the endpoint was added with.\<close>
theorem endpoint_history:
  assumes "endpoints_inv be docs entry s" and "ep_run be s xs = (t, h)"
  shows "endpoints_inv be docs entry t \<and> ep_spec_run (ep_view docs entry s) h (ep_view docs entry t) \<and>
    shows_stored (endpoints docs t) (shown docs entry t)"
  using ep_run_spec [OF assms] shown_stored by blast

lemma endpoint_history_witness:
  "\<exists>t h. ep_run (mem_backend (same_key Path) 1) \<lparr>coll = [], cache = []\<rparr>
       [AddEp ''/a'' (Static ''x''), AddEp ''/a'' (Dynamic ''f''), UpdateEp ''/a'' (Static ''y''),
        UpdateEp ''/b'' (Static ''y''), GetEp ''/a'', RemoveEp ''/a'' (Static []), GetEp ''/a'',
        AddEp ''/p'' (Proxy ''old''), UpdateEp ''/p'' (Proxy ''new''), GetEp ''/p'',
        AddEp ''/q'' (Static ''x''), GetEp ''/p''] = (t, h)
     \<and> map snd h = [Told (Return None), Told (Return (Some ErrDuplicateKey)), Told (Return None),
        Told (Return (Some ErrNoSuchPath)), Read (Inr (route_of ''/a'' (Static ''y''))),
        Told (Return None), Read (Inl ErrNoSuchPath),
        Told (Return None), Told (Return None), Read (Inr (route_of ''/p'' (Proxy ''new''))),
        Told (Return None), Read (Inr (route_of ''/p'' (Proxy ''old'')))]
     \<and> ep_spec_run (Map.empty, Map.empty) h (ep_view mem_docs map_of t)"
proof -
  let ?s = "\<lparr>coll = [], cache = []\<rparr> :: (Route list, (string \<times> Route) list) cached"
  let ?xs = "[AddEp ''/a'' (Static ''x''), AddEp ''/a'' (Dynamic ''f''), UpdateEp ''/a'' (Static ''y''),
        UpdateEp ''/b'' (Static ''y''), GetEp ''/a'', RemoveEp ''/a'' (Static []), GetEp ''/a'',
        AddEp ''/p'' (Proxy ''old''), UpdateEp ''/p'' (Proxy ''new''), GetEp ''/p'',
        AddEp ''/q'' (Static ''x''), GetEp ''/p'']"
  obtain t h where run: "ep_run (mem_backend (same_key Path) 1) ?s ?xs = (t, h)" by force
  have "map snd (snd (ep_run (mem_backend (same_key Path) 1) ?s ?xs))
      = [Told (Return None), Told (Return (Some ErrDuplicateKey)), Told (Return None),
        Told (Return (Some ErrNoSuchPath)), Read (Inr (route_of ''/a'' (Static ''y''))),
        Told (Return None), Read (Inl ErrNoSuchPath),
        Told (Return None), Told (Return None), Read (Inr (route_of ''/p'' (Proxy ''new''))),
        Told (Return None), Read (Inr (route_of ''/p'' (Proxy ''old'')))]" by code_simp
  moreover have "ep_view mem_docs map_of ?s = (Map.empty, Map.empty)"
    by (simp add: ep_view_def shown_def endpoints_def table_def fun_eq_iff)
  ultimately show ?thesis using run endpoint_history [OF mem_endpoints_inv run] by auto
qed

text \<open>C30: While the database answers, each typed read tells what is there: \<open>ErrNoSuchPath\<close> at a free
  path, \<open>ErrBadRouteType\<close> at an endpoint of another type, and otherwise the response, the script or the
  URL of the endpoint shown, which for a response and a script is the one stored.\<close>
theorem typed_reads:
  assumes "endpoints_live be docs entry s"
  shows "snd (GetStaticEndpointResponse be s p) = (case endpoints docs s p of
      None \<Rightarrow> Inl ErrNoSuchPath | Some (Static r) \<Rightarrow> Inr r | Some _ \<Rightarrow> Inl ErrBadRouteType) \<and>
    snd (GetDynamicEndpointScriptName be s p) = (case endpoints docs s p of
      None \<Rightarrow> Inl ErrNoSuchPath | Some (Dynamic n) \<Rightarrow> Inr n | Some _ \<Rightarrow> Inl ErrBadRouteType) \<and>
    snd (GetProxyEndpointProxyUrl be s p) = (case shown docs entry s p of
      None \<Rightarrow> Inl ErrNoSuchPath | Some (Proxy u) \<Rightarrow> Inr u | Some _ \<Rightarrow> Inl ErrBadRouteType) \<and>
    shows_stored (endpoints docs s) (shown docs entry s)"
proof -
  obtain s' r where run: "getRoute be s p = (s', r)" by force
  have inv: "endpoints_inv be docs entry s" using assms by (simp add: endpoints_live_def)
  note calls = GetStaticEndpointResponse_def GetDynamicEndpointScriptName_def GetProxyEndpointProxyUrl_def
  note seen = shown_stored [OF inv]
  show ?thesis
  proof (rule getRoute_live [OF assms, of p])
    assume "endpoints docs s p = None" and "snd (getRoute be s p) = Inl ErrNoSuchPath"
    moreover from this(1) have "shown docs entry s p = None" using shows_storedD(1) [OF seen, of p] by blast
    ultimately show ?thesis using run seen by (simp add: calls)
  next
    fix e e'
    assume e: "endpoints docs s p = Some e" "snd (getRoute be s p) = Inr (route_of p e')"
      "same_kind e' e" "(\<forall>u. e \<noteq> Proxy u) \<Longrightarrow> e' = e"
    with run have "r = Inr (route_of p e')" by simp
    with getRoute_shown(1) [OF inv run] obtain e2 where "shown docs entry s p = Some e2" "route_of p e' = route_of p e2"
      by metis
    then have "shown docs entry s p = Some e'" by (metis endpoint_of_route_of option.inject)
    with e run seen show ?thesis by (cases e; cases e') (simp_all add: calls endpoint_types)
  qed
qed

lemma mem_endpoints_live: "endpoints_live (mem_backend (same_key Path) n) mem_docs map_of \<lparr>coll = [], cache = []\<rparr>"
  by (simp add: endpoints_live_def mem_endpoints_inv mem_backend_live)

lemma mem_one_live: "endpoints_live (mem_backend (same_key Path) n) mem_docs map_of
    \<lparr>coll = [route_of p e], cache = [(p, route_of p e)]\<rparr>"
  by (simp add: endpoints_live_def endpoints_inv_def cached_inv_def mem_backend_ok mem_backend_live
      reflp_agree coherent_def backed_def table_def agree_def)

lemma typed_reads_witness:
  "let be = mem_backend (same_key Path) 0; s = \<lparr>coll = [route_of ''/p'' (Proxy ''u'')], cache = []\<rparr>
   in snd (GetStaticEndpointResponse be s ''/p'') = Inl ErrBadRouteType \<and> snd (GetProxyEndpointProxyUrl be s ''/p'') = Inr ''u'' \<and>
     snd (GetDynamicEndpointScriptName be s ''/q'') = Inl ErrNoSuchPath"
proof -
  have live: "endpoints_live (mem_backend (same_key Path) 0) mem_docs map_of \<lparr>coll = [route_of ''/p'' (Proxy ''u'')], cache = []\<rparr>"
    by (simp add: endpoints_live_def endpoints_inv_def cached_inv_def mem_backend_ok mem_backend_live
      reflp_agree coherent_def backed_def table_def del: route_of.simps)
  show ?thesis
    using typed_reads [OF live, of "''/p''"] typed_reads [OF live, of "''/q''"]
    by (simp add: endpoints_def shown_def table_def del: route_of.simps)
qed

text \<open>C32: The proxy URL of an update never reaches the database: whatever
  \<open>UpdateProxyEndpoint\<close> answers, success included, the map of endpoints is what it was.  (The
  \<open>$set\<close> document of \<open>updateRoute\<close> has no \<open>proxy_url\<close>; only the cache learns the new one.)\<close>
theorem proxy_update_not_stored:
  assumes "endpoints_inv be docs entry s" and "UpdateProxyEndpoint be s p u = (s', res)"
  shows "endpoints docs s' = endpoints docs s"
proof -
  have "updateRoute be s (route_of p (Proxy u)) = (s', res)"
    using assms(2) by (simp add: endpoint_calls)
  from updateRoute_endpoints(2) [OF assms(1) this] show ?thesis
    by (cases "(endpoints docs s, p, Proxy u, res, endpoints docs s')" rule: updated.cases) auto
qed

text \<open>The witness: the update answers success, and after the one-entry cache has turned to another
  path the old URL is back.\<close>

lemma proxy_update_not_stored_witness:
  "let be = mem_backend (same_key Path) 1; s0 = \<lparr>coll = [], cache = []\<rparr>;
       s1 = fst (AddProxyEndpoint be s0 ''/p'' ''old''); (s2, res) = UpdateProxyEndpoint be s1 ''/p'' ''new'';
       (s3, seen) = GetProxyEndpointProxyUrl be s2 ''/p'';
       s4 = fst (AddStaticEndpoint be s3 ''/q'' ''x'')
   in res = Return None \<and> seen = Inr ''new'' \<and> endpoints mem_docs s2 = endpoints mem_docs s1 \<and>
      snd (GetProxyEndpointProxyUrl be s4 ''/p'') = Inr ''old''"
proof -
  let ?be = "mem_backend (same_key Path) 1"
  let ?s1 = "fst (AddProxyEndpoint ?be \<lparr>coll = [], cache = []\<rparr> ''/p'' ''old'')"
  have s1: "?s1 = \<lparr>coll = [route_of ''/p'' (Proxy ''old'')], cache = [(''/p'', route_of ''/p'' (Proxy ''old''))]\<rparr>"
    by code_simp
  have inv: "endpoints_inv ?be mem_docs map_of ?s1"
    unfolding s1 using mem_one_live endpoints_live_def by metis
  have "endpoints mem_docs (fst (UpdateProxyEndpoint ?be ?s1 ''/p'' ''new'')) = endpoints mem_docs ?s1"
    by (rule proxy_update_not_stored [OF inv surjective_pairing])
  moreover have "snd (UpdateProxyEndpoint ?be ?s1 ''/p'' ''new'') = Return None"
    and "snd (GetProxyEndpointProxyUrl ?be (fst (UpdateProxyEndpoint ?be ?s1 ''/p'' ''new'')) ''/p'') = Inr ''new''"
    and "snd (GetProxyEndpointProxyUrl ?be (fst (AddStaticEndpoint ?be (fst (GetProxyEndpointProxyUrl ?be
      (fst (UpdateProxyEndpoint ?be ?s1 ''/p'' ''new'')) ''/p'')) ''/q'' ''x'')) ''/p'') = Inr ''old''"
    by code_simp+
  ultimately show ?thesis by (simp add: Let_def split_beta)
qed

text \<open>C31: The listing of a type has the path of every endpoint of that type, once, and no other.\<close>
theorem listings_exact:
  assumes "endpoints_inv be docs entry s"
  shows "(ListAllStaticEndpointPaths be s = Inr ps \<longrightarrow>
        distinct ps \<and> set ps = {p. \<exists>r. endpoints docs s p = Some (Static r)}) \<and>
    (ListAllProxyEndpointPaths be s = Inr ps \<longrightarrow>
        distinct ps \<and> set ps = {p. \<exists>u. endpoints docs s p = Some (Proxy u)}) \<and>
    (ListAllDynamicEndpointPaths be s = Inr ps \<longrightarrow>
        distinct ps \<and> set ps = {p. \<exists>n. endpoints docs s p = Some (Dynamic n)})"
proof -
  have "Type (route_of p e) = STATIC_ENDPOINT_TYPE \<longleftrightarrow> (\<exists>r. e = Static r)"
    and "Type (route_of p e) = DYNAMIC_ENDPOINT_TYPE \<longleftrightarrow> (\<exists>n. e = Dynamic n)" for p e
    by (cases e; simp add: endpoint_types)+
  then show ?thesis
    using list_paths [OF assms] by (auto simp: endpoint_calls)
qed

lemma listings_exact_witness:
  "ListAllProxyEndpointPaths (mem_backend (same_key Path) 0)
      \<lparr>coll = [route_of ''/p'' (Proxy ''u'')], cache = [(''/p'', route_of ''/p'' (Proxy ''u''))]\<rparr> = Inr [''/p''] \<and>
   set [''/p''] = {p. \<exists>u. endpoints mem_docs \<lparr>coll = [route_of ''/p'' (Proxy ''u'')],
      cache = [(''/p'', route_of ''/p'' (Proxy ''u''))]\<rparr> p = Some (Proxy u)}"
proof -
  let ?s = "\<lparr>coll = [route_of ''/p'' (Proxy ''u'')], cache = [(''/p'', route_of ''/p'' (Proxy ''u''))]\<rparr>"
  have "ListAllProxyEndpointPaths (mem_backend (same_key Path) 0) ?s = Inr [''/p'']" by code_simp
  moreover have "endpoints_inv (mem_backend (same_key Path) 0) mem_docs map_of ?s"
    using mem_one_live endpoints_live_def by metis
  ultimately show ?thesis using listings_exact by blast
qed

end
