(* ===== verification/EsbRecords.thy ===== *)
theory EsbRecords
  imports Store
begin

text \<open>
  \<open>internal/database/esb_records.go\<close> and the \<open>ESBRecord\<close> of \<open>models.go\<close>: the records that
  link an in-pool to an out-pool, unique by the in-pool's name.
\<close>

record ESBRecord =
  PoolNameIn :: string
  PoolNameOut :: string
  MapperScriptName :: string

type_synonym ('c, 'h) esbRecords = "('c, 'h) cached"

definition esb_loader :: "('c, 'h, ESBRecord) backend \<Rightarrow> ('c, 'h) esbRecords \<Rightarrow> string
    \<Rightarrow> go_error + ESBRecord" where
  "esb_loader be esb poolNameIn = FindOne (mdb be) (coll esb) (\<lambda>d. PoolNameIn d = poolNameIn)"

definition addESBRecord :: "('c, 'h, ESBRecord) backend \<Rightarrow> ('c, 'h) esbRecords \<Rightarrow> ESBRecord
    \<Rightarrow> ('c, 'h) esbRecords \<times> go_error option" where
  "addESBRecord be esb esbRecord =
     (let (c, err) = InsertOne (mdb be) (coll esb) esbRecord; esb = esb\<lparr>coll := c\<rparr> in
      if IsDuplicateKeyError err then (esb, Some ErrDuplicateKey)
      else if err \<noteq> None then (esb, err)
      else
        let (h, err) = CacheSet (gca be) (cache esb) (PoolNameIn esbRecord) esbRecord
        in (esb\<lparr>cache := h\<rparr>, err))"

definition removeESBRecord :: "('c, 'h, ESBRecord) backend \<Rightarrow> ('c, 'h) esbRecords \<Rightarrow> string
    \<Rightarrow> ('c, 'h) esbRecords \<times> go_error option" where
  "removeESBRecord be esb poolNameIn =
     (let (c, err) = DeleteOne (mdb be) (coll esb) (\<lambda>d. PoolNameIn d = poolNameIn);
          esb = esb\<lparr>coll := c\<rparr> in
      if err = Some MongoNoDocuments then (esb, Some ErrNoSuchRecord)
      else if err \<noteq> None then (esb, err)
      else (esb\<lparr>cache := CacheRemove (gca be) (cache esb) poolNameIn\<rparr>, None))"

definition getESBRecord :: "('c, 'h, ESBRecord) backend \<Rightarrow> ('c, 'h) esbRecords \<Rightarrow> string
    \<Rightarrow> ('c, 'h) esbRecords \<times> (go_error + ESBRecord)" where
  "getESBRecord be esb poolNameIn =
     (let (h, res) = CacheGet (gca be) (cache esb) poolNameIn (esb_loader be esb);
          esb = esb\<lparr>cache := h\<rparr> in
      case res of
        Inl err \<Rightarrow> if err = MongoNoDocuments then (esb, Inl ErrNoSuchRecord) else (esb, Inl err)
      | Inr r \<Rightarrow> (esb, Inr r))"

definition listESBRecords :: "('c, 'h, ESBRecord) backend \<Rightarrow> ('c, 'h) esbRecords
    \<Rightarrow> go_error + ESBRecord list" where
  "listESBRecords be esb = FindAll (mdb be) (coll esb) (\<lambda>_. True)"

section \<open>The store meets the contract\<close>

definition no_such_record :: "go_error \<Rightarrow> go_error" where
  "no_such_record e = (if e = MongoNoDocuments then ErrNoSuchRecord else e)"

lemma wraps_no_such_record: "wraps no_such_record ErrNoSuchRecord"
  by (simp add: wraps_def no_such_record_def foreign_def fun_eq_iff)

lemma addESBRecord_cached: "addESBRecord be = cached_add be PoolNameIn"
  by (intro ext) (simp add: addESBRecord_def cached_add_def split_beta Let_def)

lemma removeESBRecord_cached: "removeESBRecord be = cached_remove be PoolNameIn no_such_record"
  by (intro ext) (auto simp: removeESBRecord_def cached_remove_def no_such_record_def split_beta
      Let_def split: option.splits)

lemma getESBRecord_cached: "getESBRecord be = cached_get be PoolNameIn no_such_record"
proof (intro ext)
  fix s pool
  have "esb_loader be s = (\<lambda>k. FindOne (mdb be) (coll s) (\<lambda>d. PoolNameIn d = k))"
    by (rule ext) (simp add: esb_loader_def)
  then show "getESBRecord be s pool = cached_get be PoolNameIn no_such_record s pool"
    by (simp add: getESBRecord_def cached_get_def no_such_record_def split_beta Let_def
        split: sum.split)
qed

lemmas esb_cached = addESBRecord_cached removeESBRecord_cached getESBRecord_cached

interpretation esb_store: keyed_store "addESBRecord be" "removeESBRecord be" "getESBRecord be"
    PoolNameIn "table PoolNameIn docs" "cached_inv be (=) PoolNameIn docs entry" ErrNoSuchRecord
  for be :: "('c, 'h, ESBRecord) backend" and docs entry
  unfolding esb_cached by (rule cached_keyed_store [OF wraps_no_such_record])

interpretation live_esb: live_store "addESBRecord be" "removeESBRecord be" "getESBRecord be"
    PoolNameIn "table PoolNameIn docs" "live_inv be (=) PoolNameIn docs entry" ErrNoSuchRecord
  for be :: "('c, 'h, ESBRecord) backend" and docs entry
  unfolding esb_cached by (rule cached_live_store [OF wraps_no_such_record])

end
