(* ===== verification/MessagePools.thy ===== *)
theory MessagePools
  imports Store
begin

text \<open>
  \<open>internal/database/message_pools.go\<close> and the \<open>MessagePool\<close> document of \<open>models.go\<close>: the
  pools of the brokers, unique by name.  The document's fields carry the prefix \<open>db\<close>, because
  \<open>brokers.MessagePool\<close> has the same names.
\<close>

record MessagePool =
  dbName :: string
  dbQueue :: string
  dbBroker :: string
  dbConfig :: string

type_synonym ('c, 'h) messagePools = "('c, 'h) cached"

definition pool_loader :: "('c, 'h, MessagePool) backend \<Rightarrow> ('c, 'h) messagePools \<Rightarrow> string
    \<Rightarrow> go_error + MessagePool" where
  "pool_loader be mp poolName = FindOne (mdb be) (coll mp) (\<lambda>d. dbName d = poolName)"

definition addMessagePool :: "('c, 'h, MessagePool) backend \<Rightarrow> ('c, 'h) messagePools \<Rightarrow> MessagePool
    \<Rightarrow> ('c, 'h) messagePools \<times> go_error option" where
  "addMessagePool be mp messagePool =
     (let (c, err) = InsertOne (mdb be) (coll mp) messagePool; mp = mp\<lparr>coll := c\<rparr> in
      if IsDuplicateKeyError err then (mp, Some ErrDuplicateKey)
      else if err \<noteq> None then (mp, err)
      else
        let (h, err) = CacheSet (gca be) (cache mp) (dbName messagePool) messagePool
        in (mp\<lparr>cache := h\<rparr>, err))"

definition removeMessagePool :: "('c, 'h, MessagePool) backend \<Rightarrow> ('c, 'h) messagePools \<Rightarrow> string
    \<Rightarrow> ('c, 'h) messagePools \<times> go_error option" where
  "removeMessagePool be mp name =
     (let (c, err) = DeleteOne (mdb be) (coll mp) (\<lambda>d. dbName d = name); mp = mp\<lparr>coll := c\<rparr> in
      if err = Some MongoNoDocuments then (mp, Some ErrNoSuchPool)
      else if err \<noteq> None then (mp, err)
      else (mp\<lparr>cache := CacheRemove (gca be) (cache mp) name\<rparr>, None))"

definition getMessagePool :: "('c, 'h, MessagePool) backend \<Rightarrow> ('c, 'h) messagePools \<Rightarrow> string
    \<Rightarrow> ('c, 'h) messagePools \<times> (go_error + MessagePool)" where
  "getMessagePool be mp name =
     (let (h, res) = CacheGet (gca be) (cache mp) name (pool_loader be mp); mp = mp\<lparr>cache := h\<rparr> in
      case res of
        Inl err \<Rightarrow> if err = MongoNoDocuments then (mp, Inl ErrNoSuchPool) else (mp, Inl err)
      | Inr pool \<Rightarrow> (mp, Inr pool))"

definition listMessagePools :: "('c, 'h, MessagePool) backend \<Rightarrow> ('c, 'h) messagePools
    \<Rightarrow> go_error + MessagePool list" where
  "listMessagePools be mp = FindAll (mdb be) (coll mp) (\<lambda>_. True)"

section \<open>The store meets the contract\<close>

definition no_such_pool :: "go_error \<Rightarrow> go_error" where
  "no_such_pool e = (if e = MongoNoDocuments then ErrNoSuchPool else e)"

lemma wraps_no_such_pool: "wraps no_such_pool ErrNoSuchPool"
  by (simp add: wraps_def no_such_pool_def foreign_def fun_eq_iff)

lemma addMessagePool_cached: "addMessagePool be = cached_add be dbName"
  by (intro ext) (simp add: addMessagePool_def cached_add_def split_beta Let_def)

lemma removeMessagePool_cached: "removeMessagePool be = cached_remove be dbName no_such_pool"
  by (intro ext) (auto simp: removeMessagePool_def cached_remove_def no_such_pool_def split_beta
      Let_def split: option.splits)

lemma getMessagePool_cached: "getMessagePool be = cached_get be dbName no_such_pool"
proof (intro ext)
  fix s name
  have "pool_loader be s = (\<lambda>k. FindOne (mdb be) (coll s) (\<lambda>d. dbName d = k))"
    by (rule ext) (simp add: pool_loader_def)
  then show "getMessagePool be s name = cached_get be dbName no_such_pool s name"
    by (simp add: getMessagePool_def cached_get_def no_such_pool_def split_beta Let_def
        split: sum.split)
qed

lemmas pools_cached = addMessagePool_cached removeMessagePool_cached getMessagePool_cached

interpretation pool_store: keyed_store "addMessagePool be" "removeMessagePool be"
    "getMessagePool be" dbName "table dbName docs" "cached_inv be (=) dbName docs entry" ErrNoSuchPool
  for be :: "('c, 'h, MessagePool) backend" and docs entry
  unfolding pools_cached by (rule cached_keyed_store [OF wraps_no_such_pool])

interpretation live_pools: live_store "addMessagePool be" "removeMessagePool be"
    "getMessagePool be" dbName "table dbName docs" "live_inv be (=) dbName docs entry" ErrNoSuchPool
  for be :: "('c, 'h, MessagePool) backend" and docs entry
  unfolding pools_cached by (rule cached_live_store [OF wraps_no_such_pool])

end
