(* ===== verification/TaskMessages.thy ===== *)
theory TaskMessages
  imports Driver
begin

text \<open>
  \<open>internal/database/task_messages.go\<close> and the \<open>TaskMessage\<close> document of \<open>models.go\<close>: the log
  of the messages a broker task read or wrote.  No unique index, no cache: the state is the
  collection alone.
\<close>

record TaskMessage =
  TaskId :: string
  Message :: string

definition addTaskMessage :: "('c, TaskMessage) coll_driver \<Rightarrow> 'c \<Rightarrow> TaskMessage
    \<Rightarrow> 'c \<times> go_error option" where
  "addTaskMessage m s taskMessage =
     (let (c, err) = InsertOne m s taskMessage in
      if IsDuplicateKeyError err then (c, Some ErrDuplicateKey) else (c, err))"

definition getTaskMessages :: "('c, TaskMessage) coll_driver \<Rightarrow> 'c \<Rightarrow> string
    \<Rightarrow> go_error + string list" where
  "getTaskMessages m s taskId =
     (case FindAll m s (\<lambda>d. TaskId d = taskId) of
        Inl err \<Rightarrow> Inl err
      | Inr result \<Rightarrow> Inr (map Message result))"

section \<open>The log\<close>

text \<open>What a task has logged, in order.\<close>

definition task_log :: "('c \<Rightarrow> TaskMessage list) \<Rightarrow> 'c \<Rightarrow> string \<Rightarrow> string list" where
  "task_log docs c tid = map Message (filter (\<lambda>d. TaskId d = tid) (docs c))"

definition log_ok :: "('c, TaskMessage) coll_driver \<Rightarrow> ('c \<Rightarrow> TaskMessage list) \<Rightarrow> bool" where
  "log_ok m docs \<longleftrightarrow> insert_law m (\<lambda>_ _. False) docs \<and> list_law m docs"

lemma log_okD:
  assumes "log_ok m docs"
  shows "insert_law m (\<lambda>_ _. False) docs" and "list_law m docs"
  using assms by (simp_all add: log_ok_def)

lemma addTaskMessage_insert:
  assumes "addTaskMessage m c t = (c', err)"
  shows "\<exists>e. InsertOne m c t = (c', e) \<and> (e = None \<longleftrightarrow> err = None)"
  using assms by (auto simp: addTaskMessage_def Let_def split_beta prod_eq_iff split: if_splits)

lemma addTaskMessage_ok:
  assumes "log_ok m docs" and "addTaskMessage m c t = (c', None)"
  shows "task_log docs c' tid = task_log docs c tid @ (if TaskId t = tid then [Message t] else [])"
proof -
  have "InsertOne m c t = (c', None)"
    using addTaskMessage_insert [OF assms(2)] by simp
  then have "docs c' = docs c @ [t]"
    by (rule InsertOne_ok(1) [OF log_okD(1) [OF assms(1)]])
  then show ?thesis by (simp add: task_log_def)
qed

lemma addTaskMessage_err:
  assumes "log_ok m docs" and "addTaskMessage m c t = (c', Some e)"
  shows "docs c' = docs c"
proof -
  obtain e' where "InsertOne m c t = (c', Some e')"
    using addTaskMessage_insert [OF assms(2)] by auto
  then show ?thesis by (rule InsertOne_err(1) [OF log_okD(1) [OF assms(1)]])
qed

lemma getTaskMessages_bag:
  assumes "log_ok m docs" and "getTaskMessages m c tid = Inr ms"
  shows "mset ms = mset (task_log docs c tid)"
proof -
  obtain ds where ds: "FindAll m c (\<lambda>d. TaskId d = tid) = Inr ds" and ms: "ms = map Message ds"
    using assms(2) by (auto simp: getTaskMessages_def split: sum.splits)
  show ?thesis
    using FindAll_ok [OF log_okD(2) [OF assms(1)] ds] by (simp add: ms task_log_def)
qed

lemma getTaskMessages_order:
  assumes "natural_order m docs" and "getTaskMessages m c tid = Inr ms"
  shows "ms = task_log docs c tid"
  using assms by (fastforce simp: getTaskMessages_def natural_order_def task_log_def split: sum.splits)

lemma mem_log_ok: "log_ok (mem_coll (\<lambda>_ _. False)) mem_docs"
  by (simp add: log_ok_def mem_insert_law mem_list_law)

end
