(* ===== verification/BlockingQueue.thy ===== *)
theory BlockingQueue
  imports Prelude
begin

text \<open>
  \<open>internal/util/blocking_queue.go\<close>: a queue behind one mutex with two condition variables.
  The first part models each critical section as a function of the queue; a body that reaches
  \<open>Wait\<close> is \<^term>\<open>None\<close>.  The second part puts threads around it: a thread is idle, about to
  run (or, once woken, to rerun) a body, or in the wait list of \<open>full\<close> or \<open>empty\<close>;
  \<open>Signal\<close> wakes one waiter of the scheduler's choice, \<open>Broadcast\<close> all of them.  The third
  is the interface the task scheduler uses, a locale, interpreted on the unbounded queue.
\<close>

section \<open>The critical sections\<close>

record 'a bqueue =
  max_size :: int
  closed :: bool
  elems :: "'a list"

definition isFull :: "'a bqueue \<Rightarrow> bool" where
  "isFull q \<longleftrightarrow> max_size q > 0 \<and> int (length (elems q)) \<ge> max_size q"

definition qPut :: "'a bqueue \<Rightarrow> 'a \<Rightarrow> ('a bqueue \<times> bool) option" where
  "qPut q el =
     (if \<not> closed q \<and> isFull q then None
      else if closed q then Some (q, False)
      else Some (q\<lparr>elems := elems q @ [el]\<rparr>, True))"

definition qGet :: "'a bqueue \<Rightarrow> ('a bqueue \<times> 'a option) option" where
  "qGet q =
     (if \<not> closed q \<and> length (elems q) = 0 then None
      else if length (elems q) \<noteq> 0 then Some (q\<lparr>elems := tl (elems q)\<rparr>, Some (hd (elems q)))
      else Some (q, None))"

definition qClose :: "'a bqueue \<Rightarrow> bool \<Rightarrow> 'a bqueue" where
  "qClose q clear = (let q = q\<lparr>closed := True\<rparr> in if clear then q\<lparr>elems := []\<rparr> else q)"

definition qIsClosed :: "'a bqueue \<Rightarrow> bool" where
  "qIsClosed q = closed q"

definition NewBoundedBlockingQueue :: "int \<Rightarrow> 'a bqueue" where
  "NewBoundedBlockingQueue n = \<lparr>max_size = n, closed = False, elems = []\<rparr>"

definition NewUnboundedBlockingQueue :: "'a bqueue" where
  "NewUnboundedBlockingQueue = NewBoundedBlockingQueue (- 1)"

section \<open>Threads\<close>

datatype 'a pc = Idle | is_PutReady: PutReady 'a | is_PutWait: PutWait 'a
  | is_GetReady: GetReady | is_GetWait: GetWait

record 'a monitor =
  bq :: "'a bqueue"
  pcs :: "'a pc list"

text \<open>What a wake-up makes of a thread that waits on \<open>full\<close>, and on \<open>empty\<close>.\<close>

fun wake_full :: "'a pc \<Rightarrow> 'a pc option" where
  "wake_full (PutWait x) = Some (PutReady x)"
| "wake_full _ = None"

fun wake_empty :: "'a pc \<Rightarrow> 'a pc option" where
  "wake_empty GetWait = Some GetReady"
| "wake_empty _ = None"

text \<open>\<open>i\<close> is the thread \<open>Signal\<close> picks; a pick that does not wait is no step.\<close>

definition signal :: "('p \<Rightarrow> 'p option) \<Rightarrow> nat \<Rightarrow> 'p list \<Rightarrow> 'p list option" where
  "signal wake i ps =
     (if \<forall>p \<in> set ps. wake p = None then Some ps
      else if i < length ps then map_option (\<lambda>p. ps[i := p]) (wake (ps ! i))
      else None)"

definition broadcast :: "('p \<Rightarrow> 'p option) \<Rightarrow> 'p list \<Rightarrow> 'p list" where
  "broadcast wake ps = map (\<lambda>p. case wake p of Some p' \<Rightarrow> p' | None \<Rightarrow> p) ps"

datatype 'a action = CallPut nat 'a | CallGet nat | Run nat nat | CallClose bool

datatype 'a obs = Tau | Accepted 'a | Refused 'a | Delivered 'a | NoMore | Cleared "'a list"

definition run_thread :: "'a monitor \<Rightarrow> nat \<Rightarrow> nat \<Rightarrow> ('a obs \<times> 'a monitor) option" where
  "run_thread s t i =
     (case pcs s ! t of
        PutReady x \<Rightarrow>
          (case qPut (bq s) x of
             None \<Rightarrow> Some (Tau, s\<lparr>pcs := (pcs s)[t := PutWait x]\<rparr>)
           | Some (q, False) \<Rightarrow> Some (Refused x, s\<lparr>pcs := (pcs s)[t := Idle]\<rparr>)
           | Some (q, True) \<Rightarrow>
               map_option (\<lambda>ps. (Accepted x, \<lparr>bq = q, pcs = ps\<rparr>)) (signal wake_empty i ((pcs s)[t := Idle])))
      | GetReady \<Rightarrow>
          (case qGet (bq s) of
             None \<Rightarrow> Some (Tau, s\<lparr>pcs := (pcs s)[t := GetWait]\<rparr>)
           | Some (q, None) \<Rightarrow> Some (NoMore, s\<lparr>pcs := (pcs s)[t := Idle]\<rparr>)
           | Some (q, Some x) \<Rightarrow>
               map_option (\<lambda>ps. (Delivered x, \<lparr>bq = q, pcs = ps\<rparr>)) (signal wake_full i ((pcs s)[t := Idle])))
      | _ \<Rightarrow> None)"

fun bq_exec :: "'a action \<Rightarrow> 'a monitor \<Rightarrow> ('a obs \<times> 'a monitor) option" where
  "bq_exec (CallPut t x) s = (if t < length (pcs s) \<and> pcs s ! t = Idle
     then Some (Tau, s\<lparr>pcs := (pcs s)[t := PutReady x]\<rparr>) else None)"
| "bq_exec (CallGet t) s = (if t < length (pcs s) \<and> pcs s ! t = Idle
     then Some (Tau, s\<lparr>pcs := (pcs s)[t := GetReady]\<rparr>) else None)"
| "bq_exec (Run t i) s = (if t < length (pcs s) then run_thread s t i else None)"
| "bq_exec (CallClose clear) s = Some (Cleared (if clear then elems (bq s) else []),
     \<lparr>bq = qClose (bq s) clear, pcs = broadcast wake_empty (pcs s)\<rparr>)"

inductive bq_trace :: "'a monitor \<Rightarrow> 'a obs list \<Rightarrow> 'a monitor \<Rightarrow> bool" for s where
  trace_start: "bq_trace s [] s"
| trace_step: "bq_trace s os t \<Longrightarrow> bq_exec a t = Some (ob, u) \<Longrightarrow> bq_trace s (os @ [ob]) u"

definition idle_monitor :: "int \<Rightarrow> nat \<Rightarrow> 'a monitor" where
  "idle_monitor m n = \<lparr>bq = NewBoundedBlockingQueue m, pcs = replicate n Idle\<rparr>"

text \<open>The observable history: what was accepted, delivered and cleared away.\<close>

fun accepted :: "'a obs \<Rightarrow> 'a list" where
  "accepted (Accepted x) = [x]" | "accepted _ = []"

fun delivered :: "'a obs \<Rightarrow> 'a list" where
  "delivered (Delivered x) = [x]" | "delivered _ = []"

fun cleared :: "'a obs \<Rightarrow> 'a list" where
  "cleared (Cleared xs) = xs" | "cleared _ = []"


section \<open>The invariant\<close>

text \<open>
  While a getter waits the queue is open and every element has a getter on its way to it; while a
  putter waits on an open queue, every free slot has a putter on its way to it.
\<close>

definition bq_inv :: "int \<Rightarrow> 'a monitor \<Rightarrow> bool" where
  "bq_inv m s \<longleftrightarrow> max_size (bq s) = m \<and>
     (m > 0 \<longrightarrow> int (length (elems (bq s))) \<le> m) \<and>
     (n_of is_GetWait (pcs s) > 0 \<longrightarrow> \<not> closed (bq s) \<and> length (elems (bq s)) \<le> n_of is_GetReady (pcs s)) \<and>
     (n_of is_PutWait (pcs s) > 0 \<longrightarrow> m > 0 \<and>
        (closed (bq s) \<or> m - int (length (elems (bq s))) \<le> int (n_of is_PutReady (pcs s))))"

text \<open>How one thread's change of program counter moves the four counters.\<close>

lemma set_pc_counts:
  assumes "t < length ps" and "ps ! t = old"
  shows "n_of is_GetWait (ps[t := p]) + of_bool (is_GetWait old) = n_of is_GetWait ps + of_bool (is_GetWait p) \<and>
    n_of is_GetReady (ps[t := p]) + of_bool (is_GetReady old) = n_of is_GetReady ps + of_bool (is_GetReady p) \<and>
    n_of is_PutWait (ps[t := p]) + of_bool (is_PutWait old) = n_of is_PutWait ps + of_bool (is_PutWait p) \<and>
    n_of is_PutReady (ps[t := p]) + of_bool (is_PutReady old) = n_of is_PutReady ps + of_bool (is_PutReady p)"
  using n_of_update [OF assms(1), of is_GetWait p] n_of_update [OF assms(1), of is_GetReady p]
    n_of_update [OF assms(1), of is_PutWait p] n_of_update [OF assms(1), of is_PutReady p]
  by (simp add: assms(2) of_bool_def del: n_of_0)

lemma signal_cases:
  assumes "signal wake i ps = Some ps'"
  obtains "\<forall>p \<in> set ps. wake p = None" and "ps' = ps"
  | p' where "i < length ps" and "wake (ps ! i) = Some p'" and "ps' = ps[i := p']"
  using assms by (auto simp: signal_def split: if_splits)

lemma wake_fullD: "wake_full p = Some p' \<Longrightarrow> is_PutWait p \<and> is_PutReady p'"
  by (cases p) auto

lemma wake_full_None: "wake_full p = None \<longleftrightarrow> \<not> is_PutWait p"
  by (cases p) auto

lemma wake_emptyD: "wake_empty p = Some p' \<Longrightarrow> p = GetWait \<and> p' = GetReady"
  by (cases p) auto

lemma wake_empty_None: "wake_empty p = None \<longleftrightarrow> \<not> is_GetWait p"
  by (cases p) auto

lemma signal_empty:
  assumes "signal wake_empty i ps = Some ps'"
  shows "n_of is_GetWait ps' = n_of is_GetWait ps - 1 \<and>
    n_of is_GetReady ps' = n_of is_GetReady ps + (if n_of is_GetWait ps > 0 then 1 else 0) \<and>
    n_of is_PutWait ps' = n_of is_PutWait ps \<and> n_of is_PutReady ps' = n_of is_PutReady ps"
  using assms
proof (cases rule: signal_cases)
  case 1
  then have "n_of is_GetWait ps = 0" by (simp add: wake_empty_None)
  with 1(2) show ?thesis by (simp del: n_of_0 n_of_pos)
next
  case (2 p')
  note set = n_of_update [OF 2(1), of _ p']
  have p: "ps ! i = GetWait" "p' = GetReady" using wake_emptyD [OF 2(2)] by simp_all
  show ?thesis
    using set [of is_GetWait] set [of is_GetReady] set [of is_PutWait] set [of is_PutReady] 2(3)
    by (simp add: p del: n_of_0 n_of_pos)
qed

lemma signal_full:
  assumes "signal wake_full i ps = Some ps'"
  shows "n_of is_PutWait ps' = n_of is_PutWait ps - 1 \<and>
    n_of is_PutReady ps' = n_of is_PutReady ps + (if n_of is_PutWait ps > 0 then 1 else 0) \<and>
    n_of is_GetWait ps' = n_of is_GetWait ps \<and> n_of is_GetReady ps' = n_of is_GetReady ps"
  using assms
proof (cases rule: signal_cases)
  case 1
  then have "n_of is_PutWait ps = 0" by (simp add: wake_full_None)
  with 1(2) show ?thesis by (simp del: n_of_0 n_of_pos)
next
  case (2 p')
  note set = n_of_update [OF 2(1), of _ p']
  have p: "is_PutWait (ps ! i)" "is_PutReady p'" using wake_fullD [OF 2(2)] by simp_all
  then have np: "\<not> is_GetWait (ps ! i)" "\<not> is_GetReady (ps ! i)" "\<not> is_PutReady (ps ! i)"
    "\<not> is_GetWait p'" "\<not> is_GetReady p'" "\<not> is_PutWait p'"
    by (cases "ps ! i"; cases p'; simp)+
  show ?thesis
    using set [of is_GetWait] set [of is_GetReady] set [of is_PutWait] set [of is_PutReady] 2(3)
    by (simp add: p np del: n_of_0 n_of_pos)
qed

lemma n_of_broadcast:
  "n_of is_GetWait (broadcast wake_empty ps) = 0"
  "n_of is_PutWait (broadcast wake_empty ps) = n_of is_PutWait ps"
  by (induction ps) (auto simp: broadcast_def split: option.splits dest!: wake_emptyD simp: wake_empty_None simp del: n_of_0)


text \<open>The nine things that can happen.\<close>

lemma bq_exec_cases:
  assumes "bq_exec a s = Some (ob, s')"
  obtains
    (call_put) t x where "t < length (pcs s)" "pcs s ! t = Idle" "ob = Tau"
      "s' = s\<lparr>pcs := (pcs s)[t := PutReady x]\<rparr>"
  | (call_get) t where "t < length (pcs s)" "pcs s ! t = Idle" "ob = Tau"
      "s' = s\<lparr>pcs := (pcs s)[t := GetReady]\<rparr>"
  | (put_wait) t x where "t < length (pcs s)" "pcs s ! t = PutReady x" "ob = Tau"
      "\<not> closed (bq s)" "isFull (bq s)" "s' = s\<lparr>pcs := (pcs s)[t := PutWait x]\<rparr>"
  | (put_closed) t x where "t < length (pcs s)" "pcs s ! t = PutReady x" "ob = Refused x"
      "closed (bq s)" "s' = s\<lparr>pcs := (pcs s)[t := Idle]\<rparr>"
  | (put_ok) t x i ps where "t < length (pcs s)" "pcs s ! t = PutReady x" "ob = Accepted x"
      "\<not> closed (bq s)" "\<not> isFull (bq s)" "signal wake_empty i ((pcs s)[t := Idle]) = Some ps"
      "s' = \<lparr>bq = (bq s)\<lparr>elems := elems (bq s) @ [x]\<rparr>, pcs = ps\<rparr>"
  | (get_wait) t where "t < length (pcs s)" "pcs s ! t = GetReady" "ob = Tau"
      "\<not> closed (bq s)" "elems (bq s) = []" "s' = s\<lparr>pcs := (pcs s)[t := GetWait]\<rparr>"
  | (get_none) t where "t < length (pcs s)" "pcs s ! t = GetReady" "ob = NoMore"
      "closed (bq s)" "elems (bq s) = []" "s' = s\<lparr>pcs := (pcs s)[t := Idle]\<rparr>"
  | (get_ok) t i x xs ps where "t < length (pcs s)" "pcs s ! t = GetReady" "ob = Delivered x"
      "elems (bq s) = x # xs" "signal wake_full i ((pcs s)[t := Idle]) = Some ps"
      "s' = \<lparr>bq = (bq s)\<lparr>elems := xs\<rparr>, pcs = ps\<rparr>"
  | (close) clear where "ob = Cleared (if clear then elems (bq s) else [])"
      "s' = \<lparr>bq = (bq s)\<lparr>closed := True, elems := (if clear then [] else elems (bq s))\<rparr>,
         pcs = broadcast wake_empty (pcs s)\<rparr>"
proof (cases a)
  case (CallPut t x)
  with assms call_put show thesis by (auto split: if_splits)
next
  case (CallGet t)
  with assms call_get show thesis by (auto split: if_splits)
next
  case (CallClose clear)
  with assms close [of clear] show thesis by (simp add: qClose_def Let_def split: if_splits)
next
  case (Run t i)
  then have t: "t < length (pcs s)" and run: "run_thread s t i = Some (ob, s')"
    using assms by (auto split: if_splits)
  show thesis
  proof (cases "pcs s ! t")
    case (PutReady x)
    with run t put_wait put_closed put_ok show thesis
      by (fastforce simp: run_thread_def qPut_def split: if_splits)
  next
    case GetReady
    then show thesis
    proof (cases "elems (bq s)")
      case Nil
      with GetReady run t get_wait get_none show thesis
        by (fastforce simp: run_thread_def qGet_def split: if_splits)
    next
      case (Cons x xs)
      with GetReady run t get_ok show thesis by (auto simp: run_thread_def qGet_def)
    qed
  qed (use run in \<open>simp_all add: run_thread_def\<close>)
qed


lemma bq_inv_exec:
  assumes inv: "bq_inv m s" and run: "bq_exec a s = Some (ob, s')"
  shows "bq_inv m s'"
  using run
proof (cases rule: bq_exec_cases)
  case (call_put t x)
  then show ?thesis using inv set_pc_counts [OF call_put(1,2), of "PutReady x"]
    by (auto simp: bq_inv_def simp del: n_of_0 n_of_pos)
next
  case (call_get t)
  then show ?thesis using inv set_pc_counts [OF call_get(1,2), of "GetReady"]
    by (auto simp: bq_inv_def simp del: n_of_0 n_of_pos)
next
  case (put_wait t x)
  then show ?thesis using inv set_pc_counts [OF put_wait(1,2), of "PutWait x"]
    by (auto simp: bq_inv_def isFull_def simp del: n_of_0 n_of_pos)
next
  case (put_closed t x)
  then show ?thesis using inv set_pc_counts [OF put_closed(1,2), of "Idle"]
    by (auto simp: bq_inv_def simp del: n_of_0 n_of_pos)
next
  case (put_ok t x i ps)
  then show ?thesis using inv set_pc_counts [OF put_ok(1,2), of "Idle"] signal_empty [OF put_ok(6)]
    by (auto simp: bq_inv_def isFull_def simp del: n_of_0 n_of_pos split: if_splits)
next
  case (get_wait t)
  then show ?thesis using inv set_pc_counts [OF get_wait(1,2), of "GetWait"]
    by (auto simp: bq_inv_def simp del: n_of_0 n_of_pos)
next
  case (get_none t)
  then show ?thesis using inv set_pc_counts [OF get_none(1,2), of "Idle"]
    by (auto simp: bq_inv_def simp del: n_of_0 n_of_pos)
next
  case (get_ok t i x xs ps)
  then show ?thesis using inv set_pc_counts [OF get_ok(1,2), of "Idle"] signal_full [OF get_ok(5)]
    by (auto simp: bq_inv_def simp del: n_of_0 n_of_pos split: if_splits)
next
  case (close clear)
  then show ?thesis using inv
    by (auto simp: bq_inv_def n_of_broadcast simp del: n_of_0 n_of_pos)
qed

lemma bq_inv_start: "bq_inv m (idle_monitor m n)"
  by (auto simp: bq_inv_def idle_monitor_def NewBoundedBlockingQueue_def n_of_replicate simp del: n_of_0 n_of_pos)

lemma bq_inv_trace: "bq_trace s os t \<Longrightarrow> bq_inv m s \<Longrightarrow> bq_inv m t"
  by (induction rule: bq_trace.induct) (auto dest: bq_inv_exec)

text \<open>First in, first out: what was accepted is what was delivered, then what is queued, then what
  a clearing \<open>Close\<close> threw away.\<close>

definition fifo_inv :: "'a obs list \<Rightarrow> 'a monitor \<Rightarrow> bool" where
  "fifo_inv os s \<longleftrightarrow>
     concat (map accepted os) = concat (map delivered os) @ elems (bq s) @ concat (map cleared os) \<and>
     (concat (map cleared os) \<noteq> [] \<longrightarrow> closed (bq s) \<and> elems (bq s) = [])"

lemma fifo_exec:
  assumes inv: "fifo_inv os s" and run: "bq_exec a s = Some (ob, s')"
  shows "fifo_inv (os @ [ob]) s'"
  using run
  by (cases rule: bq_exec_cases) (use inv in \<open>auto simp: fifo_inv_def simp del: concat_eq_Nil_conv\<close>)

lemma fifo_trace: "bq_trace (idle_monitor m n) os t \<Longrightarrow> fifo_inv os t"
proof (induction rule: bq_trace.induct)
  case trace_start
  show ?case by (simp add: fifo_inv_def idle_monitor_def NewBoundedBlockingQueue_def)
next
  case (trace_step os t a ob u)
  then show ?case by (rule_tac fifo_exec)
qed

text \<open>A closed and empty queue stays so, and the putters waiting on it are never woken.\<close>

lemma stuck_exec:
  assumes "closed (bq s)" and "elems (bq s) = []" and "t < length (pcs s)" and "pcs s ! t = PutWait x"
    and run: "bq_exec a s = Some (ob, s')"
  shows "closed (bq s') \<and> elems (bq s') = [] \<and> t < length (pcs s') \<and> pcs s' ! t = PutWait x"
  using run
  by (cases rule: bq_exec_cases) (use assms in \<open>auto simp: nth_list_update broadcast_def\<close>)

lemma stuck_trace:
  "bq_trace s os u \<Longrightarrow> closed (bq s) \<Longrightarrow> elems (bq s) = [] \<Longrightarrow> t < length (pcs s) \<Longrightarrow>
   pcs s ! t = PutWait x \<Longrightarrow>
   closed (bq u) \<and> elems (bq u) = [] \<and> t < length (pcs u) \<and> pcs u ! t = PutWait x"
  by (induction rule: bq_trace.induct) (blast, meson stuck_exec)

text \<open>Runs for the witnesses: a list of actions executed one after the other.\<close>

fun bq_run :: "'a monitor \<Rightarrow> 'a action list \<Rightarrow> ('a obs list \<times> 'a monitor) option" where
  "bq_run s [] = Some ([], s)"
| "bq_run s (a # as) = Option.bind (bq_exec a s) (\<lambda>(ob, s').
     map_option (\<lambda>(os, t). (ob # os, t)) (bq_run s' as))"

lemma bq_run_append:
  "bq_trace s os t \<Longrightarrow> bq_run t as = Some (os', u) \<Longrightarrow> bq_trace s (os @ os') u"
proof (induction as arbitrary: os os' t)
  case (Cons a as)
  then obtain ob t' os'' where a: "bq_exec a t = Some (ob, t')" and "bq_run t' as = Some (os'', u)"
    and "os' = ob # os''"
    by (auto simp: bind_eq_Some_conv)
  with Cons.IH [OF trace_step [OF Cons.prems(1) a]] show ?case by simp
qed simp

lemma bq_run_trace: "bq_run s as = Some (os, t) \<Longrightarrow> bq_trace s os t"
  using bq_run_append [OF trace_start] by fastforce


section \<open>The interface of the task scheduler\<close>

text \<open>
  A queue that never makes its producer wait: \<open>put\<close> answers whether the queue took the
  element, \<open>get\<close> is \<^term>\<open>None\<close> while it has to wait and delivers no element only when the
  queue is closed and empty.
\<close>

locale work_queue =
  fixes put :: "'q \<Rightarrow> 'a \<Rightarrow> ('q \<times> bool) option"
    and get :: "'q \<Rightarrow> ('q \<times> 'a option) option"
    and close :: "'q \<Rightarrow> bool \<Rightarrow> 'q"
    and content :: "'q \<Rightarrow> 'a list"
    and live :: "'q \<Rightarrow> bool"
    and ok :: "'q \<Rightarrow> bool"
  assumes put_live: "ok q \<Longrightarrow> live q \<Longrightarrow>
      \<exists>q'. put q x = Some (q', True) \<and> ok q' \<and> live q' \<and> content q' = content q @ [x]"
    and put_dead: "ok q \<Longrightarrow> \<not> live q \<Longrightarrow> put q x = Some (q, False)"
    and get_first: "ok q \<Longrightarrow> content q = x # xs \<Longrightarrow>
      \<exists>q'. get q = Some (q', Some x) \<and> ok q' \<and> live q' = live q \<and> content q' = xs"
    and get_wait: "ok q \<Longrightarrow> content q = [] \<Longrightarrow> live q \<Longrightarrow> get q = None"
    and get_end: "ok q \<Longrightarrow> content q = [] \<Longrightarrow> \<not> live q \<Longrightarrow> get q = Some (q, None)"
    and close_dead: "ok q \<Longrightarrow> ok (close q clear) \<and> \<not> live (close q clear) \<and>
      content (close q clear) = (if clear then [] else content q)"

fun put_all :: "('q \<Rightarrow> 'a \<Rightarrow> ('q \<times> bool) option) \<Rightarrow> 'q \<Rightarrow> 'a list \<Rightarrow> 'q option" where
  "put_all put q [] = Some q"
| "put_all put q (x # xs) = Option.bind (put q x) (\<lambda>(q', took). put_all put q' xs)"

text \<open>A consumer's loop, for at most \<open>n\<close> calls: what it got, and whether it saw the end.\<close>

fun drain :: "('q \<Rightarrow> ('q \<times> 'a option) option) \<Rightarrow> nat \<Rightarrow> 'q \<Rightarrow> 'a list \<times> bool" where
  "drain get 0 q = ([], False)"
| "drain get (Suc n) q = (case get q of
     None \<Rightarrow> ([], False)
   | Some (q', None) \<Rightarrow> ([], True)
   | Some (q', Some x) \<Rightarrow> apfst ((#) x) (drain get n q'))"

context work_queue
begin

lemma put_all_content:
  "ok q \<Longrightarrow> live q \<Longrightarrow> \<exists>q'. put_all put q xs = Some q' \<and> ok q' \<and> live q' \<and> content q' = content q @ xs"
proof (induction xs arbitrary: q)
  case (Cons x xs)
  from put_live [OF Cons.prems, of x] obtain q' where
    "put q x = Some (q', True)" "ok q'" "live q'" "content q' = content q @ [x]" by blast
  with Cons.IH [of q'] show ?case by auto
qed simp

lemma put_all_dead: "ok q \<Longrightarrow> \<not> live q \<Longrightarrow> put_all put q xs = Some q"
  by (induction xs) (simp_all add: put_dead)

lemma drain_content:
  "ok q \<Longrightarrow> length (content q) < n \<Longrightarrow> drain get n q = (content q, \<not> live q)"
proof (induction n arbitrary: q)
  case (Suc n)
  show ?case
  proof (cases "content q")
    case Nil
    with Suc.prems(1) show ?thesis
      using get_wait get_end by (cases "live q") simp_all
  next
    case (Cons x xs)
    from get_first [OF Suc.prems(1) Cons] obtain q' where
      "get q = Some (q', Some x)" "ok q'" "live q' = live q" "content q' = xs" by blast
    with Suc.IH [of q'] Suc.prems(2) Cons show ?thesis by simp
  qed
qed simp

text \<open>Everything put before a \<open>Close\<close> that keeps comes out in order, then the end; what is put
  after it is not taken.\<close>

lemma close_then_drain:
  assumes "ok q" and "live q" and "content q = []" and "length xs < n"
  shows "\<exists>q1 q2. put_all put q xs = Some q1 \<and> put_all put (close q1 clear) ys = Some q2 \<and>
    drain get n q2 = (if clear then [] else xs, True)"
proof -
  obtain q1 where q1: "put_all put q xs = Some q1" "ok q1" "content q1 = xs"
    using put_all_content [OF assms(1,2)] assms(3) by fastforce
  moreover have "put_all put (close q1 clear) ys = Some (close q1 clear)"
    using close_dead [OF q1(2)] by (simp add: put_all_dead)
  moreover have "drain get n (close q1 clear) = (if clear then [] else xs, True)"
    using drain_content [of "close q1 clear" n] close_dead [OF q1(2), of clear] q1(3) assms(4) by simp
  ultimately show ?thesis by blast
qed

end

interpretation unbounded: work_queue qPut qGet qClose elems "\<lambda>q. \<not> closed q" "\<lambda>q. max_size q \<le> 0"
  by unfold_locales
    (auto simp: qPut_def qGet_def qClose_def isFull_def Let_def split: if_splits)

section \<open>Properties\<close>

lemma waits_counted:
  "GetWait \<in> set ps \<Longrightarrow> 0 < n_of is_GetWait ps" "PutWait x \<in> set ps \<Longrightarrow> 0 < n_of is_PutWait ps"
  by force+

lemma bq_invD:
  assumes "bq_inv m s"
  shows "GetWait \<in> set (pcs s) \<Longrightarrow>
      \<not> closed (bq s) \<and> length (elems (bq s)) \<le> n_of is_GetReady (pcs s)"
    and "PutWait x \<in> set (pcs s) \<Longrightarrow> m > 0 \<and>
      (closed (bq s) \<or> m - int (length (elems (bq s))) \<le> int (n_of is_PutReady (pcs s)))"
    and "m > 0 \<Longrightarrow> int (length (elems (bq s))) \<le> m"
  using assms waits_counted(1) [of "pcs s"] waits_counted(2) [of x "pcs s"]
  by (simp_all add: bq_inv_def del: n_of_0 n_of_pos)

text \<open>C6: Whatever the threads do and however they interleave, the elements a queue accepted are, in
  this order, those it delivered, those it holds, and those a clearing \<open>Close\<close> dropped:
  nothing is lost, duplicated or reordered.\<close>
theorem queue_fifo:
  assumes "bq_trace (idle_monitor m n) os t"
  shows "concat (map accepted os)
    = concat (map delivered os) @ elems (bq t) @ concat (map cleared os)"
  using fifo_trace [OF assms] by (simp add: fifo_inv_def)

lemma queue_fifo_witness:
  "\<exists>os t. bq_trace (idle_monitor 1 3) os t \<and> os = [Tau, Tau, Tau, Accepted (7::nat), Delivered 7, Tau, Accepted 8, Cleared [8]] \<and>
     concat (map accepted os) = concat (map delivered os) @ elems (bq t) @ concat (map cleared os)"
proof -
  let ?s = "idle_monitor 1 3 :: nat monitor"
  let ?as = "[CallGet 0, Run 0 0, CallPut 1 7, Run 1 0, Run 0 0, CallPut 2 8, Run 2 0, CallClose True]"
  have out: "map_option fst (bq_run ?s ?as)
      = Some [Tau, Tau, Tau, Accepted 7, Delivered 7, Tau, Accepted 8, Cleared [8]]"
    by code_simp
  then obtain t where "bq_run ?s ?as
      = Some ([Tau, Tau, Tau, Accepted 7, Delivered 7, Tau, Accepted 8, Cleared [8]], t)"
    by (auto simp: map_option_case split: option.splits)
  note tr = bq_run_trace [OF this]
  from queue_fifo [OF tr] tr show ?thesis by blast
qed


text \<open>C7: No consumer misses a wake-up, no producer does while the queue is open, and the bound is kept.  A thread
  waits in \<open>Get\<close> only on an open queue each of whose elements has a getter on its way; a thread waits
  in \<open>Put\<close> only on a bounded queue, and either each free slot has a putter on its way or the queue
  is closed (\<open>Close\<close> does not wake producers: such a thread may wait for ever,
  \<open>closed_putter_stuck\<close>); a bounded queue never holds more than its size.\<close>
theorem no_lost_wakeup:
  assumes "bq_trace (idle_monitor m n) os t"
  shows "(GetWait \<in> set (pcs t) \<longrightarrow>
      \<not> closed (bq t) \<and> length (elems (bq t)) \<le> n_of is_GetReady (pcs t)) \<and>
    (PutWait x \<in> set (pcs t) \<longrightarrow> m > 0 \<and>
      (closed (bq t) \<or> m - int (length (elems (bq t))) \<le> int (n_of is_PutReady (pcs t)))) \<and>
    (m > 0 \<longrightarrow> int (length (elems (bq t))) \<le> m)"
  using bq_invD [OF bq_inv_trace [OF assms bq_inv_start]] by blast

lemma no_lost_wakeup_witness:
  "\<exists>t. bq_trace (idle_monitor 1 2) [Tau, Tau, Accepted (7::nat), Tau] t \<and>
     pcs t = [PutWait 8, Idle] \<and> (1::int) - int (length (elems (bq t))) \<le> int (n_of is_PutReady (pcs t))"
proof -
  have "bq_run (idle_monitor 1 2) [CallPut 0 (8::nat), CallPut 1 7, Run 1 0, Run 0 0]
      = Some ([Tau, Tau, Accepted 7, Tau], \<lparr>bq = \<lparr>max_size = 1, closed = False, elems = [7]\<rparr>,
          pcs = [PutWait 8, Idle]\<rparr>)"
    by code_simp
  note tr = bq_run_trace [OF this]
  show ?thesis
    using no_lost_wakeup [OF tr, of 8] tr by auto
qed

text \<open>A queue without bound never makes a producer wait, and once it is closed no consumer waits
  either, so every worker parked in \<open>Get\<close> is released by \<open>Close\<close>.\<close>
lemma unbounded_releases_workers:
  assumes "bq_trace (idle_monitor m n) os t" and "m \<le> 0"
  shows "PutWait x \<notin> set (pcs t) \<and> (closed (bq t) \<longrightarrow> GetWait \<notin> set (pcs t))"
  using bq_invD [OF bq_inv_trace [OF assms(1) bq_inv_start]] assms(2) by force

lemma unbounded_releases_workers_witness:
  "\<exists>t. bq_trace (idle_monitor (- 1) 2) [Tau, Tau, Cleared []] t \<and> closed (bq t) \<and>
     pcs t = [GetReady, Idle] \<and> GetWait \<notin> set (pcs t) \<and> PutWait (0::nat) \<notin> set (pcs t)"
proof -
  have "bq_run (idle_monitor (- 1) 2 :: nat monitor) [CallGet 0, Run 0 0, CallClose False]
      = Some ([Tau, Tau, Cleared []], \<lparr>bq = \<lparr>max_size = - 1, closed = True, elems = []\<rparr>,
          pcs = [GetReady, Idle]\<rparr>)"
    by code_simp
  note tr = bq_run_trace [OF this]
  show ?thesis using unbounded_releases_workers [OF tr, of 0] tr by auto
qed

text \<open>\<open>Close\<close> broadcasts to the getters only.  A producer that waits on a full queue when it
  is closed and cleared waits for ever: no later step of any thread wakes it.\<close>
lemma closed_putter_stuck:
  assumes "bq_trace (idle_monitor m n) os s" and "t < length (pcs s)" and "pcs s ! t = PutWait x"
    and "bq_exec (CallClose True) s = Some (ob, s')" and "bq_trace s' os' u"
  shows "pcs u ! t = PutWait x \<and> run_thread u t i = None"
proof -
  have "closed (bq s')" "elems (bq s') = []" "t < length (pcs s')" "pcs s' ! t = PutWait x"
    using assms(2-4) by (auto simp: qClose_def broadcast_def)
  from stuck_trace [OF assms(5) this] show ?thesis by (simp add: run_thread_def)
qed

lemma closed_putter_stuck_witness:
  "\<exists>os s ob s'. bq_trace (idle_monitor 1 2) os s \<and> pcs s = [PutWait 8, Idle] \<and>
     bq_exec (CallClose True) s = Some (ob, s') \<and> pcs s' ! 0 = PutWait (8::nat) \<and> run_thread s' 0 1 = None"
proof -
  let ?s = "\<lparr>bq = \<lparr>max_size = 1, closed = False, elems = [7::nat]\<rparr>, pcs = [PutWait 8, Idle]\<rparr>"
  have "bq_run (idle_monitor 1 2) [CallPut 0 (8::nat), CallPut 1 7, Run 1 0, Run 0 0]
      = Some ([Tau, Tau, Accepted 7, Tau], ?s)"
    by code_simp
  note tr = bq_run_trace [OF this]
  obtain ob s' where cl: "bq_exec (CallClose True) ?s = Some (ob, s')" by simp
  have "pcs s' ! 0 = PutWait 8 \<and> run_thread s' 0 1 = None"
    by (rule closed_putter_stuck [OF tr _ _ cl trace_start]) simp_all
  with tr cl show ?thesis by fastforce
qed

text \<open>The queues of the scheduler deliver to a consumer, in order, exactly what was put before
  \<open>Close\<close>, or nothing if it clears, then report the end; what is put later is refused.\<close>
theorem unbounded_drain:
  assumes "length xs < n"
  shows "\<exists>q1 q2. put_all qPut NewUnboundedBlockingQueue xs = Some q1 \<and>
    put_all qPut (qClose q1 clear) ys = Some q2 \<and>
    drain qGet n q2 = (if clear then [] else xs, True)"
  by (rule unbounded.close_then_drain)
    (simp_all add: NewUnboundedBlockingQueue_def NewBoundedBlockingQueue_def assms)

lemma unbounded_drain_witness:
  "\<exists>q1 q2. put_all qPut NewUnboundedBlockingQueue [1, 2 :: nat] = Some q1 \<and>
    put_all qPut (qClose q1 False) [3] = Some q2 \<and> drain qGet 3 q2 = ([1, 2], True)"
  using unbounded_drain [of "[1, 2 :: nat]" 3 False "[3]"] by simp

end
