(* ===== verification/GoStrings.thy ===== *)
theory GoStrings
  imports Prelude "HOL-Library.Sublist"
begin

text \<open>
  The functions of Go's standard library on strings that the code uses: \<open>strings.Split\<close> with a
  one-byte separator, \<open>strings.Join\<close>, \<open>strings.HasPrefix\<close>, \<open>strings.Trim\<close>-like cuts,
  \<open>strconv.Itoa\<close> and the \<open>%d\<close> of \<open>fmt.Sprintf\<close>.
\<close>

abbreviation newline :: char where "newline \<equiv> CHR 0x0A"

abbreviation quote :: char where "quote \<equiv> CHR 0x22"

section \<open>Split and Join\<close>

fun Split :: "char \<Rightarrow> string \<Rightarrow> string list" where
  "Split c [] = [[]]"
| "Split c (x # xs) = (if x = c then [] # Split c xs
     else case Split c xs of [] \<Rightarrow> [[x]] | y # ys \<Rightarrow> (x # y) # ys)"

fun Join :: "string \<Rightarrow> string list \<Rightarrow> string" where
  "Join sep [] = []"
| "Join sep [x] = x"
| "Join sep (x # y # ys) = x @ sep @ Join sep (y # ys)"

lemma Split_not_Nil [simp]: "Split c s \<noteq> []"
  by (cases s) (simp_all split: list.split)

lemma Join_Cons: "Join sep (x # xs) = x @ (if xs = [] then [] else sep @ Join sep xs)"
  by (cases xs) simp_all

lemma Join_append: "xs \<noteq> [] \<Longrightarrow> ys \<noteq> [] \<Longrightarrow> Join sep (xs @ ys) = Join sep xs @ sep @ Join sep ys"
  by (induction xs) (auto simp: Join_Cons)

lemma Join_Split [simp]: "Join [c] (Split c s) = s"
proof (induction s)
  case (Cons x xs)
  then show ?case by (cases "Split c xs") (auto simp: Join_Cons)
qed simp

lemma Split_append: "Split c (xs @ c # ys) = Split c xs @ Split c ys"
proof (induction xs)
  case (Cons x xs)
  then show ?case by (cases "Split c xs") auto
qed simp

lemma Split_free: "c \<notin> set s \<Longrightarrow> Split c s = [s]"
  by (induction s) auto

lemma length_Split: "length (Split c s) = Suc (count_list s c)"
  by (induction s) (auto split: list.split)

section \<open>Prefixes and decimal numbers\<close>

definition HasPrefix :: "string \<Rightarrow> string \<Rightarrow> bool" where
  "HasPrefix s p \<longleftrightarrow> take (length p) s = p"

lemma HasPrefix_prefix: "HasPrefix s p \<longleftrightarrow> prefix p s"
  unfolding HasPrefix_def prefix_def by (metis append_eq_conv_conj append_take_drop_id)

definition digit :: "nat \<Rightarrow> char" where
  "digit n = char_of (48 + n)"

function nat_string :: "nat \<Rightarrow> string" where
  "nat_string n = (if n < 10 then [digit n] else nat_string (n div 10) @ [digit (n mod 10)])"
  by auto
termination by (relation "measure id") auto

declare nat_string.simps [simp del]

definition Itoa :: "int \<Rightarrow> string" where
  "Itoa i = (if i < 0 then CHR ''-'' # nat_string (nat (- i)) else nat_string (nat i))"

text \<open>Reading digits back.\<close>

definition digit_val :: "char \<Rightarrow> nat option" where
  "digit_val c = (let k = of_char c in if (48::nat) \<le> k \<and> k \<le> 57 then Some (k - 48) else None)"

fun digits_val :: "nat \<Rightarrow> string \<Rightarrow> nat option" where
  "digits_val acc [] = Some acc"
| "digits_val acc (c # cs) = (case digit_val c of None \<Rightarrow> None | Some d \<Rightarrow> digits_val (10 * acc + d) cs)"

lemma digit_val_digit [simp]: "n < 10 \<Longrightarrow> digit_val (digit n) = Some n"
  by (simp add: digit_def digit_val_def Let_def)

lemma digits_val_append:
  "digits_val acc (xs @ ys) = Option.bind (digits_val acc xs) (\<lambda>a. digits_val a ys)"
  by (induction xs arbitrary: acc) (auto split: option.splits)

lemma digits_val_nat_string: "digits_val 0 (nat_string n) = Some n"
proof (induction n rule: nat_string.induct)
  case (1 n)
  then show ?case
    by (subst nat_string.simps) (simp add: digits_val_append)
qed

lemma nat_string_not_Nil [simp]: "nat_string n \<noteq> []"
  by (subst nat_string.simps) simp

lemma nat_string_digits: "c \<in> set (nat_string n) \<Longrightarrow> digit_val c \<noteq> None"
proof (induction n rule: nat_string.induct)
  case (1 n)
  then show ?case by (subst (asm) (2) nat_string.simps) (auto split: if_splits)
qed

lemma nat_string_inject [simp]: "nat_string m = nat_string n \<longleftrightarrow> m = n"
  using digits_val_nat_string by (metis option.inject)

end
