(* ===== verification/CodeWrappers.thy ===== *)
theory CodeWrappers
  imports GoStrings
begin

text \<open>
  \<open>internal/util/code_wrappers.go\<close>: the Python around a user's script, taken off again by line
  numbers, and the JSON around the arguments of a script.
\<close>

definition LOAD_ARGS :: string where
  "LOAD_ARGS = newline # ''import json'' @
     newline # ''with open('' @ quote # ''data.json'' @ quote # '') as data:'' @
     newline # ''    args = json.load(data)''"

definition INVOKE_DYN_HANDLE :: string where
  "INVOKE_DYN_HANDLE = newline # ''print(func(**args))''"

definition INVOKE_ESB :: string where
  "INVOKE_ESB = newline # ''print(func(args['' @ quote # ''msgs'' @ quote # '']))''"

definition WrapCodeForDynHandle :: "string \<Rightarrow> string" where
  "WrapCodeForDynHandle code = LOAD_ARGS @ [newline] @ code @ [newline] @ INVOKE_DYN_HANDLE"

text \<open>\<open>splitted[4 : len(splitted)-1]\<close> panics when the upper bound is below the lower one.\<close>

definition UnwrapCodeForDynHandle :: "string \<Rightarrow> string outcome" where
  "UnwrapCodeForDynHandle code =
     (let splitted = Split newline code; high = length splitted - 1 in
      if 4 \<le> high then Return (Join [newline] (drop 4 (take high splitted)))
      else Panic ''slice bounds out of range'')"

definition WrapCodeForEsb :: "string \<Rightarrow> string" where
  "WrapCodeForEsb code = LOAD_ARGS @ [newline] @ code @ [newline] @ INVOKE_ESB"

definition UnwrapCodeForEsb :: "string \<Rightarrow> string outcome" where
  "UnwrapCodeForEsb code =
     (let splitted = Split newline code; high = length splitted - 1 in
      if 4 \<le> high then Return (Join [newline] (drop 4 (take high splitted)))
      else Panic ''slice bounds out of range'')"

definition WrapArgsForDynHandle :: "string \<Rightarrow> string \<Rightarrow> string" where
  "WrapArgsForDynHandle headers body =
     (let headers = (if length headers = 0 then ''{}'' else headers);
          body = (if length body = 0 then ''{}'' else body) in
      ''{'' @ [quote] @ ''headers'' @ [quote] @ '': '' @ headers @ '', '' @ [quote] @ ''body'' @ [quote]
        @ '': '' @ body @ ''}'')"

definition WrapArgsForEsb :: "string list \<Rightarrow> string" where
  "WrapArgsForEsb msgs =
     (let jsonStrings = map (\<lambda>msg. [quote] @ msg @ [quote]) msgs in
      ''{'' @ [quote] @ ''msgs'' @ [quote] @ '':['' @ Join '','' jsonStrings @ '']}'' @ [newline])"

section \<open>Lines\<close>

lemma LOAD_ARGS_lines: "length (Split newline LOAD_ARGS) = 4"
  by (simp add: LOAD_ARGS_def)

lemma INVOKE_lines: "\<exists>l. Split newline INVOKE_DYN_HANDLE = [[], l]" "\<exists>l. Split newline INVOKE_ESB = [[], l]"
  by (simp_all add: INVOKE_DYN_HANDLE_def INVOKE_ESB_def)

text \<open>What both unwrappers do with a text whose last part has two lines, the first of them empty.\<close>

lemma unwrap_lines:
  assumes "length (Split newline pre) = 4" and "Split newline post = [[], l]"
  shows "Join [newline] (drop 4 (take (length (Split newline (pre @ newline # code @ newline # post)) - 1)
      (Split newline (pre @ newline # code @ newline # post)))) = code @ [newline]"
    and "4 \<le> length (Split newline (pre @ newline # code @ newline # post)) - 1"
  using assms by (simp_all add: Split_append Join_append)

lemma unwrap_dyn: "UnwrapCodeForDynHandle (WrapCodeForDynHandle code) = Return (code @ [newline])"
  and unwrap_esb: "UnwrapCodeForEsb (WrapCodeForEsb code) = Return (code @ [newline])"
proof -
  obtain l1 l2 where "Split newline INVOKE_DYN_HANDLE = [[], l1]" "Split newline INVOKE_ESB = [[], l2]"
    using INVOKE_lines by blast
  then show "UnwrapCodeForDynHandle (WrapCodeForDynHandle code) = Return (code @ [newline])"
    and "UnwrapCodeForEsb (WrapCodeForEsb code) = Return (code @ [newline])"
    using unwrap_lines [OF LOAD_ARGS_lines] by (simp_all add: UnwrapCodeForDynHandle_def UnwrapCodeForEsb_def
        WrapCodeForDynHandle_def WrapCodeForEsb_def Let_def)
qed

section \<open>Properties\<close>

text \<open>Taking the wrapper off a wrapped script gives the script with one newline added at its end,
  for the dynamic endpoints and for the mappers: the round trip loses nothing and never
  panics.\<close>
theorem unwrap_wrap:
  "UnwrapCodeForDynHandle (WrapCodeForDynHandle code) = Return (code @ [newline]) \<and>
   UnwrapCodeForEsb (WrapCodeForEsb code) = Return (code @ [newline])"
  by (simp add: unwrap_dyn unwrap_esb)

text \<open>Unwrapping panics exactly on a text with fewer than four newlines, so a script file that
  was not written by the wrapper can crash the handler that shows it.\<close>
theorem unwrap_panics:
  "(\<exists>m. UnwrapCodeForDynHandle code = Panic m) \<longleftrightarrow> count_list code newline < 4"
  by (simp add: UnwrapCodeForDynHandle_def length_Split Let_def)

end
