(* ===== verification/SyncContainers.thy ===== *)
theory SyncContainers
  imports Prelude
begin

text \<open>
  \<open>internal/util/sync_set.go\<close>, \<open>sync_map.go\<close>: a set and a map behind a mutex.  Every
  method is one critical section, so each is a function of the buffer.  A Go map is a
  partial function, a \<open>map[K]struct\<close> a set; the order in which \<open>GetAllKeys\<close> ranges over
  the map is not specified by the language, so its result is read as a set.
\<close>

record 'k sync_set =
  set_buffer :: "'k set"

definition NewSyncSet :: "'k sync_set" where
  "NewSyncSet = \<lparr>set_buffer = {}\<rparr>"

definition set_Insert :: "'k sync_set \<Rightarrow> 'k \<Rightarrow> 'k sync_set \<times> bool" where
  "set_Insert s value =
     (let ok = value \<in> set_buffer s in
      if ok then (s, False) else (s\<lparr>set_buffer := insert value (set_buffer s)\<rparr>, True))"

definition set_Remove :: "'k sync_set \<Rightarrow> 'k \<Rightarrow> 'k sync_set" where
  "set_Remove s value = s\<lparr>set_buffer := set_buffer s - {value}\<rparr>"

record ('k, 'v) sync_map =
  map_buffer :: "'k \<Rightarrow> 'v option"

definition NewSyncMap :: "('k, 'v) sync_map" where
  "NewSyncMap = \<lparr>map_buffer = Map.empty\<rparr>"

definition map_Add :: "('k, 'v) sync_map \<Rightarrow> 'k \<Rightarrow> 'v \<Rightarrow> ('k, 'v) sync_map" where
  "map_Add mp key value = mp\<lparr>map_buffer := (map_buffer mp)(key \<mapsto> value)\<rparr>"

text \<open>\<open>Get\<close> answers \<open>ok\<close> next to the value; \<open>zero\<close> is Go's zero value of the type.\<close>

definition map_Get :: "'v \<Rightarrow> ('k, 'v) sync_map \<Rightarrow> 'k \<Rightarrow> 'v \<times> bool" where
  "map_Get zero mp key = (case map_buffer mp key of Some value \<Rightarrow> (value, True) | None \<Rightarrow> (zero, False))"

definition map_Remove :: "('k, 'v) sync_map \<Rightarrow> 'k \<Rightarrow> ('k, 'v) sync_map" where
  "map_Remove mp key = mp\<lparr>map_buffer := (map_buffer mp)(key := None)\<rparr>"

definition map_Contains :: "('k, 'v) sync_map \<Rightarrow> 'k \<Rightarrow> bool" where
  "map_Contains mp key \<longleftrightarrow> map_buffer mp key \<noteq> None"

definition map_GetAllKeys :: "('k, 'v) sync_map \<Rightarrow> 'k set" where
  "map_GetAllKeys mp = dom (map_buffer mp)"

lemma set_Insert_iff [simp]:
  "snd (set_Insert s v) \<longleftrightarrow> v \<notin> set_buffer s"
  "set_buffer (fst (set_Insert s v)) = insert v (set_buffer s)"
  by (auto simp: set_Insert_def Let_def)

lemma set_Remove_buffer [simp]: "set_buffer (set_Remove s v) = set_buffer s - {v}"
  by (simp add: set_Remove_def)

end
