(* ===== verification/Scheduler.thy ===== *)
theory Scheduler
  imports BlockingQueue SyncContainers
begin

text \<open>
  \<open>internal/brokers/mp_task_scheduler.go\<close>.  A task is the interface \<open>qReadTask\<close> or
  \<open>qWriteTask\<close>: its id and three calls on the state \<open>'w\<close> of the world outside.  The worker
  routines, the submissions and \<open>Stop\<close> are threads; every access to a queue, to the set of
  running ids or to the channel of errors is one step, and steps interleave freely.  A body between
  two such accesses (running a task) ends at any time with the outcome of \<open>qread\<close> or
  \<open>qwrite\<close> in some world.
\<close>

section \<open>Tasks\<close>

record 'w task =
  taskId :: string
  connectAndPrepare :: "'w \<Rightarrow> 'w \<times> go_error option"
  perform :: "'w \<Rightarrow> 'w \<times> go_error option"
  closeTask :: "'w \<Rightarrow> 'w"

text \<open>\<open>perform\<close> is \<open>read\<close> of a read task and \<open>write\<close> of a write task.\<close>

definition qread :: "'w \<Rightarrow> 'w task \<Rightarrow> 'w \<times> go_error option" where
  "qread w task =
     (let (w, err) = connectAndPrepare task w in
      if err \<noteq> None then (w, err)
      else let (w, err) = perform task w in (closeTask task w, err))"

definition qwrite :: "'w \<Rightarrow> 'w task \<Rightarrow> 'w \<times> go_error option" where
  "qwrite w task =
     (let (w, err) = connectAndPrepare task w in
      if err \<noteq> None then (w, err)
      else let (w, err) = perform task w in (closeTask task w, err))"

text \<open>The errors a worker reports: not those of a finished context.\<close>

definition reported :: "go_error option \<Rightarrow> bool" where
  "reported err \<longleftrightarrow> err \<noteq> None \<and> err \<noteq> Some ContextCanceled \<and> err \<noteq> Some ContextDeadlineExceeded"

section \<open>The state\<close>

definition MAX_ERRORS :: nat where
  "MAX_ERRORS = 128"

text \<open>Where a worker is: about to \<open>Get\<close>, asleep in the \<open>Wait\<close> of \<open>Get\<close>, running a task, about
  to report its error, about to remove its id (readers), gone.\<close>

datatype 'w pcw = AtGet | Parked | Running "'w task" | Report "'w task" go_error | AtRemove "'w task" | Gone

text \<open>\<open>pending\<close> are the read tasks between \<open>Insert\<close> and \<open>Put\<close> of \<open>submitReadTask\<close>;
  \<open>stopping\<close> counts the steps of \<open>Stop\<close>.\<close>

record 'w sched =
  read_tasks :: "'w task bqueue"
  write_tasks :: "'w task bqueue"
  running_read_tasks :: "string sync_set"
  errors :: "(string \<times> go_error) list"
  errors_closed :: bool
  pending :: "'w task list"
  r_workers :: "'w pcw list"
  w_workers :: "'w pcw list"
  stopping :: nat
  crashed :: bool

definition sched_Init :: "'w sched" where
  "sched_Init = \<lparr>read_tasks = NewUnboundedBlockingQueue, write_tasks = NewUnboundedBlockingQueue,
     running_read_tasks = NewSyncSet, errors = [], errors_closed = False, pending = [],
     r_workers = [], w_workers = [], stopping = 0, crashed = False\<rparr>"

definition sched_Start :: "nat \<Rightarrow> nat \<Rightarrow> 'w sched \<Rightarrow> 'w sched" where
  "sched_Start r w s = s\<lparr>r_workers := r_workers s @ replicate r AtGet, w_workers := w_workers s @ replicate w AtGet\<rparr>"

text \<open>The first step of \<open>submitReadTask\<close>, and \<open>submitError\<close> with its non-blocking send; a send on
  the closed channel panics and takes the process down.\<close>

definition submitReadTask :: "'w sched \<Rightarrow> 'w task \<Rightarrow> 'w sched" where
  "submitReadTask s task =
     (let (b, new) = set_Insert (running_read_tasks s) (taskId task) in
      if new then s\<lparr>running_read_tasks := b, pending := pending s @ [task]\<rparr> else s)"

definition submitError :: "'w sched \<Rightarrow> string \<Rightarrow> go_error \<Rightarrow> 'w sched" where
  "submitError s i err =
     (if errors_closed s then s\<lparr>crashed := True\<rparr>
      else if length (errors s) < MAX_ERRORS then s\<lparr>errors := errors s @ [(i, err)]\<rparr>
      else s)"

section \<open>Steps\<close>

text \<open>\<open>empty.Signal\<close> of a \<open>Put\<close> wakes one sleeping worker, \<open>empty.Broadcast\<close> of \<open>Close\<close> all of
  them; a worker that is woken looks at the queue again.  On the unbounded queues nobody waits on
  \<open>full\<close>.\<close>

fun wake_worker :: "'w pcw \<Rightarrow> 'w pcw option" where
  "wake_worker Parked = Some AtGet"
| "wake_worker _ = None"

definition after_put :: "bool \<Rightarrow> nat \<Rightarrow> 'w pcw list \<Rightarrow> 'w pcw list option" where
  "after_put ok j ws = (if ok then signal wake_worker j ws else Some ws)"

inductive sched_step :: "'w sched \<Rightarrow> 'w sched \<Rightarrow> bool" where
  submit_read: "\<not> crashed s \<Longrightarrow> sched_step s (submitReadTask s t)"
| submit_put: "\<not> crashed s \<Longrightarrow> pending s = xs @ t # ys \<Longrightarrow> qPut (read_tasks s) t = Some (q, ok) \<Longrightarrow>
    after_put ok j (r_workers s) = Some ws \<Longrightarrow>
    sched_step s (s\<lparr>pending := xs @ ys, read_tasks := q, r_workers := ws\<rparr>)"
| submit_write: "\<not> crashed s \<Longrightarrow> qPut (write_tasks s) t = Some (q, ok) \<Longrightarrow>
    after_put ok j (w_workers s) = Some ws \<Longrightarrow>
    sched_step s (s\<lparr>write_tasks := q, w_workers := ws\<rparr>)"
| r_get: "\<not> crashed s \<Longrightarrow> i < length (r_workers s) \<Longrightarrow> r_workers s ! i = AtGet \<Longrightarrow>
    qGet (read_tasks s) = Some (q, Some t) \<Longrightarrow>
    sched_step s (s\<lparr>read_tasks := q, r_workers := (r_workers s)[i := Running t]\<rparr>)"
| r_park: "\<not> crashed s \<Longrightarrow> i < length (r_workers s) \<Longrightarrow> r_workers s ! i = AtGet \<Longrightarrow>
    qGet (read_tasks s) = None \<Longrightarrow>
    sched_step s (s\<lparr>r_workers := (r_workers s)[i := Parked]\<rparr>)"
| r_exit: "\<not> crashed s \<Longrightarrow> i < length (r_workers s) \<Longrightarrow> r_workers s ! i = AtGet \<Longrightarrow>
    qGet (read_tasks s) = Some (q, None) \<Longrightarrow>
    sched_step s (s\<lparr>read_tasks := q, r_workers := (r_workers s)[i := Gone]\<rparr>)"
| r_end: "\<not> crashed s \<Longrightarrow> i < length (r_workers s) \<Longrightarrow> r_workers s ! i = Running t \<Longrightarrow>
    qread w t = (w', err) \<Longrightarrow>
    sched_step s (s\<lparr>r_workers := (r_workers s)[i :=
      (if reported err then Report t (the err) else AtRemove t)]\<rparr>)"
| r_report: "\<not> crashed s \<Longrightarrow> i < length (r_workers s) \<Longrightarrow> r_workers s ! i = Report t e \<Longrightarrow>
    sched_step s ((submitError s (taskId t) e)\<lparr>r_workers := (r_workers s)[i := AtRemove t]\<rparr>)"
| r_remove: "\<not> crashed s \<Longrightarrow> i < length (r_workers s) \<Longrightarrow> r_workers s ! i = AtRemove t \<Longrightarrow>
    sched_step s (s\<lparr>running_read_tasks := set_Remove (running_read_tasks s) (taskId t),
      r_workers := (r_workers s)[i := AtGet]\<rparr>)"
| w_get: "\<not> crashed s \<Longrightarrow> i < length (w_workers s) \<Longrightarrow> w_workers s ! i = AtGet \<Longrightarrow>
    qGet (write_tasks s) = Some (q, Some t) \<Longrightarrow>
    sched_step s (s\<lparr>write_tasks := q, w_workers := (w_workers s)[i := Running t]\<rparr>)"
| w_park: "\<not> crashed s \<Longrightarrow> i < length (w_workers s) \<Longrightarrow> w_workers s ! i = AtGet \<Longrightarrow>
    qGet (write_tasks s) = None \<Longrightarrow>
    sched_step s (s\<lparr>w_workers := (w_workers s)[i := Parked]\<rparr>)"
| w_exit: "\<not> crashed s \<Longrightarrow> i < length (w_workers s) \<Longrightarrow> w_workers s ! i = AtGet \<Longrightarrow>
    qGet (write_tasks s) = Some (q, None) \<Longrightarrow>
    sched_step s (s\<lparr>write_tasks := q, w_workers := (w_workers s)[i := Gone]\<rparr>)"
| w_end: "\<not> crashed s \<Longrightarrow> i < length (w_workers s) \<Longrightarrow> w_workers s ! i = Running t \<Longrightarrow>
    qwrite w t = (w', err) \<Longrightarrow>
    sched_step s (s\<lparr>w_workers := (w_workers s)[i := (if reported err then Report t (the err) else AtGet)]\<rparr>)"
| w_report: "\<not> crashed s \<Longrightarrow> i < length (w_workers s) \<Longrightarrow> w_workers s ! i = Report t e \<Longrightarrow>
    sched_step s ((submitError s (taskId t) e)\<lparr>w_workers := (w_workers s)[i := AtGet]\<rparr>)"
| take_error: "\<not> crashed s \<Longrightarrow> errors s = e # es \<Longrightarrow> sched_step s (s\<lparr>errors := es\<rparr>)"
| stop_read: "\<not> crashed s \<Longrightarrow> stopping s = 0 \<Longrightarrow>
    sched_step s (s\<lparr>read_tasks := qClose (read_tasks s) True,
      r_workers := broadcast wake_worker (r_workers s), stopping := 1\<rparr>)"
| stop_write: "\<not> crashed s \<Longrightarrow> stopping s = 1 \<Longrightarrow>
    sched_step s (s\<lparr>write_tasks := qClose (write_tasks s) True,
      w_workers := broadcast wake_worker (w_workers s), stopping := 2\<rparr>)"
| stop_errors: "\<not> crashed s \<Longrightarrow> stopping s = 2 \<Longrightarrow>
    sched_step s (s\<lparr>errors_closed := True, stopping := 3\<rparr>)"
| stop_joined: "\<not> crashed s \<Longrightarrow> stopping s = 3 \<Longrightarrow> set (r_workers s) \<subseteq> {Gone} \<Longrightarrow>
    set (w_workers s) \<subseteq> {Gone} \<Longrightarrow> sched_step s (s\<lparr>stopping := 4\<rparr>)"

inductive_cases sched_stepE: "sched_step s s'"

inductive sched_reach :: "nat \<Rightarrow> nat \<Rightarrow> 'w sched \<Rightarrow> bool" for r w where
  reach_init: "sched_reach r w (sched_Start r w sched_Init)"
| reach_step: "sched_reach r w s \<Longrightarrow> sched_step s s' \<Longrightarrow> sched_reach r w s'"


section \<open>The invariant\<close>

text \<open>How often an id is on its way: submitted and not queued yet, queued, or with a reader.\<close>

fun holds :: "string \<Rightarrow> 'w pcw \<Rightarrow> bool" where
  "holds i AtGet = False"
| "holds i Parked = False"
| "holds i Gone = False"
| "holds i (Running t) = (taskId t = i)"
| "holds i (Report t e) = (taskId t = i)"
| "holds i (AtRemove t) = (taskId t = i)"

definition on_way :: "'w sched \<Rightarrow> string \<Rightarrow> nat" where
  "on_way s i = n_of (\<lambda>t. taskId t = i) (pending s) + n_of (\<lambda>t. taskId t = i) (elems (read_tasks s))
     + n_of (holds i) (r_workers s)"

definition dedup :: "'w sched \<Rightarrow> bool" where
  "dedup s \<longleftrightarrow> (\<forall>i. on_way s i \<le> of_bool (i \<in> set_buffer (running_read_tasks s)) \<and>
     (closed (read_tasks s) \<or> on_way s i = of_bool (i \<in> set_buffer (running_read_tasks s))))"

definition phases :: "'w sched \<Rightarrow> bool" where
  "phases s \<longleftrightarrow> max_size (read_tasks s) \<le> 0 \<and> max_size (write_tasks s) \<le> 0 \<and>
     (closed (read_tasks s) \<longleftrightarrow> stopping s \<ge> 1) \<and> (closed (write_tasks s) \<longleftrightarrow> stopping s \<ge> 2) \<and>
     (stopping s \<ge> 1 \<longrightarrow> elems (read_tasks s) = []) \<and> (stopping s \<ge> 2 \<longrightarrow> elems (write_tasks s) = []) \<and>
     (errors_closed s \<longleftrightarrow> stopping s \<ge> 3) \<and> (crashed s \<longrightarrow> errors_closed s) \<and>
     length (errors s) \<le> MAX_ERRORS \<and>
     (stopping s \<ge> 4 \<longrightarrow> set (r_workers s) \<subseteq> {Gone} \<and> set (w_workers s) \<subseteq> {Gone})"

text \<open>Nobody sleeps on a closed queue.\<close>

definition sleepers_ok :: "'w sched \<Rightarrow> bool" where
  "sleepers_ok s \<longleftrightarrow> (closed (read_tasks s) \<longrightarrow> Parked \<notin> set (r_workers s)) \<and>
     (closed (write_tasks s) \<longrightarrow> Parked \<notin> set (w_workers s))"

definition sched_inv :: "'w sched \<Rightarrow> bool" where
  "sched_inv s \<longleftrightarrow> dedup s \<and> phases s"

text \<open>One critical section of an unbounded queue.\<close>

lemma qPut_unbounded:
  assumes "qPut q x = Some (q', ok)" and "max_size q \<le> 0"
  shows "max_size q' = max_size q" and "closed q' = closed q"
    and "elems q' = (if closed q then elems q else elems q @ [x])" and "ok \<longleftrightarrow> \<not> closed q"
  using assms by (auto simp: qPut_def isFull_def split: if_splits)

lemma qGet_unbounded:
  assumes "qGet q = Some (q', r)"
  shows "max_size q' = max_size q" and "closed q' = closed q"
    and "r = Some x \<Longrightarrow> elems q = x # elems q'" and "r = None \<Longrightarrow> q' = q \<and> closed q \<and> elems q = []"
  using assms by (auto simp: qGet_def split: if_splits)

lemma qGet_None: "qGet q = None \<Longrightarrow> \<not> closed q"
  by (simp add: qGet_def split: if_splits)

lemma qClose_simps [simp]:
  "max_size (qClose q c) = max_size q" "closed (qClose q c)" "elems (qClose q c) = (if c then [] else elems q)"
  by (simp_all add: qClose_def Let_def)

text \<open>Wake-ups move nobody but sleepers.\<close>

lemma wake_worker_Some: "wake_worker p = Some p' \<longleftrightarrow> p = Parked \<and> p' = AtGet"
  by (cases p) auto

lemma after_put_cases:
  assumes "after_put ok j ws = Some ws'"
  obtains "ws' = ws" | "j < length ws" and "ws ! j = Parked" and "ws' = ws[j := AtGet]"
proof (cases ok)
  case True
  then have "signal wake_worker j ws = Some ws'" using assms by (simp add: after_put_def)
  then show thesis
  proof (cases rule: signal_cases)
    case 1
    from 1(2) show thesis by (rule that(1))
  next
    case (2 p')
    then have "ws ! j = Parked" "ws' = ws[j := AtGet]" by (simp_all add: wake_worker_Some)
    with 2(1) show thesis by (rule that(2))
  qed
next
  case False
  with assms have "ws' = ws" by (simp add: after_put_def)
  then show thesis by (rule that(1))
qed

lemma after_put_holds: "after_put ok j ws = Some ws' \<Longrightarrow> n_of (holds k) ws' = n_of (holds k) ws"
  by (erule after_put_cases) (use n_of_update [of j ws "holds k" AtGet] in simp_all)

lemma after_put_set: "after_put ok j ws = Some ws' \<Longrightarrow> set ws' \<subseteq> insert AtGet (set ws)"
  by (erule after_put_cases) (auto simp: set_update_subset_insert)

lemma after_put_gone: "after_put ok j ws = Some ws' \<Longrightarrow> set ws \<subseteq> {Gone} \<Longrightarrow> ws' = ws"
  by (erule after_put_cases) (auto dest: nth_mem)

lemma broadcast_simps [simp]:
  "broadcast wake_worker [] = []"
  "broadcast wake_worker (p # ps) = (if p = Parked then AtGet else p) # broadcast wake_worker ps"
  by (cases p; simp add: broadcast_def)+

lemma broadcast_holds: "n_of (holds k) (broadcast wake_worker ws) = n_of (holds k) ws"
  by (induction ws) auto

lemma broadcast_set: "set (broadcast wake_worker ws) = (\<lambda>p. if p = Parked then AtGet else p) ` set ws"
  by (induction ws) auto

lemma submitError_simps [simp]:
  "read_tasks (submitError s i e) = read_tasks s" "write_tasks (submitError s i e) = write_tasks s"
  "running_read_tasks (submitError s i e) = running_read_tasks s" "pending (submitError s i e) = pending s"
  "r_workers (submitError s i e) = r_workers s" "w_workers (submitError s i e) = w_workers s"
  "stopping (submitError s i e) = stopping s" "errors_closed (submitError s i e) = errors_closed s"
  by (simp_all add: submitError_def)

lemma submitError_errors: "length (errors s) \<le> MAX_ERRORS \<Longrightarrow> length (errors (submitError s i e)) \<le> MAX_ERRORS"
  by (simp add: submitError_def)

lemma submitError_crashed: "crashed (submitError s i e) \<longleftrightarrow> errors_closed s \<or> crashed s"
  by (simp add: submitError_def)

lemma submitReadTask_cases:
  obtains "taskId t \<in> set_buffer (running_read_tasks s)" and "submitReadTask s t = s"
  | "taskId t \<notin> set_buffer (running_read_tasks s)"
    and "submitReadTask s t = s\<lparr>running_read_tasks := fst (set_Insert (running_read_tasks s) (taskId t)),
      pending := pending s @ [t]\<rparr>"
proof (cases "taskId t \<in> set_buffer (running_read_tasks s)")
  case True
  then show thesis by (intro that(1)) (simp_all add: submitReadTask_def set_Insert_def)
next
  case False
  then show thesis by (intro that(2)) (simp_all add: submitReadTask_def set_Insert_def)
qed

lemma on_way_worker:
  assumes "i < length (r_workers s)"
  shows "n_of (holds k) ((r_workers s)[i := p]) + of_bool (holds k (r_workers s ! i))
    = n_of (holds k) (r_workers s) + of_bool (holds k p)"
  using n_of_update [OF assms, of "holds k" p] by (simp add: of_bool_def)

lemma dedupD:
  assumes "dedup s"
  shows "on_way s k \<le> of_bool (k \<in> set_buffer (running_read_tasks s))"
    and "\<not> closed (read_tasks s) \<Longrightarrow> on_way s k = of_bool (k \<in> set_buffer (running_read_tasks s))"
  using assms unfolding dedup_def by blast+

lemma dedup_cong:
  assumes "dedup s" and "\<And>k. on_way s' k = on_way s k" and "closed (read_tasks s') = closed (read_tasks s)"
    and "running_read_tasks s' = running_read_tasks s"
  shows "dedup s'"
  using assms by (simp add: dedup_def)

lemma dedup_step: "sched_step s s' \<Longrightarrow> phases s \<Longrightarrow> dedup s \<Longrightarrow> dedup s'"
proof (induction rule: sched_step.induct)
  case (submit_read s t)
  show ?case
  proof (cases rule: submitReadTask_cases [of t s])
    case 2
    have way: "on_way (submitReadTask s t) k = on_way s k + of_bool (taskId t = k)" for k
      unfolding 2(2) by (simp add: on_way_def)
    show ?thesis
      unfolding dedup_def
    proof
      fix k
      show "on_way (submitReadTask s t) k \<le> of_bool (k \<in> set_buffer (running_read_tasks (submitReadTask s t))) \<and>
          (closed (read_tasks (submitReadTask s t)) \<or>
           on_way (submitReadTask s t) k = of_bool (k \<in> set_buffer (running_read_tasks (submitReadTask s t))))"
        using dedupD [OF submit_read(3), of k] way [of k] 2
        by (cases "closed (read_tasks s)"; cases "taskId t = k") auto
    qed
  qed (use submit_read in simp)
next
  case (submit_put s xs t ys q ok j ws)
  then have "max_size (read_tasks s) \<le> 0" by (simp add: phases_def)
  note put = qPut_unbounded [OF submit_put(3) this]
  let ?s' = "s\<lparr>pending := xs @ ys, read_tasks := q, r_workers := ws\<rparr>"
  have way: "on_way ?s' k + of_bool (closed (read_tasks s) \<and> taskId t = k) = on_way s k" for k
    using submit_put(2) put(3) after_put_holds [OF submit_put(4), of k] by (auto simp: on_way_def)
  show ?case
    unfolding dedup_def
  proof
    fix k
    show "on_way ?s' k \<le> of_bool (k \<in> set_buffer (running_read_tasks ?s')) \<and>
        (closed (read_tasks ?s') \<or> on_way ?s' k = of_bool (k \<in> set_buffer (running_read_tasks ?s')))"
      using dedupD [OF submit_put(6), of k] put(2) way [of k]
      by (cases "closed (read_tasks s)") simp_all
  qed
next
  case (r_get s i q t)
  note get = qGet_unbounded [OF r_get(4)]
  have el: "elems (read_tasks s) = t # elems q" by (rule get(3)) simp
  have "on_way (s\<lparr>read_tasks := q, r_workers := (r_workers s)[i := Running t]\<rparr>) k = on_way s k" for k
  proof -
    have "n_of (holds k) ((r_workers s)[i := Running t]) = n_of (holds k) (r_workers s) + of_bool (taskId t = k)"
      using on_way_worker [OF r_get(2), of k "Running t"] by (simp add: r_get(3))
    then show ?thesis by (simp add: on_way_def el)
  qed
  with r_get(6) get(2) show ?case by (rule_tac dedup_cong [of s]) simp_all
next
  case (r_park s i)
  have "on_way (s\<lparr>r_workers := (r_workers s)[i := Parked]\<rparr>) k = on_way s k" for k
    using on_way_worker [OF r_park(2), of k Parked] r_park(3) by (simp add: on_way_def)
  with r_park(6) show ?case by (rule_tac dedup_cong [of s]) simp_all
next
  case (r_exit s i q)
  note get = qGet_unbounded [OF r_exit(4)]
  have "on_way (s\<lparr>read_tasks := q, r_workers := (r_workers s)[i := Gone]\<rparr>) k = on_way s k" for k
    using on_way_worker [OF r_exit(2), of k Gone] get(4) r_exit(3) by (simp add: on_way_def)
  with r_exit(6) get(2) show ?case by (rule_tac dedup_cong [of s]) simp_all
next
  case (r_end s i t w w' err)
  let ?p = "if reported err then Report t (the err) else AtRemove t"
  have "on_way (s\<lparr>r_workers := (r_workers s)[i := ?p]\<rparr>) k = on_way s k" for k
    using on_way_worker [OF r_end(2), of k ?p] r_end(3) by (simp add: on_way_def split: if_splits)
  with r_end(6) show ?case by (rule_tac dedup_cong [of s]) simp_all
next
  case (r_report s i t e)
  have "on_way ((submitError s (taskId t) e)\<lparr>r_workers := (r_workers s)[i := AtRemove t]\<rparr>) k = on_way s k" for k
    using on_way_worker [OF r_report(2), of k "AtRemove t"] r_report(3) by (simp add: on_way_def)
  with r_report(5) show ?case by (rule_tac dedup_cong [of s]) simp_all
next
  case (r_remove s i t)
  let ?s' = "s\<lparr>running_read_tasks := set_Remove (running_read_tasks s) (taskId t), r_workers := (r_workers s)[i := AtGet]\<rparr>"
  have way: "on_way ?s' k + of_bool (taskId t = k) = on_way s k" for k
    using on_way_worker [OF r_remove(2), of k AtGet] r_remove(3) by (simp add: on_way_def)
  show ?case
    unfolding dedup_def
  proof
    fix k
    show "on_way ?s' k \<le> of_bool (k \<in> set_buffer (running_read_tasks ?s')) \<and>
        (closed (read_tasks ?s') \<or> on_way ?s' k = of_bool (k \<in> set_buffer (running_read_tasks ?s')))"
      using dedupD [OF r_remove(5), of k] way [of k]
      by (cases "closed (read_tasks s)"; cases "taskId t = k";
          cases "k \<in> set_buffer (running_read_tasks s)") auto
  qed
next
  case (stop_read s)
  have "on_way (s\<lparr>read_tasks := qClose (read_tasks s) True, r_workers := broadcast wake_worker (r_workers s),
      stopping := 1\<rparr>) k \<le> on_way s k" for k
    by (simp add: on_way_def broadcast_holds)
  from order_trans [OF this dedupD(1) [OF stop_read(4)]] show ?case by (simp add: dedup_def)
qed (simp_all add: dedup_def on_way_def)

lemma all_gone: "set ws \<subseteq> {Gone} \<Longrightarrow> i < length ws \<Longrightarrow> ws ! i = Gone"
  using nth_mem by blast

lemma phases_step: "sched_step s s' \<Longrightarrow> phases s \<Longrightarrow> phases s'"
proof (induction rule: sched_step.induct)
  case (submit_read s t)
  then show ?case by (cases rule: submitReadTask_cases [of t s]) (simp_all add: phases_def)
next
  case (submit_put s xs t ys q ok j ws)
  then show ?case
    using qPut_unbounded [OF submit_put(3)] after_put_gone [OF submit_put(4)] by (simp add: phases_def)
next
  case (submit_write s t q ok j ws)
  then show ?case
    using qPut_unbounded [OF submit_write(2)] after_put_gone [OF submit_write(3)] by (simp add: phases_def)
next
  case (r_report s i t e)
  then show ?case
    using submitError_errors [of s "taskId t" e] submitError_crashed [of s "taskId t" e]
    by (auto simp: phases_def dest: all_gone)
next
  case (w_report s i t e)
  then show ?case
    using submitError_errors [of s "taskId t" e] submitError_crashed [of s "taskId t" e]
    by (auto simp: phases_def dest: all_gone)
qed (auto simp: phases_def dest: qGet_unbounded all_gone)


lemma sleepers_ok_update:
  assumes "set ws' \<subseteq> insert p (set ws)" and "p = Parked \<longrightarrow> \<not> c" and "c \<longrightarrow> Parked \<notin> set ws"
  shows "c \<longrightarrow> Parked \<notin> set ws'"
  using assms by auto

lemma sleepers_ok_step: "sched_step s s' \<Longrightarrow> phases s \<Longrightarrow> sleepers_ok s \<Longrightarrow> sleepers_ok s'"
proof (induction rule: sched_step.induct)
  case (submit_read s t)
  then show ?case by (cases rule: submitReadTask_cases [of t s]) (simp_all add: sleepers_ok_def)
next
  case (submit_put s xs t ys q ok j ws)
  then have "closed q = closed (read_tasks s)" by (intro qPut_unbounded(2)) (auto simp: phases_def)
  then show ?case using submit_put(6) after_put_set [OF submit_put(4)] by (auto simp: sleepers_ok_def)
next
  case (submit_write s t q ok j ws)
  then have "closed q = closed (write_tasks s)" by (intro qPut_unbounded(2)) (auto simp: phases_def)
  then show ?case using submit_write(5) after_put_set [OF submit_write(3)] by (auto simp: sleepers_ok_def)
next
  case (stop_read s)
  then show ?case by (auto simp: sleepers_ok_def broadcast_set)
next
  case (stop_write s)
  then show ?case by (auto simp: sleepers_ok_def broadcast_set)
qed (auto simp: sleepers_ok_def dest: qGet_unbounded(2) qGet_None dest!: set_update_subset_insert [THEN subsetD] split: if_splits)

lemma sched_inv_reach: "sched_reach r w s \<Longrightarrow> dedup s \<and> phases s"
proof (induction rule: sched_reach.induct)
  case reach_init
  show ?case
    by (simp add: dedup_def phases_def on_way_def sched_Start_def sched_Init_def NewUnboundedBlockingQueue_def
        NewBoundedBlockingQueue_def NewSyncSet_def MAX_ERRORS_def n_of_replicate)
next
  case (reach_step s s')
  then show ?case using dedup_step phases_step by blast
qed

lemma sleepers_ok_reach: "sched_reach r w s \<Longrightarrow> sleepers_ok s"
proof (induction rule: sched_reach.induct)
  case reach_init
  show ?case by (auto simp: sleepers_ok_def sched_Start_def sched_Init_def)
next
  case (reach_step s s')
  with sched_inv_reach show ?case using sleepers_ok_step by blast
qed

lemma stopping_le: "sched_reach r w s \<Longrightarrow> stopping s \<le> 4"
proof (induction rule: sched_reach.induct)
  case (reach_step s s')
  from reach_step(2) reach_step(3) show ?case
  proof (induction rule: sched_step.induct)
    case (submit_read s t)
    then show ?case by (cases rule: submitReadTask_cases [of t s]) simp_all
  qed simp_all
qed (simp add: sched_Start_def sched_Init_def)

section \<open>Stopping\<close>

text \<open>How many steps a worker may still take once the queues are closed.\<close>

fun rank :: "'w pcw \<Rightarrow> nat" where
  "rank Gone = 0"
| "rank Parked = 0"
| "rank AtGet = 1"
| "rank (AtRemove t) = 2"
| "rank (Report t e) = 3"
| "rank (Running t) = 4"

definition work :: "'w sched \<Rightarrow> nat" where
  "work s = sum_list (map rank (r_workers s)) + sum_list (map rank (w_workers s))"

lemma sum_rank_update:
  assumes "i < length ws" and "rank p < rank (ws ! i)"
  shows "sum_list (map rank (ws[i := p])) < sum_list (map rank ws)"
proof -
  have "rank (ws ! i) \<le> sum_list (map rank ws)"
    using assms(1) by (metis elem_le_sum_list length_map nth_map)
  with assms show ?thesis by (simp add: map_update sum_list_update)
qed

text \<open>A step of the scheduler itself, that is of a worker or of \<open>Stop\<close>; the others are submissions
  and the reader of the errors.\<close>

definition moved :: "'w sched \<Rightarrow> 'w sched \<Rightarrow> bool" where
  "moved s s' \<longleftrightarrow> r_workers s' \<noteq> r_workers s \<or> w_workers s' \<noteq> w_workers s \<or> stopping s' \<noteq> stopping s"

definition togo :: "'w sched \<Rightarrow> nat" where
  "togo s = work s + (4 - stopping s)"

lemma togo_reader:
  assumes "i < length (r_workers s)" and "rank p < rank (r_workers s ! i)"
    and "r_workers s' = (r_workers s)[i := p]" "w_workers s' = w_workers s" "stopping s' = stopping s"
  shows "togo s' < togo s"
  using sum_rank_update [OF assms(1,2)] assms(3-5) by (simp add: togo_def work_def)

lemma togo_writer:
  assumes "i < length (w_workers s)" and "rank p < rank (w_workers s ! i)"
    and "w_workers s' = (w_workers s)[i := p]" "r_workers s' = r_workers s" "stopping s' = stopping s"
  shows "togo s' < togo s"
  using sum_rank_update [OF assms(1,2)] assms(3-5) by (simp add: togo_def work_def)

lemma togo_moved:
  assumes "2 \<le> stopping s" and "stopping s' = stopping s" and "togo s' < togo s"
  shows "2 \<le> stopping s' \<and> (if moved s s' then togo s' < togo s else togo s' = togo s)"
  using assms by (auto simp: moved_def togo_def work_def)

lemma togo_step:
  "sched_step s s' \<Longrightarrow> phases s \<Longrightarrow> 2 \<le> stopping s \<Longrightarrow>
   2 \<le> stopping s' \<and> (if moved s s' then togo s' < togo s else togo s' = togo s)"
proof (induction rule: sched_step.induct)
  case (submit_read s t)
  then show ?case
    by (cases rule: submitReadTask_cases [of t s]) (simp_all add: moved_def togo_def work_def)
next
  case (submit_put s xs t ys q ok j ws)
  then have "ok = False" by (auto simp: phases_def qPut_def)
  with submit_put(4) have "ws = r_workers s" by (simp add: after_put_def)
  with submit_put show ?case by (simp add: moved_def togo_def work_def)
next
  case (submit_write s t q ok j ws)
  then have "ok = False" by (auto simp: phases_def qPut_def)
  with submit_write(3) have "ws = w_workers s" by (simp add: after_put_def)
  with submit_write show ?case by (simp add: moved_def togo_def work_def)
next
  case (r_get s i q t)
  then have "elems (read_tasks s) = []" by (simp add: phases_def)
  with r_get show ?case by (simp add: qGet_def split: if_splits)
next
  case (w_get s i q t)
  then have "elems (write_tasks s) = []" by (simp add: phases_def)
  with w_get show ?case by (simp add: qGet_def split: if_splits)
next
  case (r_park s i)
  then have "closed (read_tasks s)" by (simp add: phases_def)
  with qGet_None [OF r_park(4)] show ?case by simp
next
  case (w_park s i)
  then have "closed (write_tasks s)" by (simp add: phases_def)
  with qGet_None [OF w_park(4)] show ?case by simp
next
  case (r_exit s i q)
  then show ?case by (intro togo_moved) (simp, simp, rule togo_reader [of i _ Gone], simp_all)
next
  case (w_exit s i q)
  then show ?case by (intro togo_moved) (simp, simp, rule togo_writer [of i _ Gone], simp_all)
next
  case (r_end s i t w w' err)
  then show ?case by (intro togo_moved) (simp, simp, rule togo_reader [of i _ "if reported err then Report t (the err) else AtRemove t"], simp_all)
next
  case (w_end s i t w w' err)
  then show ?case by (intro togo_moved) (simp, simp, rule togo_writer [of i _ "if reported err then Report t (the err) else AtGet"], simp_all)
next
  case (r_report s i t e)
  then show ?case by (intro togo_moved) (simp, simp, rule togo_reader [of i _ "AtRemove t"], simp_all)
next
  case (w_report s i t e)
  then show ?case by (intro togo_moved) (simp, simp, rule togo_writer [of i _ AtGet], simp_all)
next
  case (r_remove s i t)
  then show ?case by (intro togo_moved) (simp, simp, rule togo_reader [of i _ AtGet], simp_all)
qed (auto simp: moved_def togo_def work_def)

text \<open>As long as a worker has not left, one that has not can move: nobody sleeps.\<close>

lemma reader_step:
  assumes "phases s" and "sleepers_ok s" and "\<not> crashed s" and "stopping s = 3"
    and i: "i < length (r_workers s)" and "r_workers s ! i \<noteq> Gone"
  shows "\<exists>s'. sched_step s s' \<and> moved s s'"
proof -
  have upd: "(r_workers s)[i := p] \<noteq> r_workers s" if "p \<noteq> r_workers s ! i" for p
    using that i by (metis nth_list_update_eq)
  have mv: "sched_step s s' \<Longrightarrow> r_workers s' \<noteq> r_workers s \<Longrightarrow> ?thesis" for s'
    by (auto simp: moved_def)
  show ?thesis
  proof (cases "r_workers s ! i")
    case AtGet
    have "qGet (read_tasks s) = Some (read_tasks s, None)"
      using assms(1,4) by (simp add: phases_def qGet_def)
    from mv [OF r_exit [OF assms(3) i AtGet this]] upd [of Gone] AtGet show ?thesis by simp
  next
    case Parked
    have "closed (read_tasks s)" using assms(1,4) by (simp add: phases_def)
    with assms(2) have "Parked \<notin> set (r_workers s)" by (simp add: sleepers_ok_def)
    with Parked i show ?thesis by (metis nth_mem)
  next
    case (Running t)
    obtain w' err where run: "qread undefined t = (w', err)" by force
    from mv [OF r_end [OF assms(3) i Running run]]
      upd [of "if reported err then Report t (the err) else AtRemove t"] Running
    show ?thesis by (simp split: if_splits)
  next
    case (Report t e)
    from mv [OF r_report [OF assms(3) i Report]] upd [of "AtRemove t"] Report show ?thesis by simp
  next
    case (AtRemove t)
    from mv [OF r_remove [OF assms(3) i AtRemove]] upd [of AtGet] AtRemove show ?thesis by simp
  qed (use assms(6) in simp)
qed

text \<open>A writer never stands before \<open>Remove\<close>.\<close>

definition writers_ok :: "'w sched \<Rightarrow> bool" where
  "writers_ok s \<longleftrightarrow> (\<forall>p \<in> set (w_workers s). \<forall>t. p \<noteq> AtRemove t)"

lemma writers_ok_step: "sched_step s s' \<Longrightarrow> writers_ok s \<Longrightarrow> writers_ok s'"
proof (induction rule: sched_step.induct)
  case (submit_read s t)
  then show ?case by (cases rule: submitReadTask_cases [of t s]) (simp_all add: writers_ok_def)
next
  case (submit_write s t q ok j ws)
  then show ?case using after_put_set [OF submit_write(3)] by (auto simp: writers_ok_def)
qed (auto simp: writers_ok_def broadcast_set dest!: set_update_subset_insert [THEN subsetD] split: if_splits)

lemma writers_ok_reach: "sched_reach r w s \<Longrightarrow> writers_ok s"
proof (induction rule: sched_reach.induct)
  case reach_init
  then show ?case by (auto simp: writers_ok_def sched_Start_def sched_Init_def)
qed (rule writers_ok_step)

lemma writer_step:
  assumes "phases s" and "sleepers_ok s" and "writers_ok s" and "\<not> crashed s" and "stopping s = 3"
    and i: "i < length (w_workers s)" and "w_workers s ! i \<noteq> Gone"
  shows "\<exists>s'. sched_step s s' \<and> moved s s'"
proof -
  have upd: "(w_workers s)[i := p] \<noteq> w_workers s" if "p \<noteq> w_workers s ! i" for p
    using that i by (metis nth_list_update_eq)
  have mv: "sched_step s s' \<Longrightarrow> w_workers s' \<noteq> w_workers s \<Longrightarrow> ?thesis" for s'
    by (auto simp: moved_def)
  show ?thesis
  proof (cases "w_workers s ! i")
    case AtGet
    have "qGet (write_tasks s) = Some (write_tasks s, None)"
      using assms(1,5) by (simp add: phases_def qGet_def)
    from mv [OF w_exit [OF assms(4) i AtGet this]] upd [of Gone] AtGet show ?thesis by simp
  next
    case Parked
    have "closed (write_tasks s)" using assms(1,5) by (simp add: phases_def)
    with assms(2) have "Parked \<notin> set (w_workers s)" by (simp add: sleepers_ok_def)
    with Parked i show ?thesis by (metis nth_mem)
  next
    case (Running t)
    obtain w' err where run: "qwrite undefined t = (w', err)" by force
    from mv [OF w_end [OF assms(4) i Running run]]
      upd [of "if reported err then Report t (the err) else AtGet"] Running
    show ?thesis by (simp split: if_splits)
  next
    case (Report t e)
    from mv [OF w_report [OF assms(4) i Report]] upd [of AtGet] Report show ?thesis by simp
  next
    case (AtRemove t)
    with assms(3) i show ?thesis unfolding writers_ok_def by (metis nth_mem)
  qed (use assms(7) in simp)
qed

lemma stop_moves:
  assumes "phases s" and "sleepers_ok s" and "writers_ok s" and "\<not> crashed s" and "stopping s \<in> {2, 3}"
  shows "\<exists>s'. sched_step s s' \<and> moved s s'"
proof (cases "stopping s = 2")
  case True
  with stop_errors [OF assms(4)] show ?thesis
    by (intro exI [of _ "s\<lparr>errors_closed := True, stopping := 3\<rparr>"]) (simp add: moved_def)
next
  case False
  with assms(5) have 3: "stopping s = 3" by simp
  show ?thesis
  proof (cases "set (r_workers s) \<subseteq> {Gone} \<and> set (w_workers s) \<subseteq> {Gone}")
    case True
    with stop_joined [OF assms(4) 3] 3 show ?thesis
      by (intro exI [of _ "s\<lparr>stopping := 4\<rparr>"]) (simp add: moved_def)
  next
    case False
    then have "(\<exists>i < length (r_workers s). r_workers s ! i \<noteq> Gone) \<or>
        (\<exists>i < length (w_workers s). w_workers s ! i \<noteq> Gone)"
      by (auto simp: set_conv_nth)
    with reader_step writer_step assms(1-4) 3 show ?thesis by metis
  qed
qed

text \<open>A run of the program: it may stutter, and as long as a worker or \<open>Stop\<close> can move, sooner or
  later one of them does.\<close>

definition runs_on :: "(nat \<Rightarrow> 'w sched) \<Rightarrow> bool" where
  "runs_on f \<longleftrightarrow> (\<forall>k. f (Suc k) = f k \<or> sched_step (f k) (f (Suc k))) \<and>
     (\<forall>k. (\<exists>s'. sched_step (f k) s' \<and> moved (f k) s') \<longrightarrow> (\<exists>j\<ge>k. moved (f j) (f (Suc j))))"

definition stopped :: "'w sched \<Rightarrow> bool" where
  "stopped s \<longleftrightarrow> stopping s = 4 \<and> set (r_workers s) \<subseteq> {Gone} \<and> set (w_workers s) \<subseteq> {Gone}"

lemma runs_on_reach:
  assumes "runs_on f" and "sched_reach r w (f 0)"
  shows "sched_reach r w (f k)"
proof (induction k)
  case (Suc k)
  with assms(1) show ?case unfolding runs_on_def by (metis reach_step)
qed (rule assms(2))

lemma runs_on_togo:
  assumes "runs_on f" and "sched_reach r w (f 0)" and "2 \<le> stopping (f 0)"
  shows "2 \<le> stopping (f k)" and "moved (f k) (f (Suc k)) \<Longrightarrow> togo (f (Suc k)) < togo (f k)"
    and "j \<le> k \<Longrightarrow> togo (f k) \<le> togo (f j)"
proof -
  have ph: "phases (f k)" for k using sched_inv_reach [OF runs_on_reach [OF assms(1,2)]] by blast
  have step: "f (Suc k) = f k \<or> sched_step (f k) (f (Suc k))" for k
    using assms(1) by (simp add: runs_on_def)
  have two: "2 \<le> stopping (f k)" for k
  proof (induction k)
    case (Suc k)
    then show ?case using step [of k] togo_step [OF _ ph] by metis
  qed (rule assms(3))
  then show "2 \<le> stopping (f k)" .
  have less: "moved (f k) (f (Suc k)) \<Longrightarrow> togo (f (Suc k)) < togo (f k)" for k
    using step [of k] togo_step [OF _ ph two, of k "f (Suc k)"] by (auto simp: moved_def)
  then show "moved (f k) (f (Suc k)) \<Longrightarrow> togo (f (Suc k)) < togo (f k)" .
  have "togo (f (Suc k)) \<le> togo (f k)" for k
    using step [of k] togo_step [OF _ ph two, of k "f (Suc k)"] by (auto split: if_splits)
  then show "j \<le> k \<Longrightarrow> togo (f k) \<le> togo (f j)" by (rule lift_Suc_antimono_le)
qed

lemma runs_on_stops:
  assumes "runs_on f" and "sched_reach r w (f 0)" and "2 \<le> stopping (f 0)"
  shows "\<exists>j\<ge>k. crashed (f j) \<or> stopped (f j)"
proof (induction "togo (f k)" arbitrary: k rule: less_induct)
  case less
  have reach: "sched_reach r w (f k)" by (rule runs_on_reach [OF assms(1,2)])
  have ph: "phases (f k)" using sched_inv_reach [OF reach] by blast
  have le: "stopping (f k) \<le> 4" by (rule stopping_le [OF reach])
  show ?case
  proof (cases "crashed (f k) \<or> stopping (f k) = 4")
    case True
    with ph have "crashed (f k) \<or> stopped (f k)" by (auto simp: phases_def stopped_def)
    then show ?thesis by blast
  next
    case False
    then have "stopping (f k) \<in> {2, 3}" using runs_on_togo(1) [OF assms, of k] le by auto
    with stop_moves [OF ph sleepers_ok_reach [OF reach] writers_ok_reach [OF reach]] False
    obtain j where j: "j \<ge> k" "moved (f j) (f (Suc j))" using assms(1) unfolding runs_on_def by blast
    then have "togo (f (Suc j)) < togo (f k)"
      using runs_on_togo(2,3) [OF assms] by (meson order_less_le_trans)
    from less(1) [OF this] j(1) show ?thesis by (meson Suc_leD order_trans)
  qed
qed

section \<open>Properties\<close>

text \<open>C5: At any time and in any interleaving, a read task's id is on its way at most once: submitted,
  queued, or with exactly one reader.  While the scheduler is not stopped the set of running ids is
  exact, so a submission is dropped only when a task of its id is on its way.\<close>
theorem one_reader_per_task:
  assumes "sched_reach r w s"
  shows "on_way s i \<le> 1 \<and>
    (j < k \<and> k < length (r_workers s) \<and> holds i (r_workers s ! j) \<longrightarrow> \<not> holds i (r_workers s ! k)) \<and>
    (stopping s = 0 \<longrightarrow> (i \<in> set_buffer (running_read_tasks s) \<longleftrightarrow> on_way s i = 1))"
proof -
  have inv: "dedup s" "phases s" using sched_inv_reach [OF assms] by simp_all
  have le: "on_way s i \<le> 1"
    using dedupD(1) [OF inv(1), of i] by (rule order_trans) simp
  have "\<not> holds i (r_workers s ! k)"
    if jk: "j < k" "k < length (r_workers s)" and h: "holds i (r_workers s ! j)"
  proof
    assume "holds i (r_workers s ! k)"
    then have "{j, k} \<subseteq> {x. x < length (r_workers s) \<and> holds i (r_workers s ! x)}" using jk h by auto
    then have "card {j, k} \<le> n_of (holds i) (r_workers s)"
      unfolding n_of_def length_filter_conv_card by (intro card_mono) auto
    with jk(1) le show False by (simp add: on_way_def)
  qed
  moreover have "i \<in> set_buffer (running_read_tasks s) \<longleftrightarrow> on_way s i = 1" if "stopping s = 0"
    using dedupD(2) [OF inv(1), of i] inv(2) that by (simp add: phases_def)
  ultimately show ?thesis using le by blast
qed

text \<open>A task for the witnesses, whose \<open>read\<close> fails.\<close>

definition failing_task :: "string \<Rightarrow> unit task" where
  "failing_task i = \<lparr>taskId = i, connectAndPrepare = (\<lambda>w. (w, None)),
     perform = (\<lambda>w. (w, Some (GoError ''refused''))), closeTask = id\<rparr>"

lemma reach_running:
  "\<exists>s. sched_reach 1 0 s \<and> r_workers s = [Running (failing_task ''a'')] \<and> stopping s = 0 \<and> \<not> crashed s \<and>
     set_buffer (running_read_tasks s) = {''a''} \<and> \<not> errors_closed s"
proof -
  let ?t = "failing_task ''a''" and ?s0 = "sched_Start 1 0 sched_Init :: unit sched"
  let ?s1 = "submitReadTask ?s0 ?t"
  let ?s2 = "?s1\<lparr>pending := [], read_tasks := \<lparr>max_size = - 1, closed = False, elems = [?t]\<rparr>\<rparr>"
  let ?s3 = "?s2\<lparr>read_tasks := \<lparr>max_size = - 1, closed = False, elems = []\<rparr>, r_workers := [Running ?t]\<rparr>"
  note init = sched_Start_def sched_Init_def NewUnboundedBlockingQueue_def NewBoundedBlockingQueue_def NewSyncSet_def
    submitReadTask_def set_Insert_def
  have "sched_step ?s0 ?s1" by (rule submit_read) (simp add: init)
  moreover have "sched_step ?s1 ?s2"
    using submit_put [of ?s1 "[]" ?t "[]" "\<lparr>max_size = - 1, closed = False, elems = [?t]\<rparr>" True]
    by (simp add: init qPut_def isFull_def after_put_def signal_def)
  moreover have "sched_step ?s2 ?s3"
    using r_get [of ?s2 0 "\<lparr>max_size = - 1, closed = False, elems = []\<rparr>" ?t]
    by (simp add: init qGet_def)
  ultimately have "sched_reach 1 0 ?s3" by (meson reach_init reach_step)
  then show ?thesis by (intro exI [of _ ?s3]) (simp add: init failing_task_def)
qed

lemma one_reader_per_task_witness:
  "\<exists>s. sched_reach 1 0 s \<and> r_workers s = [Running (failing_task ''a'')] \<and> on_way s ''a'' = 1 \<and> on_way s ''b'' = 0"
proof -
  obtain s where s: "sched_reach 1 0 s" "r_workers s = [Running (failing_task ''a'')]" "stopping s = 0"
    "set_buffer (running_read_tasks s) = {''a''}"
    using reach_running by blast
  have "on_way s ''a'' = 1" using one_reader_per_task [OF s(1), of "''a''"] s(3,4) by simp
  moreover have "on_way s ''b'' = 0"
    using one_reader_per_task [OF s(1), of "''b''"] s(3,4) by (cases "on_way s ''b''") auto
  ultimately show ?thesis using s by blast
qed

text \<open>C28: The channel of errors never holds more than its capacity, and the process does not panic
  on it before \<open>Stop\<close> has closed it; but once it is closed a worker that still has an error to
  report panics: \<open>Stop\<close> closes the channel before it waits for the workers.\<close>
theorem closed_channel_panic:
  assumes "sched_reach r w s"
  shows "length (errors s) \<le> MAX_ERRORS \<and> (crashed s \<longrightarrow> stopping s \<ge> 3) \<and>
    (stopping s = 3 \<and> \<not> crashed s \<and> i < length (r_workers s) \<and> r_workers s ! i = Report t e \<longrightarrow>
      (\<exists>s'. sched_step s s' \<and> crashed s'))"
proof -
  have ph: "phases s" using sched_inv_reach [OF assms] by simp
  have "\<exists>s'. sched_step s s' \<and> crashed s'"
    if "stopping s = 3" "\<not> crashed s" "i < length (r_workers s)" "r_workers s ! i = Report t e"
    using r_report [OF that(2-4)] ph that(1)
    by (intro exI conjI) (assumption, simp add: phases_def submitError_crashed)
  with ph show ?thesis by (auto simp: phases_def)
qed

lemma closed_channel_panic_witness:
  "\<exists>s s' :: unit sched. sched_reach 1 0 s \<and> stopping s = 3 \<and> sched_step s s' \<and> crashed s'"
proof -
  let ?t = "failing_task ''a''"
  obtain s :: "unit sched" where s: "sched_reach 1 0 s" "r_workers s = [Running ?t]" "stopping s = 0" "\<not> crashed s"
    using reach_running by blast
  let ?s1 = "s\<lparr>r_workers := [Report ?t (GoError ''refused'')]\<rparr>"
  let ?s2 = "?s1\<lparr>read_tasks := qClose (read_tasks ?s1) True, r_workers := broadcast wake_worker (r_workers ?s1),
    stopping := 1\<rparr>"
  let ?s3 = "?s2\<lparr>write_tasks := qClose (write_tasks ?s2) True, w_workers := broadcast wake_worker (w_workers ?s2),
    stopping := 2\<rparr>"
  let ?s4 = "?s3\<lparr>errors_closed := True, stopping := 3\<rparr>"
  have "qread () ?t = ((), Some (GoError ''refused''))"
    by (simp add: qread_def failing_task_def)
  from r_end [OF s(4) _ _ this, of 0] have "sched_step s ?s1" using s(2) by (simp add: reported_def)
  moreover have "sched_step ?s1 ?s2" by (rule stop_read) (simp_all add: s)
  moreover have "sched_step ?s2 ?s3" by (rule stop_write) (simp_all add: s)
  moreover have "sched_step ?s3 ?s4" by (rule stop_errors) (simp_all add: s)
  ultimately have reach: "sched_reach 1 0 ?s4" using s(1) by (meson reach_step)
  have "\<exists>s'. sched_step ?s4 s' \<and> crashed s'"
    using closed_channel_panic [OF reach, of 0 ?t "GoError ''refused''"] s(4) by simp
  with reach show ?thesis by fastforce
qed

text \<open>C29: Once \<open>Stop\<close> has closed the queues it returns, with every worker gone, unless a worker
  panics on the closed channel of errors: in every run in which, as long as a worker or \<open>Stop\<close> can
  take a step, one of them sooner or later does (so every task that runs ends sometime).  No worker
  sleeps for ever on a closed queue, and submissions cannot keep the workers going.\<close>
theorem stop_completes:
  assumes "sched_reach r w (f 0)" and "2 \<le> stopping (f 0)" and "runs_on f"
  shows "\<exists>k. crashed (f k) \<or>
    (stopping (f k) = 4 \<and> set (r_workers (f k)) \<subseteq> {Gone} \<and> set (w_workers (f k)) \<subseteq> {Gone})"
  using runs_on_stops [OF assms(3,1,2), of 0] by (auto simp: stopped_def)

text \<open>A run in which a sleeping worker is woken by \<open>Close\<close>, sees the closed queue and leaves.\<close>

lemma stop_completes_witness:
  "\<exists>s s' (f :: nat \<Rightarrow> unit sched). sched_reach 1 0 s \<and> r_workers s = [Parked] \<and> stopping s = 0 \<and>
     sched_step s s' \<and> sched_step s' (f 0) \<and> runs_on f \<and>
     (\<exists>k. stopping (f k) = 4 \<and> set (r_workers (f k)) \<subseteq> {Gone})"
proof -
  let ?q = "\<lparr>max_size = - 1, closed = False, elems = []\<rparr> :: unit task bqueue"
  let ?c = "\<lparr>max_size = - 1, closed = True, elems = []\<rparr> :: unit task bqueue"
  define st where "st = (\<lambda>r w n ws. \<lparr>read_tasks = r, write_tasks = w, running_read_tasks = NewSyncSet, errors = [],
    errors_closed = (3 \<le> n), pending = [], r_workers = ws, w_workers = [], stopping = n, crashed = False\<rparr> :: unit sched)"
  define f where "f = (\<lambda>k :: nat. if k = 0 then st ?c ?c 2 [AtGet] else if k = 1 then st ?c ?c 3 [AtGet]
    else if k = 2 then st ?c ?c 3 [Gone] else st ?c ?c 4 [Gone])"
  have init: "st ?q ?q 0 [AtGet] = sched_Start 1 0 sched_Init"
    by (simp add: st_def sched_Start_def sched_Init_def NewUnboundedBlockingQueue_def NewBoundedBlockingQueue_def)
  have a: "sched_step (st ?q ?q 0 [AtGet]) (st ?q ?q 0 [Parked])"
    using r_park [of "st ?q ?q 0 [AtGet]" 0] by (simp add: st_def qGet_def)
  have b: "sched_step (st ?q ?q 0 [Parked]) (st ?c ?q 1 [AtGet])"
    using stop_read [of "st ?q ?q 0 [Parked]"] by (simp add: st_def qClose_def)
  have c: "sched_step (st ?c ?q 1 [AtGet]) (f 0)"
    using stop_write [of "st ?c ?q 1 [AtGet]"] by (simp add: st_def f_def qClose_def)
  have d: "sched_step (f 0) (f 1)"
    using stop_errors [of "f 0"] by (simp add: st_def f_def)
  have e: "sched_step (f 1) (f 2)"
    using r_exit [of "f 1" 0 ?c] by (simp add: st_def f_def qGet_def)
  have g: "sched_step (f 2) (f 3)"
    using stop_joined [of "f 2"] by (simp add: st_def f_def)
  have reach: "sched_reach 1 0 (st ?q ?q 0 [Parked])" by (rule reach_step [OF reach_init a [unfolded init]])
  then have reach0: "sched_reach 1 0 (f 0)" using b c by (meson reach_step)
  have moves: "moved (f k) (f (Suc k)) \<and> sched_step (f k) (f (Suc k))" if "k < 3" for k
  proof -
    from that consider "k = 0" | "k = 1" | "k = 2" by linarith
    then show ?thesis using d e g by cases (auto simp: moved_def f_def st_def numeral_3_eq_3 numeral_2_eq_2)
  qed
  have final: "f k = st ?c ?c 4 [Gone]" if "3 \<le> k" for k using that by (simp add: f_def)
  have "sched_reach 1 0 (st ?c ?c 4 [Gone])"
    using reach0 d e g final [of 3] by (metis reach_step order_refl)
  then have "\<not> moved (st ?c ?c 4 [Gone]) s'" if "sched_step (st ?c ?c 4 [Gone]) s'" for s'
    using that togo_step [OF that] sched_inv_reach [of 1 0 "st ?c ?c 4 [Gone]"]
    by (auto simp: togo_def work_def st_def split: if_splits)
  then have "runs_on f" unfolding runs_on_def by (metis final moves le_Suc_eq linorder_not_less order_refl)
  moreover have "\<exists>k. stopping (f k) = 4 \<and> set (r_workers (f k)) \<subseteq> {Gone}"
    using stop_completes [OF reach0 _ calculation] by (auto simp: f_def st_def split: if_splits)
  moreover have "r_workers (st ?q ?q 0 [Parked]) = [Parked]" "stopping (st ?q ?q 0 [Parked]) = 0"
    by (simp_all add: st_def)
  ultimately show ?thesis using reach b c by blast
qed

end
