(* ===== verification/Json.thy ===== *)
theory Json
  imports GoStrings "HOL-Library.List_Lexorder" "HOL-Library.Char_ord"
begin

text \<open>
  \<open>encoding/json\<close> as far as the code uses it: the values, \<open>Marshal\<close>'s compact text, the parser
  behind \<open>Unmarshal\<close>, and how \<open>Unmarshal\<close> fills a struct.

  Bytes from 0x80 on are copied by both, which is what the library does with valid UTF-8; the
  round trip is stated for ASCII strings.  A number keeps its literal.  The parser is fuelled; twice
  the length of the text is enough, as \<open>parse_fuel\<close> shows.
\<close>

datatype json = JNull | JBool bool | JNum string | JStr string | JArr "json list" | JObj "(string \<times> json) list"

section \<open>Marshal\<close>

abbreviation backslash :: char where "backslash \<equiv> CHR 0x5C"

definition hex_digit :: "nat \<Rightarrow> char" where
  "hex_digit n = char_of (if n < 10 then 48 + n else 87 + n)"

definition esc_char :: "char \<Rightarrow> string" where
  "esc_char c = (let k = of_char c :: nat in
     if c = quote \<or> c = backslash then [backslash, c]
     else if k = 10 then [backslash, CHR ''n'']
     else if k = 13 then [backslash, CHR ''r'']
     else if k = 9 then [backslash, CHR ''t'']
     else if k < 32 \<or> c = CHR ''<'' \<or> c = CHR ''>'' \<or> c = CHR ''&''
       then [backslash, CHR ''u'', CHR ''0'', CHR ''0'', hex_digit (k div 16), hex_digit (k mod 16)]
     else [c])"

definition print_string :: "string \<Rightarrow> string" where
  "print_string s = [quote] @ concat (map esc_char s) @ [quote]"

fun json_print :: "json \<Rightarrow> string" where
  "json_print JNull = ''null''"
| "json_print (JBool True) = ''true''"
| "json_print (JBool False) = ''false''"
| "json_print (JNum n) = n"
| "json_print (JStr s) = print_string s"
| "json_print (JArr js) = ''['' @ Join '','' (map json_print js) @ '']''"
| "json_print (JObj ms) = ''{'' @ Join '','' (map (\<lambda>(k, v). print_string k @ '':'' @ json_print v) ms) @ ''}''"

section \<open>The parser\<close>

definition is_space :: "char \<Rightarrow> bool" where
  "is_space c \<longleftrightarrow> c = CHR '' '' \<or> c = CHR 0x09 \<or> c = CHR 0x0A \<or> c = CHR 0x0D"

abbreviation skip :: "string \<Rightarrow> string" where
  "skip \<equiv> dropWhile is_space"

definition hex_val :: "char \<Rightarrow> nat option" where
  "hex_val c = (let k = of_char c in
     if (48::nat) \<le> k \<and> k \<le> 57 then Some (k - 48)
     else if 97 \<le> k \<and> k \<le> 102 then Some (k - 87)
     else if 65 \<le> k \<and> k \<le> 70 then Some (k - 55) else None)"

definition hex4 :: "char \<Rightarrow> char \<Rightarrow> char \<Rightarrow> char \<Rightarrow> nat option" where
  "hex4 a b c d = (case (hex_val a, hex_val b, hex_val c, hex_val d) of
     (Some x, Some y, Some z, Some w) \<Rightarrow> Some (x * 4096 + y * 256 + z * 16 + w)
   | _ \<Rightarrow> None)"

definition utf8 :: "nat \<Rightarrow> string" where
  "utf8 n =
     (if n < 128 then [char_of n]
      else if n < 2048 then [char_of (192 + n div 64), char_of (128 + n mod 64)]
      else if n < 65536 then [char_of (224 + n div 4096), char_of (128 + n div 64 mod 64), char_of (128 + n mod 64)]
      else [char_of (240 + n div 262144), char_of (128 + n div 4096 mod 64),
            char_of (128 + n div 64 mod 64), char_of (128 + n mod 64)])"

definition unesc_char :: "char \<Rightarrow> char option" where
  "unesc_char e =
     (if e = quote \<or> e = backslash \<or> e = CHR ''/'' then Some e
      else if e = CHR ''b'' then Some (CHR 0x08)
      else if e = CHR ''f'' then Some (CHR 0x0C)
      else if e = CHR ''n'' then Some (CHR 0x0A)
      else if e = CHR ''r'' then Some (CHR 0x0D)
      else if e = CHR ''t'' then Some (CHR 0x09)
      else None)"

definition utf16 :: "nat \<Rightarrow> nat \<Rightarrow> nat option" where
  "utf16 hi lo = (if 0xD800 \<le> hi \<and> hi < 0xDC00 \<and> 0xDC00 \<le> lo \<and> lo < 0xE000
     then Some ((hi - 0xD800) * 1024 + (lo - 0xDC00) + 0x10000) else None)"

text \<open>What follows a backslash, decoded, and the text behind it.\<close>

definition low_half :: "string \<Rightarrow> (nat \<times> string) option" where
  "low_half s = (case s of
     b # u # l1 # l2 # l3 # l4 # r \<Rightarrow>
       if b = backslash \<and> u = CHR ''u'' then map_option (\<lambda>lo. (lo, r)) (hex4 l1 l2 l3 l4) else None
   | _ \<Rightarrow> None)"

definition u_escape :: "string \<Rightarrow> (string \<times> string) option" where
  "u_escape s = (case s of
     h1 # h2 # h3 # h4 # r \<Rightarrow>
       (case hex4 h1 h2 h3 h4 of
          None \<Rightarrow> None
        | Some n \<Rightarrow>
            if 0xD800 \<le> n \<and> n < 0xE000 then
              (case low_half r of
                 None \<Rightarrow> Some (utf8 0xFFFD, r)
               | Some (lo, r') \<Rightarrow>
                   (case utf16 n lo of Some m \<Rightarrow> Some (utf8 m, r') | None \<Rightarrow> Some (utf8 0xFFFD, r)))
            else Some (utf8 n, r))
   | _ \<Rightarrow> None)"

definition escape :: "string \<Rightarrow> (string \<times> string) option" where
  "escape s = (case s of
     [] \<Rightarrow> None
   | e # r \<Rightarrow> if e = CHR ''u'' then u_escape r else map_option (\<lambda>x. ([x], r)) (unesc_char e))"

lemma low_half_length: "low_half s = Some (n, r) \<Longrightarrow> length r < length s"
  by (auto simp: low_half_def split: list.splits if_splits)

lemma escape_length: "escape s = Some (x, r) \<Longrightarrow> length r < length s"
  by (auto simp: escape_def u_escape_def split: list.splits if_splits option.splits dest!: low_half_length)

text \<open>The rest of a string literal, after its opening quote.\<close>

function str_body :: "string \<Rightarrow> (string \<times> string) option" where
  "str_body [] = None"
| "str_body (c # cs) =
     (if c = quote then Some ([], cs)
      else if c = backslash then
        (case escape cs of
           None \<Rightarrow> None
         | Some (x, r) \<Rightarrow> map_option (apfst ((@) x)) (str_body r))
      else if of_char c < (32::nat) then None
      else map_option (apfst ((#) c)) (str_body cs))"
  by pat_completeness auto
termination
  by (relation "measure length") (auto dest: escape_length)

lemma str_body_length: "str_body s = Some (x, r) \<Longrightarrow> length r < length s"
proof (induction s arbitrary: x r rule: str_body.induct)
  case (2 c cs)
  then show ?case
    using escape_length [of cs]
    by (fastforce split: if_splits option.splits prod.splits simp: apfst_def map_prod_def)
qed simp

definition num_char :: "char \<Rightarrow> bool" where
  "num_char c \<longleftrightarrow> digit_val c \<noteq> None \<or> c \<in> {CHR ''+'', CHR ''-'', CHR ''.'', CHR ''e'', CHR ''E''}"

abbreviation is_digit :: "char \<Rightarrow> bool" where
  "is_digit c \<equiv> digit_val c \<noteq> None"

definition exp_ok :: "string \<Rightarrow> bool" where
  "exp_ok s \<longleftrightarrow> (case s of
     [] \<Rightarrow> True
   | e # r \<Rightarrow> (e = CHR ''e'' \<or> e = CHR ''E'') \<and>
       (let r = (case r of [] \<Rightarrow> [] | c # r' \<Rightarrow> if c = CHR ''+'' \<or> c = CHR ''-'' then r' else r)
        in r \<noteq> [] \<and> list_all is_digit r))"

definition is_number :: "string \<Rightarrow> bool" where
  "is_number s \<longleftrightarrow>
     (let r = (case s of [] \<Rightarrow> [] | c # r \<Rightarrow> if c = CHR ''-'' then r else s);
          ip = takeWhile is_digit r; r = dropWhile is_digit r in
      ip \<noteq> [] \<and> (hd ip = CHR ''0'' \<longrightarrow> length ip = 1) \<and>
      (case r of
         [] \<Rightarrow> True
       | c # r' \<Rightarrow>
           if c = CHR ''.'' then takeWhile is_digit r' \<noteq> [] \<and> exp_ok (dropWhile is_digit r')
           else exp_ok r))"

definition cut :: "string \<Rightarrow> string \<Rightarrow> string option" where
  "cut p s = (if HasPrefix s p then Some (drop (length p) s) else None)"

fun parse_val :: "nat \<Rightarrow> string \<Rightarrow> (json \<times> string) option"
  and parse_elems :: "nat \<Rightarrow> string \<Rightarrow> (json list \<times> string) option"
  and parse_members :: "nat \<Rightarrow> string \<Rightarrow> ((string \<times> json) list \<times> string) option" where
  "parse_val 0 s = None"
| "parse_val (Suc n) s = (case skip s of
     [] \<Rightarrow> None
   | c # cs \<Rightarrow>
       if c = quote then map_option (apfst JStr) (str_body cs)
       else if c = CHR ''['' then
         (case skip cs of
            [] \<Rightarrow> None
          | d # r \<Rightarrow> if d = CHR '']'' then Some (JArr [], r) else map_option (apfst JArr) (parse_elems n cs))
       else if c = CHR ''{'' then
         (case skip cs of
            [] \<Rightarrow> None
          | d # r \<Rightarrow> if d = CHR ''}'' then Some (JObj [], r) else map_option (apfst JObj) (parse_members n cs))
       else if num_char c then
         (let tok = takeWhile num_char (c # cs) in
          if is_number tok then Some (JNum tok, dropWhile num_char (c # cs)) else None)
       else
         (case cut ''null'' (c # cs) of Some r \<Rightarrow> Some (JNull, r)
          | None \<Rightarrow> (case cut ''true'' (c # cs) of Some r \<Rightarrow> Some (JBool True, r)
          | None \<Rightarrow> map_option (Pair (JBool False)) (cut ''false'' (c # cs)))))"
| "parse_elems 0 s = None"
| "parse_elems (Suc n) s = (case parse_val n s of
     None \<Rightarrow> None
   | Some (v, r) \<Rightarrow> (case skip r of
       [] \<Rightarrow> None
     | c # r' \<Rightarrow>
         if c = CHR '','' then map_option (apfst ((#) v)) (parse_elems n r')
         else if c = CHR '']'' then Some ([v], r')
         else None))"
| "parse_members 0 s = None"
| "parse_members (Suc n) s = (case skip s of
     [] \<Rightarrow> None
   | q # cs \<Rightarrow> if q \<noteq> quote then None else
       (case str_body cs of
          None \<Rightarrow> None
        | Some (k, r) \<Rightarrow> (case skip r of
            [] \<Rightarrow> None
          | c # r' \<Rightarrow> if c \<noteq> CHR '':'' then None else
              (case parse_val n r' of
                 None \<Rightarrow> None
               | Some (v, r'') \<Rightarrow> (case skip r'' of
                   [] \<Rightarrow> None
                 | d # t \<Rightarrow>
                     if d = CHR '','' then map_option (apfst ((#) (k, v))) (parse_members n t)
                     else if d = CHR ''}'' then Some ([(k, v)], t)
                     else None)))))"

definition json_parse :: "string \<Rightarrow> json option" where
  "json_parse s = (case parse_val (2 * length s) s of
     None \<Rightarrow> None
   | Some (v, r) \<Rightarrow> if skip r = [] then Some v else None)"


section \<open>What is printed is parsed\<close>

definition ascii :: "string \<Rightarrow> bool" where
  "ascii s \<longleftrightarrow> list_all (\<lambda>c. of_char c < (128::nat)) s"

fun json_ok :: "json \<Rightarrow> bool" where
  "json_ok (JNum n) \<longleftrightarrow> is_number n \<and> list_all num_char n"
| "json_ok (JStr s) \<longleftrightarrow> ascii s"
| "json_ok (JArr js) \<longleftrightarrow> list_all json_ok js"
| "json_ok (JObj ms) \<longleftrightarrow> list_all (\<lambda>(k, v). ascii k \<and> json_ok v) ms"
| "json_ok _ \<longleftrightarrow> True"

lemma hex_val_digit [simp]: "n < 16 \<Longrightarrow> hex_val (hex_digit n) = Some n"
  by (simp add: hex_val_def hex_digit_def Let_def)

lemma str_body_hex:
  assumes "k < 128"
  shows "str_body (backslash # CHR ''u'' # CHR ''0'' # CHR ''0'' # hex_digit (k div 16) # hex_digit (k mod 16) # rest)
    = map_option (apfst ((#) (char_of k))) (str_body rest)"
proof -
  have "hex_val (CHR ''0'') = Some 0" by (simp add: hex_val_def)
  then have "hex4 (CHR ''0'') (CHR ''0'') (hex_digit (k div 16)) (hex_digit (k mod 16)) = Some k"
    using assms by (simp add: hex4_def)
  then have "escape (CHR ''u'' # CHR ''0'' # CHR ''0'' # hex_digit (k div 16) # hex_digit (k mod 16) # rest)
      = Some ([char_of k], rest)"
    using assms by (simp add: escape_def u_escape_def utf8_def)
  then show ?thesis by (simp add: apfst_def map_prod_def)
qed

lemma char_of_controls:
  "char_of (9::nat) = CHR 0x09" "char_of (10::nat) = CHR 0x0A" "char_of (13::nat) = CHR 0x0D"
  by (simp_all add: char_of_def bit_0)

lemma str_body_esc:
  assumes "of_char c < (128::nat)"
  shows "str_body (esc_char c @ rest) = map_option (apfst ((#) c)) (str_body rest)"
proof -
  define k :: nat where "k = of_char c"
  then have c: "c = char_of k" and k: "k < 128" using assms by simp_all
  consider "c = quote \<or> c = backslash" | "k = 10" | "k = 13" | "k = 9"
    | "c \<noteq> quote" "c \<noteq> backslash" "k \<notin> {9, 10, 13}"
        "k < 32 \<or> c = CHR ''<'' \<or> c = CHR ''>'' \<or> c = CHR ''&''"
    | "c \<noteq> quote" "c \<noteq> backslash" "k \<notin> {9, 10, 13}"
        "\<not> (k < 32 \<or> c = CHR ''<'' \<or> c = CHR ''>'' \<or> c = CHR ''&'')"
    by blast
  then show ?thesis
  proof cases
    case 1
    then show ?thesis by (auto simp: esc_char_def escape_def unesc_char_def apfst_def map_prod_def)
  next
    case 5
    then have "esc_char c = [backslash, CHR ''u'', CHR ''0'', CHR ''0'', hex_digit (k div 16), hex_digit (k mod 16)]"
      by (simp add: esc_char_def k_def Let_def)
    then show ?thesis using str_body_hex [OF k, of rest] c by simp
  next
    case 6
    then have "esc_char c = [c]" by (simp add: esc_char_def k_def Let_def)
    with 6 show ?thesis by (simp add: k_def)
  qed (use c in \<open>simp_all add: esc_char_def escape_def unesc_char_def char_of_controls apfst_def map_prod_def\<close>)
qed

lemma str_body_print:
  "ascii s \<Longrightarrow> str_body (concat (map esc_char s) @ quote # rest) = Some (s, rest)"
proof (induction s)
  case (Cons c s)
  then show ?case by (simp add: ascii_def str_body_esc)
qed simp


text \<open>No printed value starts with a space or with a closing bracket.\<close>

definition starts :: "string \<Rightarrow> bool" where
  "starts s \<longleftrightarrow> (case s of [] \<Rightarrow> False | c # _ \<Rightarrow> \<not> is_space c \<and> c \<noteq> CHR '']'' \<and> c \<noteq> CHR ''}'')"

lemma startsE:
  assumes "starts s"
  obtains c cs where "s = c # cs" and "\<not> is_space c" and "c \<noteq> CHR '']''" and "c \<noteq> CHR ''}''"
  using assms by (cases s) (auto simp: starts_def)

lemma starts_append [simp]: "starts s \<Longrightarrow> starts (s @ t)"
  by (cases s) (simp_all add: starts_def)

lemma skip_starts [simp]: "starts s \<Longrightarrow> skip s = s"
  by (cases s) (simp_all add: starts_def)

lemma starts_not_Nil: "starts s \<Longrightarrow> s \<noteq> []"
  by (cases s) (simp_all add: starts_def)

lemma num_char_plain:
  "num_char c \<Longrightarrow> \<not> is_space c \<and> c \<notin> {CHR '']'', CHR ''}'', CHR ''['', CHR ''{'', quote, CHR ''n'', CHR ''t'', CHR ''f''}"
  by (auto simp: num_char_def is_space_def digit_val_def Let_def split: if_splits)

lemma is_number_not_Nil: "is_number s \<Longrightarrow> s \<noteq> []"
  by (auto simp: is_number_def)

lemma starts_print_string [simp]: "starts (print_string s)"
  by (simp add: starts_def print_string_def is_space_def)

lemma starts_json_print [simp]: "json_ok j \<Longrightarrow> starts (json_print j)"
proof (cases j)
  case (JNum n)
  moreover assume "json_ok j"
  ultimately obtain c cs where "n = c # cs" "num_char c" using is_number_not_Nil by (cases n) auto
  with JNum show ?thesis using num_char_plain [of c] by (simp add: starts_def)
next
  case (JBool b)
  then show ?thesis by (cases b) (simp_all add: starts_def is_space_def)
next
  case (JStr s)
  then show ?thesis by simp
qed (simp_all add: starts_def is_space_def)

lemma starts_Join:
  "xs \<noteq> [] \<Longrightarrow> starts (hd xs) \<Longrightarrow> starts (Join sep xs)"
  by (cases xs) (auto simp: Join_Cons)

definition delim :: "string \<Rightarrow> bool" where
  "delim s \<longleftrightarrow> (case s of [] \<Rightarrow> True | c # _ \<Rightarrow> \<not> num_char c)"

lemma delim_simps [simp]:
  "delim []" "delim (CHR '','' # s)" "delim (CHR '']'' # s)" "delim (CHR ''}'' # s)"
  by (simp_all add: delim_def num_char_def digit_val_def)

lemma num_token:
  assumes "list_all num_char n" and "delim rest"
  shows "takeWhile num_char (n @ rest) = n" and "dropWhile num_char (n @ rest) = rest"
proof -
  have "takeWhile num_char rest = []" and "dropWhile num_char rest = rest"
    using assms(2) by (cases rest; simp add: delim_def)+
  moreover have "\<And>x. x \<in> set n \<Longrightarrow> num_char x" using assms(1) by (simp add: list_all_iff)
  ultimately show "takeWhile num_char (n @ rest) = n" and "dropWhile num_char (n @ rest) = rest"
    by simp_all
qed

lemma parse_string:
  "ascii s \<Longrightarrow> parse_val (Suc n) (print_string s @ rest) = Some (JStr s, rest)"
  by (simp add: print_string_def is_space_def str_body_print)

lemma parse_number:
  assumes "is_number tok" and "list_all num_char tok" and "delim rest"
  shows "parse_val (Suc n) (tok @ rest) = Some (JNum tok, rest)"
proof -
  obtain c cs where tok: "tok = c # cs" and c: "num_char c"
    using is_number_not_Nil [OF assms(1)] assms(2) by (cases tok) auto
  note tw = num_token [OF assms(2,3)]
  show ?thesis
    using num_char_plain [OF c] c assms(1) tw unfolding tok by simp
qed

lemma parse_words:
  "parse_val (Suc n) (''null'' @ rest) = Some (JNull, rest)"
  "parse_val (Suc n) (''true'' @ rest) = Some (JBool True, rest)"
  "parse_val (Suc n) (''false'' @ rest) = Some (JBool False, rest)"
  by (simp_all add: is_space_def num_char_def digit_val_def cut_def HasPrefix_def)


text \<open>A list of values, and of members, each of which is parsed back.\<close>

lemma parse_elems_print:
  assumes "js \<noteq> []" and "list_all json_ok js"
    and "\<And>j n rest. j \<in> set js \<Longrightarrow> delim rest \<Longrightarrow> 2 * length (json_print j) \<le> n \<Longrightarrow>
      parse_val n (json_print j @ rest) = Some (j, rest)"
    and "2 * length (Join '','' (map json_print js)) + 1 \<le> n"
  shows "parse_elems n (Join '','' (map json_print js) @ CHR '']'' # rest) = Some (js, rest)"
  using assms
proof (induction js arbitrary: n)
  case (Cons j js)
  obtain m where n: "n = Suc m" using Cons.prems(4) by (cases n) simp_all
  have val: "delim r \<Longrightarrow> 2 * length (json_print j) \<le> m \<Longrightarrow> parse_val m (json_print j @ r) = Some (j, r)" for r
    using Cons.prems(3) by simp
  show ?case
  proof (cases "js = []")
    case True
    with Cons.prems(4) n val show ?thesis by (simp add: is_space_def)
  next
    case False
    have "parse_elems m (Join '','' (map json_print js) @ CHR '']'' # rest) = Some (js, rest)"
      using Cons.prems n False by (intro Cons.IH) (auto simp: Join_Cons)
    with Cons.prems(4) n val False show ?thesis by (simp add: is_space_def Join_Cons)
  qed
qed simp

definition print_member :: "string \<times> json \<Rightarrow> string" where
  "print_member m = print_string (fst m) @ '':'' @ json_print (snd m)"

lemma json_print_JObj: "json_print (JObj ms) = ''{'' @ Join '','' (map print_member ms) @ ''}''"
proof -
  have "map print_member ms = map (\<lambda>(k, v). print_string k @ '':'' @ json_print v) ms"
    by (simp add: print_member_def case_prod_beta')
  show ?thesis by (simp only: json_print.simps(7) \<open>map print_member ms = _\<close>)
qed

lemma starts_print_member [simp]: "starts (print_member m)"
  by (simp add: print_member_def)

lemma parse_members_print:
  assumes "ms \<noteq> []" and "list_all (\<lambda>m. ascii (fst m) \<and> json_ok (snd m)) ms"
    and "\<And>m n rest. m \<in> set ms \<Longrightarrow> delim rest \<Longrightarrow> 2 * length (json_print (snd m)) \<le> n \<Longrightarrow>
      parse_val n (json_print (snd m) @ rest) = Some (snd m, rest)"
    and "2 * length (Join '','' (map print_member ms)) + 1 \<le> n"
  shows "parse_members n (Join '','' (map print_member ms) @ CHR ''}'' # rest) = Some (ms, rest)"
  using assms
proof (induction ms arbitrary: n)
  case (Cons m ms)
  obtain k where n: "n = Suc k" using Cons.prems(4) by (cases n) simp_all
  have val: "delim r \<Longrightarrow> 2 * length (json_print (snd m)) \<le> k \<Longrightarrow>
      parse_val k (json_print (snd m) @ r) = Some (snd m, r)" for r
    using Cons.prems(3) by simp
  have m: "print_member m = quote # concat (map esc_char (fst m)) @ quote # CHR '':'' # json_print (snd m)"
    by (simp add: print_member_def print_string_def)
  have name: "str_body (concat (map esc_char (fst m)) @ quote # r) = Some (fst m, r)" for r
    using Cons.prems(2) by (simp add: str_body_print)
  show ?case
  proof (cases "ms = []")
    case True
    with Cons.prems(4) n val name show ?thesis
      by (simp add: m is_space_def)
  next
    case False
    have "parse_members k (Join '','' (map print_member ms) @ CHR ''}'' # rest) = Some (ms, rest)"
      using Cons.prems n False by (intro Cons.IH) (auto simp: Join_Cons)
    with Cons.prems(4) n val name False show ?thesis
      by (simp add: m is_space_def Join_Cons)
  qed
qed simp

lemma parse_val_print:
  "json_ok j \<Longrightarrow> delim rest \<Longrightarrow> 2 * length (json_print j) \<le> n \<Longrightarrow>
   parse_val n (json_print j @ rest) = Some (j, rest)"
proof (induction j arbitrary: n rest rule: json_print.induct)
  case (6 js)
  then obtain m where n: "n = Suc m" by (cases n) simp_all
  show ?case
  proof (cases "js = []")
    case True
    then show ?thesis by (simp add: n is_space_def)
  next
    case False
    let ?t = "Join '','' (map json_print js) @ CHR '']'' # rest"
    have "starts ?t"
      using False 6(2) by (intro starts_append starts_Join) (auto simp: list_all_iff hd_map)
    then obtain c cs where t: "?t = c # cs" "\<not> is_space c" "c \<noteq> CHR '']''" by (rule startsE)
    have "parse_elems m ?t = Some (js, rest)"
      using 6 n by (intro parse_elems_print [OF False]) (auto simp: list_all_iff)
    with t show ?thesis by (simp add: n is_space_def)
  qed
next
  case (7 ms)
  then obtain m where n: "n = Suc m" by (cases n) simp_all
  show ?case
  proof (cases "ms = []")
    case True
    then show ?thesis by (simp add: n is_space_def)
  next
    case False
    let ?t = "Join '','' (map print_member ms) @ CHR ''}'' # rest"
    have "starts ?t"
      using False by (intro starts_append starts_Join) (auto simp: hd_map)
    then obtain c cs where t: "?t = c # cs" "\<not> is_space c" "c \<noteq> CHR ''}''" by (rule startsE)
    have "parse_members m ?t = Some (ms, rest)"
      using 7 n by (intro parse_members_print [OF False])
        (auto simp: list_all_iff json_print_JObj simp del: json_print.simps(7))
    with t show ?thesis by (simp add: n is_space_def json_print_JObj del: json_print.simps(7))
  qed
next
  case 1
  then obtain m where "n = Suc m" by (cases n) simp_all
  then show ?case by (simp only: json_print.simps parse_words)
next
  case 2
  then obtain m where "n = Suc m" by (cases n) simp_all
  then show ?case by (simp only: json_print.simps parse_words)
next
  case 3
  then obtain m where "n = Suc m" by (cases n) simp_all
  then show ?case by (simp only: json_print.simps parse_words)
next
  case (4 k)
  then obtain m where "n = Suc m" using is_number_not_Nil by (cases n) auto
  with 4 show ?case by (simp only: json_print.simps json_ok.simps parse_number)
next
  case (5 s)
  then obtain m where "n = Suc m" by (cases n) (simp_all add: print_string_def)
  with 5 show ?case by (simp only: json_print.simps json_ok.simps parse_string)
qed

lemma json_parse_print: "json_ok j \<Longrightarrow> json_parse (json_print j) = Some j"
  using parse_val_print [of j "[]"] by (simp add: json_parse_def)

section \<open>Enough fuel\<close>


lemma skip_Cons_length: "skip s = c # cs \<Longrightarrow> length cs < length s"
  using length_dropWhile_le [of is_space s] by simp

lemma cut_length: "cut p s = Some r \<Longrightarrow> p \<noteq> [] \<Longrightarrow> length r < length s"
  by (auto simp: cut_def HasPrefix_def split: if_splits)
    (metis diff_less length_greater_0_conv take_eq_Nil)

lemma num_length: "num_char c \<Longrightarrow> length (dropWhile num_char (c # cs)) < length (c # cs)"
  using length_dropWhile_le [of num_char cs] by (simp add: le_imp_less_Suc)

definition val_fuel :: "nat \<Rightarrow> bool" where
  "val_fuel n \<longleftrightarrow> (\<forall>s v r. parse_val n s = Some (v, r) \<longrightarrow> length r < length s \<and>
     (\<forall>m. 2 * (length s - length r) \<le> m \<longrightarrow> parse_val m s = Some (v, r)))"

definition elems_fuel :: "nat \<Rightarrow> bool" where
  "elems_fuel n \<longleftrightarrow> (\<forall>s v r. parse_elems n s = Some (v, r) \<longrightarrow> length r < length s \<and>
     (\<forall>m. 2 * (length s - length r) \<le> m \<longrightarrow> parse_elems m s = Some (v, r)))"

definition members_fuel :: "nat \<Rightarrow> bool" where
  "members_fuel n \<longleftrightarrow> (\<forall>s v r. parse_members n s = Some (v, r) \<longrightarrow> length r < length s \<and>
     (\<forall>m. 2 * (length s - length r) \<le> m \<longrightarrow> parse_members m s = Some (v, r)))"

lemma elems_fuelD:
  assumes "elems_fuel n" and "parse_elems n s = Some (v, r)"
  shows "length r < length s" and "2 * (length s - length r) \<le> m \<Longrightarrow> parse_elems m s = Some (v, r)"
  using assms unfolding elems_fuel_def by blast+

lemma elems_fuel_Suc:
  assumes "val_fuel n" and "elems_fuel n"
  shows "elems_fuel (Suc n)"
  unfolding elems_fuel_def
proof (intro allI impI)
  fix s vs r
  assume "parse_elems (Suc n) s = Some (vs, r)"
  then obtain v r1 c r2 where v: "parse_val n s = Some (v, r1)" and c: "skip r1 = c # r2"
    and rest: "if c = CHR '','' then \<exists>vs'. parse_elems n r2 = Some (vs', r) \<and> vs = v # vs'
      else c = CHR '']'' \<and> vs = [v] \<and> r = r2"
    by (auto split: option.splits list.splits if_splits)
  have l1: "length r1 < length s" and f1: "2 * (length s - length r1) \<le> m \<Longrightarrow> parse_val m s = Some (v, r1)" for m
    using assms(1) v unfolding val_fuel_def by blast+
  have l2: "length r2 < length r1" using skip_Cons_length [OF c] .
  have l3: "length r \<le> length r2" and f3: "c = CHR '','' \<Longrightarrow> 2 * (length r2 - length r) \<le> m \<Longrightarrow>
      \<exists>vs'. parse_elems m r2 = Some (vs', r) \<and> vs = v # vs'" for m
  proof -
    show "length r \<le> length r2"
      using rest elems_fuelD(1) [OF assms(2)] by (metis less_imp_le order_refl)
    show "\<exists>vs'. parse_elems m r2 = Some (vs', r) \<and> vs = v # vs'"
      if "c = CHR '',''" and "2 * (length r2 - length r) \<le> m"
      using rest elems_fuelD(2) [OF assms(2)] that by metis
  qed
  show "length r < length s \<and> (\<forall>m. 2 * (length s - length r) \<le> m \<longrightarrow> parse_elems m s = Some (vs, r))"
  proof (intro conjI allI impI)
    show "length r < length s" using l1 l2 l3 by linarith
    fix m assume m: "2 * (length s - length r) \<le> m"
    then obtain k where k: "m = Suc k" using l1 l2 l3 by (cases m) auto
    have "parse_val k s = Some (v, r1)" using m k l1 l2 l3 by (intro f1) linarith
    moreover have "c = CHR '','' \<Longrightarrow> \<exists>vs'. parse_elems k r2 = Some (vs', r) \<and> vs = v # vs'"
      using m k l1 l2 l3 by (intro f3) linarith+
    ultimately show "parse_elems m s = Some (vs, r)"
      using rest c by (auto simp: k split: if_splits)
  qed
qed

lemma members_fuelD:
  assumes "members_fuel n" and "parse_members n s = Some (v, r)"
  shows "length r < length s" and "2 * (length s - length r) \<le> m \<Longrightarrow> parse_members m s = Some (v, r)"
  using assms unfolding members_fuel_def by blast+

lemma members_fuel_Suc:
  assumes "val_fuel n" and "members_fuel n"
  shows "members_fuel (Suc n)"
  unfolding members_fuel_def
proof (intro allI impI)
  fix s vs r
  assume "parse_members (Suc n) s = Some (vs, r)"
  then obtain cs k r0 r1 v r2 c r3 where q: "skip s = quote # cs" and b: "str_body cs = Some (k, r0)"
    and col: "skip r0 = CHR '':'' # r1" and v: "parse_val n r1 = Some (v, r2)" and c: "skip r2 = c # r3"
    and rest: "if c = CHR '','' then \<exists>vs'. parse_members n r3 = Some (vs', r) \<and> vs = (k, v) # vs'
      else c = CHR ''}'' \<and> vs = [(k, v)] \<and> r = r3"
    by (auto split: option.splits list.splits if_splits)
  have l1: "length r2 < length r1" and f1: "2 * (length r1 - length r2) \<le> m \<Longrightarrow> parse_val m r1 = Some (v, r2)" for m
    using assms(1) v unfolding val_fuel_def by blast+
  have l2: "length cs < length s" "length r0 < length cs" "length r1 < length r0" "length r3 < length r2"
    using skip_Cons_length [OF q] str_body_length [OF b] skip_Cons_length [OF col] skip_Cons_length [OF c] .
  have l3: "length r \<le> length r3" and f3: "c = CHR '','' \<Longrightarrow> 2 * (length r3 - length r) \<le> m \<Longrightarrow>
      \<exists>vs'. parse_members m r3 = Some (vs', r) \<and> vs = (k, v) # vs'" for m
  proof -
    show "length r \<le> length r3"
      using rest members_fuelD(1) [OF assms(2)] by (metis less_imp_le order_refl)
    show "\<exists>vs'. parse_members m r3 = Some (vs', r) \<and> vs = (k, v) # vs'"
      if "c = CHR '',''" and "2 * (length r3 - length r) \<le> m"
      using rest members_fuelD(2) [OF assms(2)] that by metis
  qed
  show "length r < length s \<and> (\<forall>m. 2 * (length s - length r) \<le> m \<longrightarrow> parse_members m s = Some (vs, r))"
  proof (intro conjI allI impI)
    show "length r < length s" using l1 l2 l3 by linarith
    fix m assume m: "2 * (length s - length r) \<le> m"
    then obtain i where i: "m = Suc i" using l1 l2 l3 by (cases m) auto
    have "parse_val i r1 = Some (v, r2)" using m i l1 l2 l3 by (intro f1) linarith
    moreover have "c = CHR '','' \<Longrightarrow> \<exists>vs'. parse_members i r3 = Some (vs', r) \<and> vs = (k, v) # vs'"
      using m i l1 l2 l3 by (intro f3) linarith+
    ultimately show "parse_members m s = Some (vs, r)"
      using rest q b col c by (auto simp: i split: if_splits)
  qed
qed


lemma val_fuel_Suc:
  assumes "elems_fuel n" and "members_fuel n"
  shows "val_fuel (Suc n)"
  unfolding val_fuel_def
proof (intro allI impI)
  fix s v r
  assume run: "parse_val (Suc n) s = Some (v, r)"
  then obtain c cs where s: "skip s = c # cs" by (cases "skip s") simp_all
  note cs = skip_Cons_length [OF s]
  show "length r < length s \<and> (\<forall>m. 2 * (length s - length r) \<le> m \<longrightarrow> parse_val m s = Some (v, r))"
  proof (cases "(c = CHR ''['' \<and> (\<exists>d t. skip cs = d # t \<and> d \<noteq> CHR '']'')) \<or>
      (c = CHR ''{'' \<and> (\<exists>d t. skip cs = d # t \<and> d \<noteq> CHR ''}''))")
    case False
    have same: "parse_val (Suc m) s = parse_val (Suc n) s" for m
      using False s by (auto split: list.split simp del: dropWhile_eq_Nil_conv)
    have "length r < length s"
    proof (cases "c = quote \<or> num_char c")
      case True
      then show ?thesis
        using run s cs str_body_length [of cs] num_length [of c cs] num_char_plain [of c]
        by (auto simp: Let_def split: if_splits)
    next
      case other: False
      show ?thesis
        using run s cs other False skip_Cons_length [of cs]
          cut_length [of "''null''" "c # cs" r] cut_length [of "''true''" "c # cs" r] cut_length [of "''false''" "c # cs" r]
        by (auto simp: Let_def split: if_splits list.splits option.splits simp del: dropWhile_eq_Nil_conv)
    qed
    moreover have "parse_val m s = Some (v, r)" if "2 * (length s - length r) \<le> m" for m
      using that calculation same run by (cases m) auto
    ultimately show ?thesis by blast
  next
    case True
    then show ?thesis
    proof (elim disjE conjE exE)
      fix d t
      assume c: "c = CHR ''[''" "skip cs = d # t" "d \<noteq> CHR '']''"
      then obtain js where e: "parse_elems n cs = Some (js, r)" "v = JArr js"
        using run s by auto
      have "length r < length cs" using elems_fuelD(1) [OF assms(1) e(1)] .
      moreover have "parse_val m s = Some (v, r)" if m: "2 * (length s - length r) \<le> m" for m
      proof -
        obtain k where k: "m = Suc k" using m calculation cs by (cases m) auto
        have "parse_elems k cs = Some (js, r)"
          using m calculation cs k by (intro elems_fuelD(2) [OF assms(1) e(1)]) linarith
        with c s e(2) show ?thesis by (simp add: k)
      qed
      ultimately show ?thesis using cs by auto
    next
      fix d t
      assume c: "c = CHR ''{''" "skip cs = d # t" "d \<noteq> CHR ''}''"
      then obtain ms where e: "parse_members n cs = Some (ms, r)" "v = JObj ms"
        using run s by auto
      have "length r < length cs" using members_fuelD(1) [OF assms(2) e(1)] .
      moreover have "parse_val m s = Some (v, r)" if m: "2 * (length s - length r) \<le> m" for m
      proof -
        obtain k where k: "m = Suc k" using m calculation cs by (cases m) auto
        have "parse_members k cs = Some (ms, r)"
          using m calculation cs k by (intro members_fuelD(2) [OF assms(2) e(1)]) linarith
        with c s e(2) show ?thesis by (simp add: k)
      qed
      ultimately show ?thesis using cs by auto
    qed
  qed
qed

lemma all_fuel: "val_fuel n \<and> elems_fuel n \<and> members_fuel n"
proof (induction n)
  case 0
  show ?case by (simp add: val_fuel_def elems_fuel_def members_fuel_def)
next
  case (Suc n)
  then show ?case using val_fuel_Suc elems_fuel_Suc members_fuel_Suc by blast
qed

text \<open>The fuel \<open>json_parse\<close> takes is enough: if any amount gives a value, this one gives it.\<close>

lemma parse_fuel:
  assumes "parse_val n s = Some (v, r)"
  shows "parse_val (2 * length s) s = Some (v, r)"
proof -
  have "2 * (length s - length r) \<le> m \<Longrightarrow> parse_val m s = Some (v, r)" for m
    using all_fuel [of n] assms unfolding val_fuel_def by blast
  then show ?thesis by simp
qed


section \<open>Unmarshal into a struct\<close>

text \<open>
  A field is its JSON name and how a value changes the struct, \<^term>\<open>None\<close> for a value of the
  wrong type (\<open>UnmarshalTypeError\<close>).  A member goes to the field of its exact name, or else to the
  first one whose name agrees up to case; other members are ignored; \<open>null\<close> changes nothing.
\<close>

type_synonym 'a field = "string \<times> ('a \<Rightarrow> json \<Rightarrow> 'a option)"

definition lower :: "char \<Rightarrow> char" where
  "lower c = (let k = of_char c :: nat in if 65 \<le> k \<and> k \<le> 90 then char_of (k + 32) else c)"

definition EqualFold :: "string \<Rightarrow> string \<Rightarrow> bool" where
  "EqualFold a b \<longleftrightarrow> map lower a = map lower b"

definition field_named :: "'a field list \<Rightarrow> string \<Rightarrow> ('a \<Rightarrow> json \<Rightarrow> 'a option) option" where
  "field_named fs k = (case map_of fs k of
     Some f \<Rightarrow> Some f
   | None \<Rightarrow> map_option snd (List.find (\<lambda>f. EqualFold (fst f) k) fs))"

fun dec_members :: "'a field list \<Rightarrow> 'a \<Rightarrow> (string \<times> json) list \<Rightarrow> 'a option" where
  "dec_members fs x [] = Some x"
| "dec_members fs x ((k, v) # ms) = (case field_named fs k of
     None \<Rightarrow> dec_members fs x ms
   | Some f \<Rightarrow> Option.bind (f x v) (\<lambda>y. dec_members fs y ms))"

fun dec_struct :: "'a field list \<Rightarrow> 'a \<Rightarrow> json \<Rightarrow> 'a option" where
  "dec_struct fs x JNull = Some x"
| "dec_struct fs x (JObj ms) = dec_members fs x ms"
| "dec_struct fs x _ = None"

fun dec_string :: "string \<Rightarrow> json \<Rightarrow> string option" where
  "dec_string x JNull = Some x" | "dec_string x (JStr s) = Some s" | "dec_string x _ = None"

text \<open>The elements of a \<open>[]string\<close>; \<open>null\<close> leaves an element empty.\<close>

fun dec_elems :: "json list \<Rightarrow> string list option" where
  "dec_elems [] = Some []"
| "dec_elems (j # js) = (case dec_string '''' j of
     None \<Rightarrow> None
   | Some s \<Rightarrow> map_option ((#) s) (dec_elems js))"

fun dec_bool :: "bool \<Rightarrow> json \<Rightarrow> bool option" where
  "dec_bool x JNull = Some x" | "dec_bool x (JBool b) = Some b" | "dec_bool x _ = None"

text \<open>
  \<open>map[string]interface{}\<close>: the entries by increasing key, the order in which \<open>Marshal\<close> writes
  them; \<^term>\<open>None\<close> is the nil map.  Nested objects are maps too.
\<close>

fun map_put :: "string \<Rightarrow> json \<Rightarrow> (string \<times> json) list \<Rightarrow> (string \<times> json) list" where
  "map_put k v [] = [(k, v)]"
| "map_put k v ((k', v') # ms) = (if k = k' then (k, v) # ms
     else if k < k' then (k, v) # (k', v') # ms else (k', v') # map_put k v ms)"

fun canon :: "json \<Rightarrow> json" where
  "canon (JArr js) = JArr (map canon js)"
| "canon (JObj ms) = JObj (foldl (\<lambda>m e. map_put (fst e) (snd e) m) [] (map (\<lambda>(k, v). (k, canon v)) ms))"
| "canon j = j"

type_synonym gomap = "(string \<times> json) list option"

fun dec_map :: "gomap \<Rightarrow> json \<Rightarrow> gomap option" where
  "dec_map x JNull = Some None"
| "dec_map x (JObj ms) = Some (Some (foldl (\<lambda>m e. map_put (fst e) (canon (snd e)) m)
     (case x of None \<Rightarrow> [] | Some m \<Rightarrow> m) ms))"
| "dec_map x _ = None"

fun enc_map :: "gomap \<Rightarrow> json" where
  "enc_map None = JNull" | "enc_map (Some ms) = JObj ms"

text \<open>A map whose text is read back as itself: increasing keys, canonical ASCII values.\<close>

definition map_ok :: "gomap \<Rightarrow> bool" where
  "map_ok m \<longleftrightarrow> json_ok (enc_map m) \<and> (case m of None \<Rightarrow> True
     | Some ms \<Rightarrow> sorted_wrt (<) (map fst ms) \<and> (\<forall>v \<in> snd ` set ms. canon v = v))"

lemma map_put_last: "\<forall>k' \<in> fst ` set ms. k' < k \<Longrightarrow> map_put k v ms = ms @ [(k, v)]"
  by (induction ms) (auto dest: less_imp_not_less)

lemma foldl_map_put:
  "sorted_wrt (<) (map fst (ms @ ns)) \<Longrightarrow> \<forall>v \<in> snd ` set ns. canon v = v \<Longrightarrow>
   foldl (\<lambda>m e. map_put (fst e) (canon (snd e)) m) ms ns = ms @ ns"
proof (induction ns arbitrary: ms)
  case (Cons e ns)
  obtain k v where e: "e = (k, v)" by force
  have "map_put k v ms = ms @ [(k, v)]"
    using Cons.prems(1) by (intro map_put_last) (auto simp: e sorted_wrt_append)
  moreover have "foldl (\<lambda>m e. map_put (fst e) (canon (snd e)) m) (ms @ [(k, v)]) ns = (ms @ [(k, v)]) @ ns"
    using Cons.prems by (intro Cons.IH) (auto simp: e)
  ultimately show ?case using Cons.prems(2) by (simp add: e)
qed simp

lemma dec_enc_map: "map_ok m \<Longrightarrow> dec_map None (enc_map m) = Some m"
  using foldl_map_put [of "[]"] by (cases m) (auto simp: map_ok_def)

definition Unmarshal :: "'a field list \<Rightarrow> 'a \<Rightarrow> string \<Rightarrow> go_error + 'a" where
  "Unmarshal fs zero data = (case json_parse data of
     None \<Rightarrow> Inl (GoError ''invalid JSON'')
   | Some j \<Rightarrow> (case dec_struct fs zero j of
       None \<Rightarrow> Inl (GoError ''json: cannot unmarshal'')
     | Some c \<Rightarrow> Inr c))"

end
