(* ===== verification/Configs.thy ===== *)
theory Configs
  imports GoStrings
begin

text \<open>
  \<open>internal/configs/brokers_cfg.go\<close>: the connection settings of the brokers, read from the
  configuration file and overridden once by environment variables.  The state is the part of the
  package variable \<open>config\<close> with the brokers and the two \<open>sync.Once\<close>; the environment is a
  parameter.
\<close>

section \<open>strconv.Atoi\<close>

fun ParseUint :: "nat \<Rightarrow> string \<Rightarrow> go_error + nat" where
  "ParseUint acc [] = Inr acc"
| "ParseUint acc (c # cs) = (case digit_val c of
     None \<Rightarrow> Inl (GoError ''invalid syntax'')
   | Some d \<Rightarrow> if 10 * acc + d \<ge> 2 ^ 64 then Inl (GoError ''value out of range'')
       else ParseUint (10 * acc + d) cs)"

text \<open>The value next to an error is 0 for a malformed number and the nearest 64-bit integer for one
  out of range.\<close>

definition Atoi :: "string \<Rightarrow> int \<times> go_error option" where
  "Atoi s =
     (let (neg, ds) = (case s of [] \<Rightarrow> (False, []) | c # r \<Rightarrow>
            if c = CHR ''-'' then (True, r) else if c = CHR ''+'' then (False, r) else (False, s)) in
      case (if ds = [] then Inl (GoError ''invalid syntax'') else ParseUint 0 ds) of
        Inl e \<Rightarrow> if e = GoError ''value out of range''
          then (if neg then - (2 ^ 63) else 2 ^ 63 - 1, Some e) else (0, Some e)
      | Inr n \<Rightarrow>
          if neg \<and> n > 2 ^ 63 then (- (2 ^ 63), Some (GoError ''value out of range''))
          else if \<not> neg \<and> n \<ge> 2 ^ 63 then (2 ^ 63 - 1, Some (GoError ''value out of range''))
          else (if neg then - int n else int n, None))"

lemma ParseUint_digits:
  "digits_val acc ds = Some n \<Longrightarrow> n < 2 ^ 64 \<Longrightarrow> ParseUint acc ds = Inr n"
proof (induction ds arbitrary: acc)
  case (Cons c cs)
  then obtain d where d: "digit_val c = Some d" and r: "digits_val (10 * acc + d) cs = Some n"
    by (auto split: option.splits)
  have mono: "digits_val a xs = Some n \<Longrightarrow> a \<le> n" for a xs
    by (induction xs arbitrary: a) (fastforce split: option.splits)+
  from mono [OF r] Cons.prems(2) have "10 * acc + d < 2 ^ 64" by simp
  with d Cons.IH [OF r Cons.prems(2)] show ?case by simp
qed simp

lemma nat_string_head: "\<exists>c cs. nat_string n = c # cs \<and> c \<noteq> CHR ''-'' \<and> c \<noteq> CHR ''+''"
proof -
  obtain c cs where n: "nat_string n = c # cs" using nat_string_not_Nil by (cases "nat_string n") auto
  then have "digit_val c \<noteq> None" using nat_string_digits [of c n] by simp
  with n show ?thesis by (auto simp: digit_val_def)
qed

text \<open>\<open>Atoi\<close> reads what \<open>Itoa\<close> writes.\<close>

lemma Atoi_Itoa:
  assumes "- (2 ^ 63) \<le> i" and "i < 2 ^ 63"
  shows "Atoi (Itoa i) = (i, None)"
proof -
  have p: "ParseUint 0 (nat_string n) = Inr n" if "n < 2 ^ 64" for n
    using ParseUint_digits digits_val_nat_string that by blast
  show ?thesis
  proof (cases "i < 0")
    case True
    then show ?thesis using p [of "nat (- i)"] assms by (simp add: Atoi_def Itoa_def)
  next
    case False
    obtain c cs where n: "nat_string (nat i) = c # cs" "c \<noteq> CHR ''-''" "c \<noteq> CHR ''+''"
      using nat_string_head by blast
    with False show ?thesis using p [of "nat i"] assms by (simp add: Atoi_def Itoa_def)
  qed
qed

section \<open>The settings\<close>

record RabbitMQConnectionConfig =
  rHost :: string
  rPort :: int
  rUsername :: string
  rPassword :: string

record KafkaConnectionConfig =
  kHost :: string
  kPort :: int
  kClientId :: string
  kGroupId :: string

record brokers_config =
  Rabbitmq :: RabbitMQConnectionConfig
  Kafka :: KafkaConnectionConfig
  rabbitmq_init :: bool
  kafka_init :: bool

type_synonym env = "string \<Rightarrow> string option"

definition RabbitMQConnectionConfigInit :: "env \<Rightarrow> RabbitMQConnectionConfig \<Rightarrow> RabbitMQConnectionConfig" where
  "RabbitMQConnectionConfigInit LookupEnv c =
     (let c = (case LookupEnv ''RABBITMQ_HOST'' of Some host \<Rightarrow> c\<lparr>rHost := host\<rparr> | None \<Rightarrow> c);
          (s, ok) = (case LookupEnv ''RABBITMQ_PORT'' of Some s \<Rightarrow> (s, True) | None \<Rightarrow> ([], False));
          c = (let (port, err) = Atoi s in if ok \<and> err \<noteq> None then c\<lparr>rPort := port\<rparr> else c);
          c = (case LookupEnv ''RABBITMQ_USERNAME'' of Some username \<Rightarrow> c\<lparr>rUsername := username\<rparr> | None \<Rightarrow> c)
      in (case LookupEnv ''RABBITMQ_PASSWORD'' of Some password \<Rightarrow> c\<lparr>rPassword := password\<rparr> | None \<Rightarrow> c))"

definition GetRabbitMQConnectionConfig :: "env \<Rightarrow> brokers_config
    \<Rightarrow> brokers_config \<times> (go_error + RabbitMQConnectionConfig)" where
  "GetRabbitMQConnectionConfig LookupEnv c =
     (let c = (if rabbitmq_init c then c
        else c\<lparr>Rabbitmq := RabbitMQConnectionConfigInit LookupEnv (Rabbitmq c), rabbitmq_init := True\<rparr>) in
      if rHost (Rabbitmq c) = ''''
      then (c, Inl (GoError ''connection config to broker: RabbitMQ is not provided''))
      else (c, Inr (Rabbitmq c)))"

definition KafkaConnectionConfigInit :: "env \<Rightarrow> KafkaConnectionConfig \<Rightarrow> KafkaConnectionConfig" where
  "KafkaConnectionConfigInit LookupEnv c =
     (let c = (case LookupEnv ''KAFKA_HOST'' of Some host \<Rightarrow> c\<lparr>kHost := host\<rparr> | None \<Rightarrow> c);
          (s, ok) = (case LookupEnv ''KAFKA_PORT'' of Some s \<Rightarrow> (s, True) | None \<Rightarrow> ([], False));
          c = (let (port, err) = Atoi s in if ok \<and> err \<noteq> None then c\<lparr>kPort := port\<rparr> else c);
          c = (case LookupEnv ''CLIENT_ID'' of Some client_id \<Rightarrow> c\<lparr>kClientId := client_id\<rparr> | None \<Rightarrow> c)
      in (case LookupEnv ''GROUP_ID'' of Some group_id \<Rightarrow> c\<lparr>kGroupId := group_id\<rparr> | None \<Rightarrow> c))"

definition GetKafkaConnectionConfig :: "env \<Rightarrow> brokers_config
    \<Rightarrow> brokers_config \<times> (go_error + KafkaConnectionConfig)" where
  "GetKafkaConnectionConfig LookupEnv c =
     (let c = (if kafka_init c then c
        else c\<lparr>Kafka := KafkaConnectionConfigInit LookupEnv (Kafka c), kafka_init := True\<rparr>) in
      if kHost (Kafka c) = ''''
      then (c, Inl (GoError ''connection config to broker: kafka is not provided''))
      else (c, Inr (Kafka c)))"

definition getRabbitMqConnectionString :: "RabbitMQConnectionConfig \<Rightarrow> string" where
  "getRabbitMqConnectionString s = ''amqp://'' @ rUsername s @ '':'' @ rPassword s @ ''@'' @ rHost s
     @ '':'' @ Itoa (rPort s) @ ''/''"

definition getKafkaConnectionString :: "KafkaConnectionConfig \<Rightarrow> string" where
  "getKafkaConnectionString s = kHost s @ '':'' @ Itoa (kPort s)"

section \<open>Properties\<close>

text \<open>The condition on the port variables is inverted: a variable that holds a number never
  changes the port, and one that holds none replaces the configured port by 0 (or by the end of
  the range).  The other variables do override.\<close>
lemma env_port_inverted:
  assumes "rabbitmq_init c = False" and "GetRabbitMQConnectionConfig env c = (c', Inr r)"
  shows "rPort r = (case env ''RABBITMQ_PORT'' of
      Some s \<Rightarrow> (case Atoi s of (n, Some _) \<Rightarrow> n | (_, None) \<Rightarrow> rPort (Rabbitmq c))
    | None \<Rightarrow> rPort (Rabbitmq c)) \<and>
    rHost r = (case env ''RABBITMQ_HOST'' of Some h \<Rightarrow> h | None \<Rightarrow> rHost (Rabbitmq c)) \<and>
    rUsername r = (case env ''RABBITMQ_USERNAME'' of Some u \<Rightarrow> u | None \<Rightarrow> rUsername (Rabbitmq c)) \<and>
    rPassword r = (case env ''RABBITMQ_PASSWORD'' of Some p \<Rightarrow> p | None \<Rightarrow> rPassword (Rabbitmq c))"
  using assms
  by (auto simp: GetRabbitMQConnectionConfig_def RabbitMQConnectionConfigInit_def Let_def
      split: option.splits prod.splits if_splits)

lemma env_port_inverted_witness:
  "let c = \<lparr>Rabbitmq = \<lparr>rHost = ''h'', rPort = 5672, rUsername = ''u'', rPassword = ''p''\<rparr>,
       Kafka = \<lparr>kHost = '''', kPort = 0, kClientId = '''', kGroupId = ''''\<rparr>,
       rabbitmq_init = False, kafka_init = False\<rparr>;
     env = [''RABBITMQ_PORT'' \<mapsto> ''5673''];
     (c', res) = GetRabbitMQConnectionConfig env c
   in case res of Inr r \<Rightarrow> rPort r = 5672 \<and> getRabbitMqConnectionString r = ''amqp://u:p@h:5672/'' | Inl _ \<Rightarrow> False"
proof -
  let ?c = "\<lparr>Rabbitmq = \<lparr>rHost = ''h'', rPort = 5672, rUsername = ''u'', rPassword = ''p''\<rparr>,
       Kafka = \<lparr>kHost = '''', kPort = 0, kClientId = '''', kGroupId = ''''\<rparr>,
       rabbitmq_init = False, kafka_init = False\<rparr>"
  let ?env = "[''RABBITMQ_PORT'' \<mapsto> ''5673'']"
  have port: "Atoi ''5673'' = (5673, None)" "Itoa 5672 = ''5672''"
    by (simp_all add: Atoi_def digit_val_def Itoa_def nat_string.simps digit_def char_of_def bit_0)
  obtain c' r where run: "GetRabbitMQConnectionConfig ?env ?c = (c', Inr r)"
    by (simp add: GetRabbitMQConnectionConfig_def RabbitMQConnectionConfigInit_def port)
  have "rPort r = 5672" "rHost r = ''h''" "rUsername r = ''u''" "rPassword r = ''p''"
    using env_port_inverted [OF _ run] by (simp_all add: port)
  with run port show ?thesis by (simp add: getRabbitMqConnectionString_def)
qed

text \<open>The settings are fixed by the first call: every later call gives the same answer and
  changes nothing, whatever the environment is by then.\<close>
theorem settings_read_once:
  assumes "GetKafkaConnectionConfig env c = (c', res)"
    and "GetRabbitMQConnectionConfig env c = (c'', res')"
  shows "GetKafkaConnectionConfig env' c' = (c', res) \<and> GetRabbitMQConnectionConfig env' c'' = (c'', res')"
  using assms
  by (auto simp: GetKafkaConnectionConfig_def GetRabbitMQConnectionConfig_def Let_def split: if_splits)


lemma settings_read_once_witness:
  "let c = \<lparr>Rabbitmq = \<lparr>rHost = '''', rPort = 0, rUsername = '''', rPassword = ''''\<rparr>,
       Kafka = \<lparr>kHost = '''', kPort = 1, kClientId = ''i'', kGroupId = ''g''\<rparr>,
       rabbitmq_init = False, kafka_init = False\<rparr>;
     (c', res) = GetKafkaConnectionConfig [''KAFKA_HOST'' \<mapsto> ''k''] c
   in res = Inr \<lparr>kHost = ''k'', kPort = 1, kClientId = ''i'', kGroupId = ''g''\<rparr> \<and>
      GetKafkaConnectionConfig [''KAFKA_HOST'' \<mapsto> ''other''] c' = (c', res)"
proof -
  let ?c = "\<lparr>Rabbitmq = \<lparr>rHost = '''', rPort = 0, rUsername = '''', rPassword = ''''\<rparr>,
       Kafka = \<lparr>kHost = '''', kPort = 1, kClientId = ''i'', kGroupId = ''g''\<rparr>,
       rabbitmq_init = False, kafka_init = False\<rparr>"
  have at: "Atoi '''' = (0, Some (GoError ''invalid syntax''))" by (simp add: Atoi_def)
  obtain c' where run: "GetKafkaConnectionConfig [''KAFKA_HOST'' \<mapsto> ''k''] ?c
      = (c', Inr \<lparr>kHost = ''k'', kPort = 1, kClientId = ''i'', kGroupId = ''g''\<rparr>)"
    by (simp add: GetKafkaConnectionConfig_def KafkaConnectionConfigInit_def at)
  have "GetKafkaConnectionConfig [''KAFKA_HOST'' \<mapsto> ''other''] c'
      = (c', Inr \<lparr>kHost = ''k'', kPort = 1, kClientId = ''i'', kGroupId = ''g''\<rparr>)"
    using settings_read_once [OF run surjective_pairing] by blast
  with run show ?thesis by simp
qed

end
