(* ===== verification/Pools.thy ===== *)
theory Pools
  imports MessagePools TaskMessages Json Configs
begin

text \<open>
  The pool types of \<open>internal/brokers/kafka.go\<close> and \<open>rabbitmq.go\<close> behind the interface
  \<open>MessagePool\<close> of \<open>registry.go\<close>: constructors, accessors, the JSON of the configuration and
  the way back from a row of the database, and the ids of the tasks.  The interface is a sum of
  the two implementations; a pointer to a configuration is the configuration.
\<close>

section \<open>Kafka pools\<close>

record KafkaTopicConfig =
  Addr :: string
  ClientId :: string
  GroupId :: string

record KafkaReadConfig =
  OffsetReset :: string

record KafkaWriteConfig =
  Acks :: string

record KafkaMessagePoolConfig =
  Topic :: string
  Tcfg :: KafkaTopicConfig
  KRcfg :: KafkaReadConfig
  KWcfg :: KafkaWriteConfig

record KafkaMessagePool =
  kname :: string
  ktopic :: string
  ktcfg :: KafkaTopicConfig
  krcfg :: KafkaReadConfig
  kwcfg :: KafkaWriteConfig

definition NewKafkaMessagePool :: "string \<Rightarrow> string \<Rightarrow> KafkaMessagePool" where
  "NewKafkaMessagePool name topic = \<lparr>kname = name, ktopic = topic,
     ktcfg = \<lparr>Addr = '''', ClientId = '''', GroupId = ''''\<rparr>,
     krcfg = \<lparr>OffsetReset = ''smallest''\<rparr>, kwcfg = \<lparr>Acks = ''all''\<rparr>\<rparr>"

definition kSetReadConfig :: "KafkaMessagePool \<Rightarrow> KafkaReadConfig \<Rightarrow> KafkaMessagePool" where
  "kSetReadConfig mp cfg = mp\<lparr>krcfg := cfg\<rparr>"

definition kSetWriteConfig :: "KafkaMessagePool \<Rightarrow> KafkaWriteConfig \<Rightarrow> KafkaMessagePool" where
  "kSetWriteConfig mp cfg = mp\<lparr>kwcfg := cfg\<rparr>"

definition kGetConfig :: "KafkaMessagePool \<Rightarrow> KafkaMessagePoolConfig" where
  "kGetConfig mp = \<lparr>Topic = ktopic mp, Tcfg = ktcfg mp, KRcfg = krcfg mp, KWcfg = kwcfg mp\<rparr>"

text \<open>The struct tags: what \<open>Marshal\<close> writes, and the fields \<open>Unmarshal\<close> fills.\<close>

definition kafka_json :: "KafkaMessagePoolConfig \<Rightarrow> json" where
  "kafka_json c = JObj [
     (''topic'', JStr (Topic c)),
     (''tcfg'', JObj [(''addr'', JStr (Addr (Tcfg c))), (''client_id'', JStr (ClientId (Tcfg c))),
                      (''group_id'', JStr (GroupId (Tcfg c)))]),
     (''rcfg'', JObj [(''offset_reset'', JStr (OffsetReset (KRcfg c)))]),
     (''wcfg'', JObj [(''acks'', JStr (Acks (KWcfg c)))])]"

definition topic_fields :: "KafkaTopicConfig field list" where
  "topic_fields = [
     (''addr'', \<lambda>c v. map_option (\<lambda>s. c\<lparr>Addr := s\<rparr>) (dec_string (Addr c) v)),
     (''client_id'', \<lambda>c v. map_option (\<lambda>s. c\<lparr>ClientId := s\<rparr>) (dec_string (ClientId c) v)),
     (''group_id'', \<lambda>c v. map_option (\<lambda>s. c\<lparr>GroupId := s\<rparr>) (dec_string (GroupId c) v))]"

definition kread_fields :: "KafkaReadConfig field list" where
  "kread_fields = [
     (''offset_reset'', \<lambda>c v. map_option (\<lambda>s. c\<lparr>OffsetReset := s\<rparr>) (dec_string (OffsetReset c) v))]"

definition kwrite_fields :: "KafkaWriteConfig field list" where
  "kwrite_fields = [(''acks'', \<lambda>c v. map_option (\<lambda>s. c\<lparr>Acks := s\<rparr>) (dec_string (Acks c) v))]"

definition kafka_fields :: "KafkaMessagePoolConfig field list" where
  "kafka_fields = [
     (''topic'', \<lambda>c v. map_option (\<lambda>s. c\<lparr>Topic := s\<rparr>) (dec_string (Topic c) v)),
     (''tcfg'', \<lambda>c v. map_option (\<lambda>t. c\<lparr>Tcfg := t\<rparr>) (dec_struct topic_fields (Tcfg c) v)),
     (''rcfg'', \<lambda>c v. map_option (\<lambda>t. c\<lparr>KRcfg := t\<rparr>) (dec_struct kread_fields (KRcfg c) v)),
     (''wcfg'', \<lambda>c v. map_option (\<lambda>t. c\<lparr>KWcfg := t\<rparr>) (dec_struct kwrite_fields (KWcfg c) v))]"

definition kafka_zero :: KafkaMessagePoolConfig where
  "kafka_zero = \<lparr>Topic = '''', Tcfg = \<lparr>Addr = '''', ClientId = '''', GroupId = ''''\<rparr>,
     KRcfg = \<lparr>OffsetReset = ''''\<rparr>, KWcfg = \<lparr>Acks = ''''\<rparr>\<rparr>"

definition createKafkaPoolFromDatabase :: "MessagePool \<Rightarrow> go_error + KafkaMessagePool" where
  "createKafkaPoolFromDatabase pool =
     (case Unmarshal kafka_fields kafka_zero (dbConfig pool) of
        Inl err \<Rightarrow> Inl err
      | Inr config \<Rightarrow>
          let newPool = NewKafkaMessagePool (dbName pool) (Topic config) in
          Inr (newPool\<lparr>ktcfg := Tcfg config, kwcfg := KWcfg config, krcfg := KRcfg config\<rparr>))"

lemma kafka_fields_roundtrip: "dec_struct kafka_fields kafka_zero (kafka_json c) = Some c"
  by (simp add: kafka_json_def kafka_fields_def topic_fields_def kread_fields_def kwrite_fields_def
      kafka_zero_def field_named_def)


section \<open>RabbitMQ pools\<close>

record RabbitMQQueueConfig =
  Durable :: bool
  AutoDelete :: bool
  qExclusive :: bool
  qNoWait :: bool
  qArgs :: gomap

record RabbitMQReadConfig =
  Consumer :: string
  AutoAck :: bool
  rExclusive :: bool
  NoLocal :: bool
  rNoWait :: bool
  rArgs :: gomap

record RabbitMQWriteConfig =
  Exchange :: string
  Mandatory :: bool
  Immediate :: bool
  ContentType :: string

record RabbitMQPoolConfig =
  RQueue :: string
  Qcfg :: RabbitMQQueueConfig
  RRcfg :: RabbitMQReadConfig
  RWcfg :: RabbitMQWriteConfig

record RabbitMQMessagePool =
  rname :: string
  rqueue :: string
  rqcfg :: RabbitMQQueueConfig
  rrcfg :: RabbitMQReadConfig
  rwcfg :: RabbitMQWriteConfig

definition NewRabbitMQMessagePool :: "string \<Rightarrow> string \<Rightarrow> RabbitMQMessagePool" where
  "NewRabbitMQMessagePool name queue = \<lparr>rname = name, rqueue = queue,
     rqcfg = \<lparr>Durable = False, AutoDelete = False, qExclusive = False, qNoWait = False, qArgs = None\<rparr>,
     rrcfg = \<lparr>Consumer = '''', AutoAck = True, rExclusive = False, NoLocal = False, rNoWait = False,
       rArgs = None\<rparr>,
     rwcfg = \<lparr>Exchange = '''', Mandatory = False, Immediate = False, ContentType = ''text/plain''\<rparr>\<rparr>"

definition SetQueueConfig :: "RabbitMQMessagePool \<Rightarrow> RabbitMQQueueConfig \<Rightarrow> RabbitMQMessagePool" where
  "SetQueueConfig mp cfg = mp\<lparr>rqcfg := cfg\<rparr>"

definition rSetReadConfig :: "RabbitMQMessagePool \<Rightarrow> RabbitMQReadConfig \<Rightarrow> RabbitMQMessagePool" where
  "rSetReadConfig mp cfg = mp\<lparr>rrcfg := cfg\<rparr>"

definition rSetWriteConfig :: "RabbitMQMessagePool \<Rightarrow> RabbitMQWriteConfig \<Rightarrow> RabbitMQMessagePool" where
  "rSetWriteConfig mp cfg = mp\<lparr>rwcfg := cfg\<rparr>"

definition rGetConfig :: "RabbitMQMessagePool \<Rightarrow> RabbitMQPoolConfig" where
  "rGetConfig mp = \<lparr>RQueue = rqueue mp, Qcfg = rqcfg mp, RRcfg = rrcfg mp, RWcfg = rwcfg mp\<rparr>"

definition rabbit_json :: "RabbitMQPoolConfig \<Rightarrow> json" where
  "rabbit_json c = JObj [
     (''queue'', JStr (RQueue c)),
     (''qcfg'', JObj [(''durable'', JBool (Durable (Qcfg c))), (''auto_delete'', JBool (AutoDelete (Qcfg c))),
        (''exclusive'', JBool (qExclusive (Qcfg c))), (''no_wait'', JBool (qNoWait (Qcfg c))),
        (''args'', enc_map (qArgs (Qcfg c)))]),
     (''rcfg'', JObj [(''consumer'', JStr (Consumer (RRcfg c))), (''auto_ack'', JBool (AutoAck (RRcfg c))),
        (''exclusive'', JBool (rExclusive (RRcfg c))), (''no_local'', JBool (NoLocal (RRcfg c))),
        (''no_wait'', JBool (rNoWait (RRcfg c))), (''args'', enc_map (rArgs (RRcfg c)))]),
     (''wcfg'', JObj [(''exchange'', JStr (Exchange (RWcfg c))), (''mandatory'', JBool (Mandatory (RWcfg c))),
        (''immediate'', JBool (Immediate (RWcfg c))), (''content_type'', JStr (ContentType (RWcfg c)))])]"

definition queue_fields :: "RabbitMQQueueConfig field list" where
  "queue_fields = [
     (''durable'', \<lambda>c v. map_option (\<lambda>b. c\<lparr>Durable := b\<rparr>) (dec_bool (Durable c) v)),
     (''auto_delete'', \<lambda>c v. map_option (\<lambda>b. c\<lparr>AutoDelete := b\<rparr>) (dec_bool (AutoDelete c) v)),
     (''exclusive'', \<lambda>c v. map_option (\<lambda>b. c\<lparr>qExclusive := b\<rparr>) (dec_bool (qExclusive c) v)),
     (''no_wait'', \<lambda>c v. map_option (\<lambda>b. c\<lparr>qNoWait := b\<rparr>) (dec_bool (qNoWait c) v)),
     (''args'', \<lambda>c v. map_option (\<lambda>m. c\<lparr>qArgs := m\<rparr>) (dec_map (qArgs c) v))]"

definition rread_fields :: "RabbitMQReadConfig field list" where
  "rread_fields = [
     (''consumer'', \<lambda>c v. map_option (\<lambda>s. c\<lparr>Consumer := s\<rparr>) (dec_string (Consumer c) v)),
     (''auto_ack'', \<lambda>c v. map_option (\<lambda>b. c\<lparr>AutoAck := b\<rparr>) (dec_bool (AutoAck c) v)),
     (''exclusive'', \<lambda>c v. map_option (\<lambda>b. c\<lparr>rExclusive := b\<rparr>) (dec_bool (rExclusive c) v)),
     (''no_local'', \<lambda>c v. map_option (\<lambda>b. c\<lparr>NoLocal := b\<rparr>) (dec_bool (NoLocal c) v)),
     (''no_wait'', \<lambda>c v. map_option (\<lambda>b. c\<lparr>rNoWait := b\<rparr>) (dec_bool (rNoWait c) v)),
     (''args'', \<lambda>c v. map_option (\<lambda>m. c\<lparr>rArgs := m\<rparr>) (dec_map (rArgs c) v))]"

definition rwrite_fields :: "RabbitMQWriteConfig field list" where
  "rwrite_fields = [
     (''exchange'', \<lambda>c v. map_option (\<lambda>s. c\<lparr>Exchange := s\<rparr>) (dec_string (Exchange c) v)),
     (''mandatory'', \<lambda>c v. map_option (\<lambda>b. c\<lparr>Mandatory := b\<rparr>) (dec_bool (Mandatory c) v)),
     (''immediate'', \<lambda>c v. map_option (\<lambda>b. c\<lparr>Immediate := b\<rparr>) (dec_bool (Immediate c) v)),
     (''content_type'', \<lambda>c v. map_option (\<lambda>s. c\<lparr>ContentType := s\<rparr>) (dec_string (ContentType c) v))]"

definition rabbit_fields :: "RabbitMQPoolConfig field list" where
  "rabbit_fields = [
     (''queue'', \<lambda>c v. map_option (\<lambda>s. c\<lparr>RQueue := s\<rparr>) (dec_string (RQueue c) v)),
     (''qcfg'', \<lambda>c v. map_option (\<lambda>t. c\<lparr>Qcfg := t\<rparr>) (dec_struct queue_fields (Qcfg c) v)),
     (''rcfg'', \<lambda>c v. map_option (\<lambda>t. c\<lparr>RRcfg := t\<rparr>) (dec_struct rread_fields (RRcfg c) v)),
     (''wcfg'', \<lambda>c v. map_option (\<lambda>t. c\<lparr>RWcfg := t\<rparr>) (dec_struct rwrite_fields (RWcfg c) v))]"

definition rabbit_zero :: RabbitMQPoolConfig where
  "rabbit_zero = \<lparr>RQueue = '''',
     Qcfg = \<lparr>Durable = False, AutoDelete = False, qExclusive = False, qNoWait = False, qArgs = None\<rparr>,
     RRcfg = \<lparr>Consumer = '''', AutoAck = False, rExclusive = False, NoLocal = False, rNoWait = False,
       rArgs = None\<rparr>,
     RWcfg = \<lparr>Exchange = '''', Mandatory = False, Immediate = False, ContentType = ''''\<rparr>\<rparr>"

definition createRabbitMQPoolFromDatabase :: "MessagePool \<Rightarrow> go_error + RabbitMQMessagePool" where
  "createRabbitMQPoolFromDatabase pool =
     (case Unmarshal rabbit_fields rabbit_zero (dbConfig pool) of
        Inl err \<Rightarrow> Inl err
      | Inr config \<Rightarrow>
          let newPool = NewRabbitMQMessagePool (dbName pool) (RQueue config) in
          Inr (newPool\<lparr>rqcfg := Qcfg config, rwcfg := RWcfg config, rrcfg := RRcfg config\<rparr>))"

lemma rabbit_fields_roundtrip:
  assumes "map_ok (qArgs (Qcfg c))" and "map_ok (rArgs (RRcfg c))"
  shows "dec_struct rabbit_fields rabbit_zero (rabbit_json c) = Some c"
  using assms
  by (simp add: rabbit_json_def rabbit_fields_def queue_fields_def rread_fields_def rwrite_fields_def
      rabbit_zero_def field_named_def dec_enc_map)

section \<open>The interface\<close>

datatype pool = KafkaPool KafkaMessagePool | RabbitMQPool RabbitMQMessagePool

fun GetName :: "pool \<Rightarrow> string" where
  "GetName (KafkaPool mp) = kname mp"
| "GetName (RabbitMQPool mp) = rname mp"

fun GetQueue :: "pool \<Rightarrow> string" where
  "GetQueue (KafkaPool mp) = ktopic mp"
| "GetQueue (RabbitMQPool mp) = rqueue mp"

fun GetBroker :: "pool \<Rightarrow> string" where
  "GetBroker (KafkaPool mp) = ''kafka''"
| "GetBroker (RabbitMQPool mp) = ''rabbitmq''"

fun config_json :: "pool \<Rightarrow> json" where
  "config_json (KafkaPool mp) = kafka_json (kGetConfig mp)"
| "config_json (RabbitMQPool mp) = rabbit_json (rGetConfig mp)"

text \<open>\<open>Marshal\<close> of these types has no failing case, so \<open>GetJSONConfig\<close> returns no error.\<close>

definition GetJSONConfig :: "pool \<Rightarrow> string" where
  "GetJSONConfig mp = json_print (config_json mp)"

definition createFromDatabase :: "MessagePool \<Rightarrow> go_error + pool" where
  "createFromDatabase row =
     (if dbBroker row = ''rabbitmq'' then map_sum id RabbitMQPool (createRabbitMQPoolFromDatabase row)
      else if dbBroker row = ''kafka'' then map_sum id KafkaPool (createKafkaPoolFromDatabase row)
      else Inl (GoError ''invalid message pool type''))"

text \<open>The row \<open>AddMessagePool\<close> writes for a pool.\<close>

definition row_of :: "pool \<Rightarrow> MessagePool" where
  "row_of mp = \<lparr>dbName = GetName mp, dbQueue = GetQueue mp, dbBroker = GetBroker mp,
     dbConfig = GetJSONConfig mp\<rparr>"

text \<open>Pools whose configuration is ASCII and whose argument maps are in normal form.\<close>

fun pool_ok :: "pool \<Rightarrow> bool" where
  "pool_ok (KafkaPool mp) \<longleftrightarrow> json_ok (kafka_json (kGetConfig mp))"
| "pool_ok (RabbitMQPool mp) \<longleftrightarrow> json_ok (rabbit_json (rGetConfig mp)) \<and>
     map_ok (qArgs (rqcfg mp)) \<and> map_ok (rArgs (rrcfg mp))"

lemma pool_from_row: "pool_ok mp \<Longrightarrow> createFromDatabase (row_of mp) = Inr mp"
proof (cases mp)
  case (KafkaPool p)
  moreover assume "pool_ok mp"
  ultimately show ?thesis
    by (simp add: createFromDatabase_def row_of_def createKafkaPoolFromDatabase_def Unmarshal_def
        GetJSONConfig_def json_parse_print kafka_fields_roundtrip kGetConfig_def NewKafkaMessagePool_def)
next
  case (RabbitMQPool p)
  moreover assume "pool_ok mp"
  ultimately show ?thesis
    by (simp add: createFromDatabase_def row_of_def createRabbitMQPoolFromDatabase_def Unmarshal_def
        GetJSONConfig_def json_parse_print rabbit_fields_roundtrip rGetConfig_def NewRabbitMQMessagePool_def)
qed

section \<open>Task ids\<close>

fun getTaskId :: "pool \<Rightarrow> string" where
  "getTaskId (KafkaPool mp) = ''kafka:'' @ kname mp @ '':'' @ ktopic mp"
| "getTaskId (RabbitMQPool mp) = ''rabbitmq:'' @ rname mp @ '':'' @ rqueue mp"

definition readTaskId :: "pool \<Rightarrow> string" where
  "readTaskId mp = getTaskId mp @ '':read''"

definition writeTaskId :: "pool \<Rightarrow> string" where
  "writeTaskId mp = getTaskId mp @ '':write''"

definition GetMessagePoolReadMessages :: "('c, TaskMessage) coll_driver \<Rightarrow> 'c \<Rightarrow> MessagePool
    \<Rightarrow> go_error + string list" where
  "GetMessagePoolReadMessages m tm messagePool =
     (let poolTasksId = dbBroker messagePool @ '':'' @ dbName messagePool @ '':'' @ dbQueue messagePool @ '':read''
      in getTaskMessages m tm poolTasksId)"

definition GetMessagePoolWriteMessages :: "('c, TaskMessage) coll_driver \<Rightarrow> 'c \<Rightarrow> MessagePool
    \<Rightarrow> go_error + string list" where
  "GetMessagePoolWriteMessages m tm messagePool =
     (let poolTasksId = dbBroker messagePool @ '':'' @ dbName messagePool @ '':'' @ dbQueue messagePool @ '':write''
      in getTaskMessages m tm poolTasksId)"

lemma getTaskId_parts: "getTaskId mp = GetBroker mp @ '':'' @ GetName mp @ '':'' @ GetQueue mp"
  by (cases mp) simp_all

lemma pool_messages_ids:
  "GetMessagePoolReadMessages m tm (row_of mp) = getTaskMessages m tm (readTaskId mp)"
  "GetMessagePoolWriteMessages m tm (row_of mp) = getTaskMessages m tm (writeTaskId mp)"
  by (simp_all add: GetMessagePoolReadMessages_def GetMessagePoolWriteMessages_def row_of_def
      readTaskId_def writeTaskId_def getTaskId_parts)

lemma read_write_ids_differ: "readTaskId mp \<noteq> writeTaskId mp'"
proof
  assume "readTaskId mp = writeTaskId mp'"
  then have "last (readTaskId mp) = last (writeTaskId mp')" by simp
  then show False by (simp add: readTaskId_def writeTaskId_def)
qed

text \<open>Names without a colon make the id unambiguous.\<close>

lemma colon_parts:
  assumes "a @ CHR '':'' # b = a' @ CHR '':'' # b'" and "CHR '':'' \<notin> set a" and "CHR '':'' \<notin> set a'"
  shows "a = a' \<and> b = b'"
proof -
  have "takeWhile (\<lambda>c. c \<noteq> CHR '':'') (a @ CHR '':'' # b) = a"
    and "takeWhile (\<lambda>c. c \<noteq> CHR '':'') (a' @ CHR '':'' # b') = a'"
    using assms(2,3) by (auto simp: takeWhile_append)
  with assms(1) show ?thesis by simp
qed

lemma GetBroker_no_colon: "CHR '':'' \<notin> set (GetBroker mp)"
  by (cases mp) simp_all

lemma getTaskId_inject:
  assumes "CHR '':'' \<notin> set (GetName mp)" and "CHR '':'' \<notin> set (GetName mp')"
    and "getTaskId mp = getTaskId mp'"
  shows "GetBroker mp = GetBroker mp' \<and> GetName mp = GetName mp' \<and> GetQueue mp = GetQueue mp'"
proof -
  have "GetBroker mp @ CHR '':'' # (GetName mp @ CHR '':'' # GetQueue mp)
      = GetBroker mp' @ CHR '':'' # (GetName mp' @ CHR '':'' # GetQueue mp')"
    using assms(3) by (simp add: getTaskId_parts)
  from colon_parts [OF this GetBroker_no_colon GetBroker_no_colon] show ?thesis
    using colon_parts [OF _ assms(1,2)] by blast
qed

end
