(* ===== verification/Registry.thy ===== *)
theory Registry
  imports Pools
begin

text \<open>
  \<open>internal/brokers/registry.go\<close> with the broker side of a pool (\<open>CreateBrokerEndpoint\<close>,
  \<open>RemoveBrokerEndpoint\<close> of \<open>kafka.go\<close> and \<open>rabbitmq.go\<close>).  The clients of the two
  brokers are libraries: a record of the calls the code makes, over the state \<open>'w\<close> of the brokers.
\<close>

section \<open>The broker clients\<close>

text \<open>
  \<open>CreateTopics\<close> and \<open>DeleteTopics\<close> answer with one result per topic, its own error included;
  the AMQP calls of one connection are given the connection string.
\<close>

record 'w broker_lib =
  NewAdminClient :: "'w \<Rightarrow> string \<Rightarrow> go_error option"
  CreateTopics :: "'w \<Rightarrow> string \<Rightarrow> string \<Rightarrow> 'w \<times> (go_error + (string \<times> go_error option) list)"
  DeleteTopics :: "'w \<Rightarrow> string \<Rightarrow> string \<Rightarrow> 'w \<times> (go_error + (string \<times> go_error option) list)"
  Dial :: "'w \<Rightarrow> string \<Rightarrow> go_error option"
  OpenChannel :: "'w \<Rightarrow> string \<Rightarrow> go_error option"
  QueueDelete :: "'w \<Rightarrow> string \<Rightarrow> string \<Rightarrow> 'w \<times> (go_error + nat)"

record ('w, 'c, 'h) registry =
  world :: 'w
  settings :: brokers_config
  pools :: "('c, 'h) messagePools"

section \<open>Broker endpoints\<close>

definition kCreateBrokerEndpoint :: "'w broker_lib \<Rightarrow> env \<Rightarrow> ('w, 'c, 'h) registry \<Rightarrow> KafkaMessagePool
    \<Rightarrow> ('w, 'c, 'h) registry \<times> KafkaMessagePool \<times> go_error option" where
  "kCreateBrokerEndpoint lib env s mp =
     (let (st, res) = GetKafkaConnectionConfig env (settings s); s = s\<lparr>settings := st\<rparr> in
      case res of
        Inl err \<Rightarrow> (s, mp, Some err)
      | Inr cfg \<Rightarrow>
          let mp = mp\<lparr>ktcfg := (ktcfg mp)\<lparr>Addr := getKafkaConnectionString cfg,
                ClientId := kClientId cfg, GroupId := kGroupId cfg\<rparr>\<rparr> in
          case NewAdminClient lib (world s) (Addr (ktcfg mp)) of
            Some err \<Rightarrow> (s, mp, Some err)
          | None \<Rightarrow>
              let (w, results) = CreateTopics lib (world s) (Addr (ktcfg mp)) (ktopic mp) in
              (s\<lparr>world := w\<rparr>, mp, (case results of Inl err \<Rightarrow> Some err | Inr _ \<Rightarrow> None)))"

definition kRemoveBrokerEndpoint :: "'w broker_lib \<Rightarrow> ('w, 'c, 'h) registry \<Rightarrow> KafkaMessagePool
    \<Rightarrow> ('w, 'c, 'h) registry \<times> go_error option" where
  "kRemoveBrokerEndpoint lib s mp =
     (case NewAdminClient lib (world s) (Addr (ktcfg mp)) of
        Some err \<Rightarrow> (s, Some err)
      | None \<Rightarrow>
          let (w, results) = DeleteTopics lib (world s) (Addr (ktcfg mp)) (ktopic mp) in
          (s\<lparr>world := w\<rparr>, (case results of Inl err \<Rightarrow> Some err | Inr _ \<Rightarrow> None)))"

definition rRemoveBrokerEndpoint :: "'w broker_lib \<Rightarrow> env \<Rightarrow> ('w, 'c, 'h) registry \<Rightarrow> RabbitMQMessagePool
    \<Rightarrow> ('w, 'c, 'h) registry \<times> go_error option" where
  "rRemoveBrokerEndpoint lib env s mp =
     (let (st, res) = GetRabbitMQConnectionConfig env (settings s); s = s\<lparr>settings := st\<rparr> in
      case res of
        Inl err \<Rightarrow> (s, Some err)
      | Inr cfg \<Rightarrow>
          let conn = getRabbitMqConnectionString cfg in
          case Dial lib (world s) conn of
            Some err \<Rightarrow> (s, Some err)
          | None \<Rightarrow> (case OpenChannel lib (world s) conn of
              Some err \<Rightarrow> (s, Some err)
            | None \<Rightarrow>
                let (w, remaining_msgs) = QueueDelete lib (world s) conn (rqueue mp) in
                (s\<lparr>world := w\<rparr>, (case remaining_msgs of Inl err \<Rightarrow> Some err | Inr _ \<Rightarrow> None))))"

fun CreateBrokerEndpoint :: "'w broker_lib \<Rightarrow> env \<Rightarrow> ('w, 'c, 'h) registry \<Rightarrow> pool
    \<Rightarrow> ('w, 'c, 'h) registry \<times> pool \<times> go_error option" where
  "CreateBrokerEndpoint lib env s (KafkaPool mp) =
     (case kCreateBrokerEndpoint lib env s mp of (s', mp', err) \<Rightarrow> (s', KafkaPool mp', err))"
| "CreateBrokerEndpoint lib env s (RabbitMQPool mp) = (s, RabbitMQPool mp, None)"

fun RemoveBrokerEndpoint :: "'w broker_lib \<Rightarrow> env \<Rightarrow> ('w, 'c, 'h) registry \<Rightarrow> pool
    \<Rightarrow> ('w, 'c, 'h) registry \<times> go_error option" where
  "RemoveBrokerEndpoint lib env s (KafkaPool mp) = kRemoveBrokerEndpoint lib s mp"
| "RemoveBrokerEndpoint lib env s (RabbitMQPool mp) = rRemoveBrokerEndpoint lib env s mp"

section \<open>The registry\<close>

definition AddMessagePool :: "('c, 'h, MessagePool) backend \<Rightarrow> 'w broker_lib \<Rightarrow> env
    \<Rightarrow> ('w, 'c, 'h) registry \<Rightarrow> pool \<Rightarrow> ('w, 'c, 'h) registry \<times> pool option \<times> go_error option" where
  "AddMessagePool be lib env s mp =
     (let (s, mp, err) = CreateBrokerEndpoint lib env s mp in
      if err \<noteq> None then (s, None, err)
      else
        let jsonConfig = GetJSONConfig mp;
            (p, err) = addMessagePool be (pools s) \<lparr>dbName = GetName mp, dbQueue = GetQueue mp,
              dbBroker = GetBroker mp, dbConfig = jsonConfig\<rparr>
        in (s\<lparr>pools := p\<rparr>, Some mp, err))"

definition GetMessagePool :: "('c, 'h, MessagePool) backend \<Rightarrow> ('w, 'c, 'h) registry \<Rightarrow> string
    \<Rightarrow> ('w, 'c, 'h) registry \<times> (go_error + pool)" where
  "GetMessagePool be s poolName =
     (let (p, res) = getMessagePool be (pools s) poolName; s = s\<lparr>pools := p\<rparr> in
      case res of Inl err \<Rightarrow> (s, Inl err) | Inr pool \<Rightarrow> (s, createFromDatabase pool))"

definition RemoveMessagePool :: "('c, 'h, MessagePool) backend \<Rightarrow> 'w broker_lib \<Rightarrow> env
    \<Rightarrow> ('w, 'c, 'h) registry \<Rightarrow> string \<Rightarrow> ('w, 'c, 'h) registry \<times> go_error option" where
  "RemoveMessagePool be lib env s poolName =
     (let (s, res) = GetMessagePool be s poolName in
      case res of
        Inl err \<Rightarrow> (s, Some err)
      | Inr pool \<Rightarrow>
          let (s, err) = RemoveBrokerEndpoint lib env s pool in
          if err \<noteq> None then (s, err)
          else let (p, err) = removeMessagePool be (pools s) poolName in (s\<lparr>pools := p\<rparr>, err))"

section \<open>What the broker side leaves alone\<close>

lemma CreateBrokerEndpoint_pools:
  assumes "CreateBrokerEndpoint lib env s mp = (s', mp', err)"
  shows "pools s' = pools s" and "GetName mp' = GetName mp" and "GetQueue mp' = GetQueue mp"
    and "GetBroker mp' = GetBroker mp"
  using assms
  by (cases mp; auto simp: kCreateBrokerEndpoint_def Let_def split: prod.splits sum.splits option.splits)+

lemma RemoveBrokerEndpoint_pools:
  assumes "RemoveBrokerEndpoint lib env s mp = (s', err)"
  shows "pools s' = pools s"
  using assms
  by (cases mp) (auto simp: kRemoveBrokerEndpoint_def rRemoveBrokerEndpoint_def Let_def
      split: prod.splits sum.splits option.splits)

definition pools_inv :: "('c, 'h, MessagePool) backend \<Rightarrow> ('c \<Rightarrow> MessagePool list)
    \<Rightarrow> ('h \<Rightarrow> string \<Rightarrow> MessagePool option) \<Rightarrow> ('w, 'c, 'h) registry \<Rightarrow> bool" where
  "pools_inv be docs entry s \<longleftrightarrow> cached_inv be (=) dbName docs entry (pools s)"

definition pools_live :: "('c, 'h, MessagePool) backend \<Rightarrow> ('c \<Rightarrow> MessagePool list)
    \<Rightarrow> ('h \<Rightarrow> string \<Rightarrow> MessagePool option) \<Rightarrow> ('w, 'c, 'h) registry \<Rightarrow> bool" where
  "pools_live be docs entry s \<longleftrightarrow> pools_inv be docs entry s \<and> backend_live be (same_key dbName) docs"

abbreviation rows :: "('c \<Rightarrow> MessagePool list) \<Rightarrow> ('w, 'c, 'h) registry \<Rightarrow> string \<Rightarrow> MessagePool option" where
  "rows docs s \<equiv> table dbName docs (pools s)"

lemma AddMessagePool_rows:
  assumes inv: "pools_inv be docs entry s" and run: "AddMessagePool be lib env s mp = (s', r, err)"
  shows "pools_inv be docs entry s'"
    and "err = None \<Longrightarrow> \<exists>mp'. r = Some mp' \<and> GetName mp' = GetName mp \<and> GetQueue mp' = GetQueue mp \<and>
      GetBroker mp' = GetBroker mp \<and> rows docs s (GetName mp) = None \<and>
      rows docs s' = (rows docs s)(GetName mp \<mapsto> row_of mp')"
    and "err \<noteq> None \<Longrightarrow> rows docs s' = rows docs s"
proof -
  obtain s1 mp' e where c: "CreateBrokerEndpoint lib env s mp = (s1, mp', e)" by (rule prod_cases3)
  note keep = CreateBrokerEndpoint_pools [OF c]
  have inv1: "cached_inv be (=) dbName docs entry (pools s)" using inv by (simp add: pools_inv_def)
  obtain p e' where a: "addMessagePool be (pools s) (row_of mp') = (p, e')" by force
  have code: "(s', r, err) = (if e \<noteq> None then (s1, None, e) else (s1\<lparr>pools := p\<rparr>, Some mp', e'))"
    using run c a keep by (auto simp: AddMessagePool_def row_of_def Let_def split: if_splits)
  show "pools_inv be docs entry s'"
    using code inv1 keep(1) pool_store.add_inv [OF inv1 a] by (auto simp: pools_inv_def split: if_splits)
  show "err = None \<Longrightarrow> \<exists>mp'. r = Some mp' \<and> GetName mp' = GetName mp \<and> GetQueue mp' = GetQueue mp \<and>
      GetBroker mp' = GetBroker mp \<and> rows docs s (GetName mp) = None \<and>
      rows docs s' = (rows docs s)(GetName mp \<mapsto> row_of mp')"
    using code keep pool_store.add_done [OF inv1, of "row_of mp'" p] a
    by (auto simp: row_of_def split: if_splits)
  show "err \<noteq> None \<Longrightarrow> rows docs s' = rows docs s"
    using code keep(1) pool_store.add_fails [OF inv1, of "row_of mp'" p] a by (auto split: if_splits)
qed

lemma GetMessagePool_rows:
  assumes inv: "pools_inv be docs entry s" and run: "GetMessagePool be s name = (s', res)"
  shows "pools_inv be docs entry s'" and "rows docs s' = rows docs s" and "world s' = world s"
    and "rows docs s name = None \<Longrightarrow> isl res"
    and "rows docs s name = Some row \<Longrightarrow> \<not> isl res \<Longrightarrow> res = createFromDatabase row"
proof -
  obtain p r where g: "getMessagePool be (pools s) name = (p, r)" by force
  have inv1: "cached_inv be (=) dbName docs entry (pools s)" using inv by (simp add: pools_inv_def)
  have s': "s' = s\<lparr>pools := p\<rparr>" and res: "res = (case r of Inl err \<Rightarrow> Inl err | Inr pool \<Rightarrow> createFromDatabase pool)"
    using run g by (auto simp: GetMessagePool_def Let_def split: sum.splits)
  show "pools_inv be docs entry s'" and "rows docs s' = rows docs s" and "world s' = world s"
    using pool_store.get_inv [OF inv1 g] pool_store.get_tab [OF inv1 g] by (simp_all add: s' pools_inv_def)
  show "isl res" if "rows docs s name = None"
    using that res pool_store.get_found [OF inv1, of name p] g by (cases r) auto
  show "res = createFromDatabase row" if "rows docs s name = Some row" and "\<not> isl res"
    using that res pool_store.get_found [OF inv1, of name p] g by (cases r) auto
qed

lemma RemoveMessagePool_rows:
  assumes inv: "pools_inv be docs entry s" and run: "RemoveMessagePool be lib env s name = (s', err)"
  shows "pools_inv be docs entry s'"
    and "err = None \<Longrightarrow> rows docs s name \<noteq> None \<and> rows docs s' = (rows docs s)(name := None)"
    and "err \<noteq> None \<Longrightarrow> rows docs s' = rows docs s"
proof -
  obtain s1 res where g: "GetMessagePool be s name = (s1, res)" by force
  note get = GetMessagePool_rows [OF inv g]
  have "pools_inv be docs entry s' \<and>
    (if err = None then rows docs s name \<noteq> None \<and> rows docs s' = (rows docs s)(name := None)
     else rows docs s' = rows docs s)"
  proof (cases res)
    case (Inl e)
    with run g get show ?thesis by (auto simp: RemoveMessagePool_def)
  next
    case (Inr mp)
    obtain s2 e where rb: "RemoveBrokerEndpoint lib env s1 mp = (s2, e)" by force
    note keep = RemoveBrokerEndpoint_pools [OF rb]
    have inv2: "cached_inv be (=) dbName docs entry (pools s2)"
      using get(1) by (simp add: pools_inv_def keep)
    obtain p e' where rm: "removeMessagePool be (pools s2) name = (p, e')" by force
    have code: "(s', err) = (if e \<noteq> None then (s2, e) else (s2\<lparr>pools := p\<rparr>, e'))"
      using run g Inr rb rm by (auto simp: RemoveMessagePool_def Let_def split: if_splits)
    have "rows docs s name \<noteq> None" using get(4) Inr by auto
    then show ?thesis
      using code inv2 keep get(2) pool_store.remove_inv [OF inv2 rm]
        pool_store.remove_done [OF inv2, of name p] pool_store.remove_fails [OF inv2, of name p] rm
      by (auto simp: pools_inv_def split: if_splits)
  qed
  then show "pools_inv be docs entry s'"
    and "err = None \<Longrightarrow> rows docs s name \<noteq> None \<and> rows docs s' = (rows docs s)(name := None)"
    and "err \<noteq> None \<Longrightarrow> rows docs s' = rows docs s"
    by auto
qed


section \<open>While the database answers\<close>

lemma pools_liveD:
  assumes "pools_live be docs entry s"
  shows "pools_inv be docs entry s" and "live_inv be (=) dbName docs entry (pools s)"
  using assms by (simp_all add: pools_live_def pools_inv_def live_inv_def)

lemma GetMessagePool_live:
  assumes "pools_live be docs entry s"
  shows "snd (GetMessagePool be s name) = (case rows docs s name of
    None \<Rightarrow> Inl ErrNoSuchPool | Some row \<Rightarrow> createFromDatabase row)"
  using live_pools.get_live [OF pools_liveD(2) [OF assms], of name]
  by (auto simp: GetMessagePool_def Let_def split: prod.splits option.splits)

text \<open>Adding and removing keep the registry live.\<close>

lemma AddMessagePool_pools_live:
  "pools_live be docs entry s \<Longrightarrow> AddMessagePool be lib env s mp = (s', r, err) \<Longrightarrow> pools_live be docs entry s'"
  using AddMessagePool_rows(1) by (fastforce simp: pools_live_def)

lemma RemoveMessagePool_pools_live:
  "pools_live be docs entry s \<Longrightarrow> RemoveMessagePool be lib env s name = (s', err) \<Longrightarrow> pools_live be docs entry s'"
  using RemoveMessagePool_rows(1) by (fastforce simp: pools_live_def)

section \<open>Typed rows\<close>

text \<open>
  A row is typed when it is the row of some pool.  The settings go into the rows of Kafka pools, so
  they and the environment that overrides them have to be ASCII as the pools are.
\<close>

definition settings_ok :: "env \<Rightarrow> brokers_config \<Rightarrow> bool" where
  "settings_ok env st \<longleftrightarrow> ascii (kHost (Kafka st)) \<and> ascii (kClientId (Kafka st)) \<and> ascii (kGroupId (Kafka st)) \<and>
     (\<forall>x s. env x = Some s \<longrightarrow> ascii s)"

definition registry_ok :: "('c \<Rightarrow> MessagePool list) \<Rightarrow> env \<Rightarrow> ('w, 'c, 'h) registry \<Rightarrow> bool" where
  "registry_ok docs env s \<longleftrightarrow> settings_ok env (settings s) \<and>
     (\<forall>name row. rows docs s name = Some row \<longrightarrow> (\<exists>mp. pool_ok mp \<and> row = row_of mp))"

text \<open>What the rest of the program does with the registry.\<close>

inductive registry_step :: "('c, 'h, MessagePool) backend \<Rightarrow> 'w broker_lib \<Rightarrow> env
    \<Rightarrow> ('w, 'c, 'h) registry \<Rightarrow> ('w, 'c, 'h) registry \<Rightarrow> bool" for be lib env where
  reg_add: "pool_ok mp \<Longrightarrow> AddMessagePool be lib env s mp = (s', r, err) \<Longrightarrow> registry_step be lib env s s'"
| reg_get: "GetMessagePool be s name = (s', res) \<Longrightarrow> registry_step be lib env s s'"
| reg_remove: "RemoveMessagePool be lib env s name = (s', err) \<Longrightarrow> registry_step be lib env s s'"

lemma ascii_append [simp]: "ascii (a @ b) \<longleftrightarrow> ascii a \<and> ascii b"
  by (simp add: ascii_def)

lemma ascii_Itoa: "ascii (Itoa i)"
proof -
  have "of_char c < (128::nat)" if "c \<in> set (nat_string n)" for c n
    using nat_string_digits [OF that] by (auto simp: digit_val_def Let_def split: if_splits)
  then show ?thesis by (auto simp: ascii_def Itoa_def list_all_iff)
qed

lemma GetKafkaConnectionConfig_ok:
  assumes "settings_ok env st" and "GetKafkaConnectionConfig env st = (st', res)"
  shows "settings_ok env st'"
    and "res = Inr c \<Longrightarrow> ascii (getKafkaConnectionString c) \<and> ascii (kClientId c) \<and> ascii (kGroupId c)"
proof -
  show ok: "settings_ok env st'"
    using assms by (auto simp: settings_ok_def GetKafkaConnectionConfig_def KafkaConnectionConfigInit_def Let_def
        split: option.splits prod.splits if_splits)
  have "res = Inr c \<Longrightarrow> c = Kafka st'"
    using assms(2) by (auto simp: GetKafkaConnectionConfig_def Let_def split: if_splits)
  with ok show "res = Inr c \<Longrightarrow> ascii (getKafkaConnectionString c) \<and> ascii (kClientId c) \<and> ascii (kGroupId c)"
    using ascii_Itoa [of "kPort c"]
    by (auto simp: settings_ok_def getKafkaConnectionString_def ascii_def)
qed

lemma GetRabbitMQConnectionConfig_ok:
  "settings_ok env st \<Longrightarrow> GetRabbitMQConnectionConfig env st = (st', res) \<Longrightarrow> settings_ok env st'"
  by (auto simp: settings_ok_def GetRabbitMQConnectionConfig_def Let_def split: if_splits)

lemma CreateBrokerEndpoint_ok:
  assumes "settings_ok env (settings s)" and "pool_ok mp" and "CreateBrokerEndpoint lib env s mp = (s', mp', err)"
  shows "settings_ok env (settings s')" and "pool_ok mp'"
proof -
  have "settings_ok env (settings s') \<and> pool_ok mp'"
  proof (cases mp)
    case (KafkaPool k)
    obtain st res where g: "GetKafkaConnectionConfig env (settings s) = (st, res)" by force
    note ok = GetKafkaConnectionConfig_ok [OF assms(1) g]
    show ?thesis
    proof (cases res)
      case (Inl e)
      with assms KafkaPool g ok(1) show ?thesis by (auto simp: kCreateBrokerEndpoint_def)
    next
      case (Inr c)
      with assms KafkaPool g ok(1) ok(2) [OF Inr] show ?thesis
        by (auto simp: kCreateBrokerEndpoint_def Let_def kafka_json_def kGetConfig_def
            split: option.splits prod.splits)
    qed
  next
    case (RabbitMQPool r)
    with assms show ?thesis by auto
  qed
  then show "settings_ok env (settings s')" and "pool_ok mp'" by simp_all
qed

lemma RemoveBrokerEndpoint_settings:
  assumes "settings_ok env (settings s)" and "RemoveBrokerEndpoint lib env s mp = (s', err)"
  shows "settings_ok env (settings s')"
proof (cases mp)
  case (KafkaPool k)
  with assms show ?thesis
    by (auto simp: kRemoveBrokerEndpoint_def split: option.splits prod.splits)
next
  case (RabbitMQPool r)
  obtain st res where g: "GetRabbitMQConnectionConfig env (settings s) = (st, res)" by force
  with assms RabbitMQPool GetRabbitMQConnectionConfig_ok [OF assms(1) g] show ?thesis
    by (auto simp: rRemoveBrokerEndpoint_def Let_def split: option.splits prod.splits sum.splits)
qed

lemma registry_step_ok:
  assumes "registry_step be lib env s s'" and "pools_inv be docs entry s" and "registry_ok docs env s"
  shows "pools_inv be docs entry s' \<and> registry_ok docs env s'"
  using assms(1)
proof cases
  case (reg_add mp r err)
  note add = AddMessagePool_rows [OF assms(2) reg_add(2)]
  obtain s1 mp1 e1 where c: "CreateBrokerEndpoint lib env s mp = (s1, mp1, e1)" by (rule prod_cases3)
  have ok: "settings_ok env (settings s1)" "pool_ok mp1"
    using CreateBrokerEndpoint_ok [OF _ reg_add(1) c] assms(3) by (simp_all add: registry_ok_def)
  have set': "settings s' = settings s1" and r: "r = (if e1 = None then Some mp1 else None)"
    using reg_add(2) c by (auto simp: AddMessagePool_def Let_def split: prod.splits if_splits)
  have "rows docs s' = rows docs s \<or> rows docs s' = (rows docs s)(GetName mp \<mapsto> row_of mp1)"
    using add(2,3) r by (cases err) (auto split: if_splits)
  then show ?thesis
    using add(1) assms(3) ok set' unfolding registry_ok_def
    by (metis fun_upd_apply option.inject)
next
  case (reg_get name res)
  have "settings s' = settings s"
    using reg_get by (auto simp: GetMessagePool_def Let_def split: prod.splits sum.splits)
  with GetMessagePool_rows(1,2) [OF assms(2) reg_get] assms(3) show ?thesis by (simp add: registry_ok_def)
next
  case (reg_remove name err)
  note rem = RemoveMessagePool_rows [OF assms(2) reg_remove]
  obtain s1 res where g: "GetMessagePool be s name = (s1, res)" by force
  then have s1: "settings s1 = settings s"
    by (auto simp: GetMessagePool_def Let_def split: prod.splits sum.splits)
  have "settings_ok env (settings s')"
    using reg_remove g s1 assms(3) RemoveBrokerEndpoint_settings [of env s1 lib]
    by (auto simp: RemoveMessagePool_def registry_ok_def Let_def split: sum.splits prod.splits if_splits) 
  moreover have "rows docs s' = rows docs s \<or> rows docs s' = (rows docs s)(name := None)"
    using rem(2,3) by (cases err) auto
  ultimately show ?thesis
    using rem(1) assms(3) unfolding registry_ok_def by (metis fun_upd_apply option.distinct(1))
qed

section \<open>Properties\<close>

text \<open>C20: A pool read back from its database row is the pool that was written: broker, name, queue
  and every field of its configuration, through the JSON text.\<close>
theorem pool_database_roundtrip:
  assumes "pool_ok mp"
  shows "createFromDatabase \<lparr>dbName = GetName mp, dbQueue = GetQueue mp, dbBroker = GetBroker mp,
     dbConfig = GetJSONConfig mp\<rparr> = Inr mp"
  using pool_from_row [OF assms] by (simp add: row_of_def)

lemma pool_database_roundtrip_witness:
  "createFromDatabase \<lparr>dbName = ''p'', dbQueue = ''a<b'', dbBroker = ''rabbitmq'',
     dbConfig = GetJSONConfig (RabbitMQPool (NewRabbitMQMessagePool ''p'' ''a<b''))\<rparr>
   = Inr (RabbitMQPool (NewRabbitMQMessagePool ''p'' ''a<b''))"
  using pool_database_roundtrip [of "RabbitMQPool (NewRabbitMQMessagePool ''p'' ''a<b'')"]
  by (simp add: NewRabbitMQMessagePool_def rGetConfig_def rabbit_json_def ascii_def map_ok_def)

text \<open>C21: While the database answers, a pool that was added is the pool that is found under its
  name, and once it is removed no pool is.\<close>
theorem pool_lifecycle:
  assumes "pools_live be docs entry s" and "AddMessagePool be lib env s mp = (s1, Some mp', None)"
    and "pool_ok mp'"
  shows "snd (GetMessagePool be s1 (GetName mp)) = Inr mp' \<and>
    (RemoveMessagePool be lib env s1 (GetName mp) = (s2, None) \<longrightarrow>
      snd (GetMessagePool be s2 (GetName mp)) = Inl ErrNoSuchPool)"
proof -
  note live1 = AddMessagePool_pools_live [OF assms(1,2)]
  have "rows docs s1 (GetName mp) = Some (row_of mp')"
    using AddMessagePool_rows(2) [OF pools_liveD(1) [OF assms(1)] assms(2)] by simp
  moreover have "snd (GetMessagePool be s2 (GetName mp)) = Inl ErrNoSuchPool"
    if "RemoveMessagePool be lib env s1 (GetName mp) = (s2, None)"
    using GetMessagePool_live [OF RemoveMessagePool_pools_live [OF live1 that]]
      RemoveMessagePool_rows(2) [OF pools_liveD(1) [OF live1] that] by simp
  ultimately show ?thesis
    using GetMessagePool_live [OF live1] pool_from_row [OF assms(3)] by simp
qed

text \<open>An instance: a broker that refuses nothing, an empty registry.\<close>

definition quiet_lib :: "unit broker_lib" where
  "quiet_lib = \<lparr>NewAdminClient = (\<lambda>w a. None), CreateTopics = (\<lambda>w a t. (w, Inr [(t, None)])),
     DeleteTopics = (\<lambda>w a t. (w, Inr [(t, None)])), Dial = (\<lambda>w c. None), OpenChannel = (\<lambda>w c. None),
     QueueDelete = (\<lambda>w c q. (w, Inr 0))\<rparr>"

definition empty_registry :: "'w \<Rightarrow> ('w, MessagePool list, (string \<times> MessagePool) list) registry" where
  "empty_registry w = \<lparr>world = w,
     settings = \<lparr>Rabbitmq = \<lparr>rHost = ''h'', rPort = 1, rUsername = ''u'', rPassword = ''p''\<rparr>,
       Kafka = \<lparr>kHost = ''h'', kPort = 1, kClientId = ''c'', kGroupId = ''g''\<rparr>,
       rabbitmq_init = True, kafka_init = True\<rparr>,
     pools = \<lparr>coll = [], cache = []\<rparr>\<rparr>"

lemma empty_registry_live:
  "pools_live (mem_backend (same_key dbName) n) mem_docs map_of (empty_registry w)"
  by (simp add: pools_live_def pools_inv_def cached_inv_def mem_backend_ok mem_backend_live coherent_def
      backed_def empty_registry_def table_def reflp_def)

lemma pool_lifecycle_witness:
  "let be = mem_backend (same_key dbName) 0; mp = RabbitMQPool (NewRabbitMQMessagePool ''p'' ''q'');
       (s1, r, err) = AddMessagePool be quiet_lib Map.empty (empty_registry ()) mp
   in err = None \<and> snd (GetMessagePool be s1 ''p'') = Inr mp"
proof -
  let ?be = "mem_backend (same_key dbName) 0" and ?mp = "RabbitMQPool (NewRabbitMQMessagePool ''p'' ''q'')"
  obtain s1 where run: "AddMessagePool ?be quiet_lib Map.empty (empty_registry ()) ?mp = (s1, Some ?mp, None)"
    by (simp add: AddMessagePool_def addMessagePool_def mem_simps
        empty_registry_def Let_def)
  have "pool_ok ?mp"
    by (simp add: NewRabbitMQMessagePool_def rGetConfig_def rabbit_json_def ascii_def map_ok_def)
  from pool_lifecycle [OF empty_registry_live run this] run show ?thesis
    by (simp add: NewRabbitMQMessagePool_def)
qed

text \<open>C19: Whatever is added (from pools with ASCII configuration), looked up and removed in whatever order,
  every row of the registry stays typed: a look-up
  finds no pool or a pool of that name, never a row it cannot decode.\<close>
theorem registry_typed:
  assumes "pools_live be docs entry s" and "registry_ok docs env s" and "(registry_step be lib env)\<^sup>*\<^sup>* s t"
  shows "registry_ok docs env t \<and> (case snd (GetMessagePool be t name) of
      Inl err \<Rightarrow> err = ErrNoSuchPool \<and> rows docs t name = None
    | Inr mp \<Rightarrow> pool_ok mp \<and> GetName mp = name \<and> rows docs t name = Some (row_of mp))"
proof -
  from assms(3,1,2) have "pools_live be docs entry t \<and> registry_ok docs env t"
    by (induction rule: rtranclp_induct) (auto simp: pools_live_def dest: registry_step_ok)
  then have live: "pools_live be docs entry t" and ok: "registry_ok docs env t" by simp_all
  show ?thesis
  proof (cases "rows docs t name")
    case None
    with GetMessagePool_live [OF live] ok show ?thesis by simp
  next
    case (Some row)
    with ok obtain mp where mp: "pool_ok mp" "row = row_of mp" unfolding registry_ok_def by blast
    moreover have "dbName row = name" using Some by (auto simp: table_def dest: lookup_by_SomeD)
    ultimately show ?thesis
      using GetMessagePool_live [OF live, of name] ok Some pool_from_row [of mp] by (simp, simp add: row_of_def)
  qed
qed

lemma registry_typed_witness:
  "let be = mem_backend (same_key dbName) 0; mp = KafkaPool (NewKafkaMessagePool ''p'' ''t'');
       (s1, r, err) = AddMessagePool be quiet_lib Map.empty (empty_registry ()) mp
   in registry_ok mem_docs Map.empty s1 \<and> (\<exists>mp'. snd (GetMessagePool be s1 ''p'') = Inr mp' \<and> pool_ok mp' \<and> GetName mp' = ''p'')"
proof -
  let ?be = "mem_backend (same_key dbName) 0" and ?mp = "KafkaPool (NewKafkaMessagePool ''p'' ''t'')"
  obtain s1 r err where run: "AddMessagePool ?be quiet_lib Map.empty (empty_registry ()) ?mp = (s1, r, err)"
    by (rule prod_cases3)
  then have row: "rows mem_docs s1 ''p'' \<noteq> None"
    by (auto simp: AddMessagePool_def addMessagePool_def mem_simps kCreateBrokerEndpoint_def quiet_lib_def
        GetKafkaConnectionConfig_def empty_registry_def Let_def table_def NewKafkaMessagePool_def)
  have "pool_ok ?mp"
    by (simp add: NewKafkaMessagePool_def kGetConfig_def kafka_json_def ascii_def)
  from reg_add [OF this run] have "(registry_step ?be quiet_lib Map.empty)\<^sup>*\<^sup>* (empty_registry ()) s1" by simp
  moreover have "registry_ok mem_docs Map.empty (empty_registry ())"
    by (simp add: registry_ok_def settings_ok_def empty_registry_def table_def ascii_def)
  ultimately have "registry_ok mem_docs Map.empty s1 \<and> (case snd (GetMessagePool ?be s1 ''p'') of
      Inl err \<Rightarrow> err = ErrNoSuchPool \<and> rows mem_docs s1 ''p'' = None
    | Inr mp \<Rightarrow> pool_ok mp \<and> GetName mp = ''p'' \<and> rows mem_docs s1 ''p'' = Some (row_of mp))"
    by (intro registry_typed [OF empty_registry_live])
  with run row show ?thesis by (cases "snd (GetMessagePool ?be s1 ''p'')") auto
qed

text \<open>C22: Removing a pool nobody added answers \<open>ErrNoSuchPool\<close> and touches neither the brokers nor
  the rows; adding a pool under a name in use answers \<open>ErrDuplicateKey\<close> and changes no row,
  but the topic it created on the broker by then stays.\<close>
theorem pool_error_paths:
  assumes "pools_live be docs entry s"
  shows "(rows docs s name = None \<longrightarrow> (\<exists>s'. RemoveMessagePool be lib env s name = (s', Some ErrNoSuchPool) \<and>
      world s' = world s \<and> rows docs s' = rows docs s)) \<and>
    (rows docs s (GetName mp) \<noteq> None \<and> CreateBrokerEndpoint lib env s mp = (s1, mp', None) \<longrightarrow>
      (\<exists>s'. AddMessagePool be lib env s mp = (s', Some mp', Some ErrDuplicateKey) \<and>
        world s' = world s1 \<and> rows docs s' = rows docs s))"
proof (intro conjI impI)
  assume none: "rows docs s name = None"
  obtain s' res where g: "GetMessagePool be s name = (s', res)" by force
  then have "res = Inl ErrNoSuchPool" using GetMessagePool_live [OF assms, of name] none by simp
  with g GetMessagePool_rows(2,3) [OF pools_liveD(1) [OF assms] g]
  show "\<exists>s'. RemoveMessagePool be lib env s name = (s', Some ErrNoSuchPool) \<and>
      world s' = world s \<and> rows docs s' = rows docs s"
    by (simp add: RemoveMessagePool_def)
next
  assume a: "rows docs s (GetName mp) \<noteq> None \<and> CreateBrokerEndpoint lib env s mp = (s1, mp', None)"
  then have c: "CreateBrokerEndpoint lib env s mp = (s1, mp', None)" by simp
  note keep = CreateBrokerEndpoint_pools [OF c]
  have "snd (addMessagePool be (pools s) (row_of mp')) = Some ErrDuplicateKey"
    using live_pools.add_live [OF pools_liveD(2) [OF assms], of "row_of mp'"] a keep by (simp add: row_of_def)
  then obtain p where add: "addMessagePool be (pools s) (row_of mp') = (p, Some ErrDuplicateKey)"
    by (metis prod.collapse)
  then have run: "AddMessagePool be lib env s mp = (s1\<lparr>pools := p\<rparr>, Some mp', Some ErrDuplicateKey)"
    using c keep by (simp add: AddMessagePool_def row_of_def Let_def)
  from AddMessagePool_rows(3) [OF pools_liveD(1) [OF assms] run] run
  show "\<exists>s'. AddMessagePool be lib env s mp = (s', Some mp', Some ErrDuplicateKey) \<and>
      world s' = world s1 \<and> rows docs s' = rows docs s"
    by simp
qed

lemma pool_error_paths_witness:
  "\<exists>s'. RemoveMessagePool (mem_backend (same_key dbName) 0) quiet_lib Map.empty (empty_registry ()) ''x''
      = (s', Some ErrNoSuchPool) \<and> world s' = ()"
  using pool_error_paths [OF empty_registry_live, of "()" "''x''" 0 quiet_lib Map.empty]
  by (auto simp: empty_registry_def table_def)

text \<open>C23: The messages shown for a pool are those its own tasks log: the handlers compute the id the
  read and the write task use.  Read and write logs never mix, and among pools whose names
  have no colon an id belongs to one broker, name and queue.\<close>
theorem task_log_ids:
  shows "GetMessagePoolReadMessages m tm (row_of mp) = getTaskMessages m tm (readTaskId mp) \<and>
    GetMessagePoolWriteMessages m tm (row_of mp) = getTaskMessages m tm (writeTaskId mp) \<and>
    readTaskId mp \<noteq> writeTaskId mp' \<and>
    (CHR '':'' \<notin> set (GetName mp) \<and> CHR '':'' \<notin> set (GetName mp') \<and> getTaskId mp = getTaskId mp' \<longrightarrow>
      GetBroker mp = GetBroker mp' \<and> GetName mp = GetName mp' \<and> GetQueue mp = GetQueue mp')"
  using pool_messages_ids(1) [of m tm mp] pool_messages_ids(2) [of m tm mp]
    read_write_ids_differ [of mp mp'] getTaskId_inject [of mp mp'] by simp

lemma task_log_ids_witness:
  "readTaskId (KafkaPool (NewKafkaMessagePool ''p'' ''t'')) = ''kafka:p:t:read'' \<and>
   readTaskId (KafkaPool (NewKafkaMessagePool ''p'' ''t'')) \<noteq> writeTaskId (KafkaPool (NewKafkaMessagePool ''p'' ''t''))"
  using task_log_ids [where m = "mem_coll (\<lambda>_ _. False)" and tm = "[]" and mp = "KafkaPool (NewKafkaMessagePool ''p'' ''t'')"
      and mp' = "KafkaPool (NewKafkaMessagePool ''p'' ''t'')"]
  by (simp add: readTaskId_def NewKafkaMessagePool_def)

text \<open>With colons ids collide: moving one from the queue into the name gives another pool with the
  same id, so the two share their logs and only one of their read tasks is scheduled at a
  time.\<close>
theorem task_ids_collide:
  "getTaskId (RabbitMQPool (NewRabbitMQMessagePool a (b @ '':'' @ c)))
    = getTaskId (RabbitMQPool (NewRabbitMQMessagePool (a @ '':'' @ b) c)) \<and>
   RabbitMQPool (NewRabbitMQMessagePool a (b @ '':'' @ c)) \<noteq> RabbitMQPool (NewRabbitMQMessagePool (a @ '':'' @ b) c)"
  by (simp add: NewRabbitMQMessagePool_def)

end
