(* ===== verification/BrokerTasks.thy ===== *)
theory BrokerTasks
  imports Registry EsbRecords
begin

text \<open>
  The bodies of the read and write tasks of \<open>internal/brokers/rabbitmq.go\<close> and \<open>kafka.go\<close>.  A
  \<open>select\<close> loop is a function of the sequence of events it takes: what the \<open>select\<close> (or
  \<open>Poll\<close>) chose, in order.  The task keeps its batch \<open>msgs\<close>, the log is the collection of
  task messages, and \<open>submit\<close> is \<open>submitToESB\<close> with the record that was found.

  What the loops promise to whoever reads the output pool is proved against the interface
  \<open>esb_sink\<close>; \<open>Esb\<close> interprets it.
\<close>

section \<open>RabbitMQ: connecting\<close>

text \<open>The AMQP calls as the answers they give; \<open>conn\<close> and \<open>ch\<close> are open or not.\<close>

record amqp =
  dial :: "string \<Rightarrow> go_error option"
  channel :: "string \<Rightarrow> go_error option"
  queueDeclare :: "string \<Rightarrow> RabbitMQQueueConfig \<Rightarrow> go_error + string"
  consume :: "string \<Rightarrow> RabbitMQReadConfig \<Rightarrow> go_error option"

record rabbitMQTask =
  task_pool :: RabbitMQMessagePool
  conn :: bool
  ch :: bool
  q :: "string option"

definition newRabbitMQBaseTask :: "RabbitMQMessagePool \<Rightarrow> rabbitMQTask" where
  "newRabbitMQBaseTask pool = \<lparr>task_pool = pool, conn = False, ch = False, q = None\<rparr>"

definition rabbit_connectAndPrepare :: "amqp \<Rightarrow> env \<Rightarrow> brokers_config \<Rightarrow> rabbitMQTask
    \<Rightarrow> brokers_config \<times> rabbitMQTask \<times> go_error option" where
  "rabbit_connectAndPrepare lib env st t =
     (let (st, s) = GetRabbitMQConnectionConfig env st in
      case s of
        Inl err \<Rightarrow> (st, t, Some err)
      | Inr s \<Rightarrow>
          let cs = getRabbitMqConnectionString s in
          case dial lib cs of
            Some err \<Rightarrow> (st, t, Some err)
          | None \<Rightarrow>
              let t = t\<lparr>conn := True\<rparr> in
              (case channel lib cs of
                 Some err \<Rightarrow> (st, t, Some err)
               | None \<Rightarrow>
                   let t = t\<lparr>ch := True\<rparr> in
                   (case queueDeclare lib (rqueue (task_pool t)) (rqcfg (task_pool t)) of
                      Inl err \<Rightarrow> (st, t, Some err)
                    | Inr name \<Rightarrow> (st, t\<lparr>q := Some name\<rparr>, None))))"

definition rabbit_close :: "rabbitMQTask \<Rightarrow> rabbitMQTask" where
  "rabbit_close t = t\<lparr>ch := False, conn := False\<rparr>"

section \<open>RabbitMQ: reading\<close>

text \<open>
  The choices of the \<open>select\<close>: the context is done, a message arrives, the ticker fires.  A
  closed delivery channel delivers empty messages for ever.
\<close>

datatype read_event = CtxDone | Received string | Tick

record ('c, 's) reading =
  msgs :: "string list"
  log :: 'c
  sink :: 's

text \<open>\<^term>\<open>None\<close>: the loop is still waiting after these events; otherwise the error it returned.\<close>

fun rabbit_read_loop :: "('c, TaskMessage) coll_driver \<Rightarrow> ('s \<Rightarrow> string list \<Rightarrow> 's \<times> go_error option)
    \<Rightarrow> string \<Rightarrow> bool \<Rightarrow> ('c, 's) reading \<Rightarrow> read_event list
    \<Rightarrow> ('c, 's) reading \<times> go_error option option" where
  "rabbit_read_loop m submit tid has_esb_record t [] = (t, None)"
| "rabbit_read_loop m submit tid has_esb_record t (CtxDone # es) = (t, Some None)"
| "rabbit_read_loop m submit tid has_esb_record t (Received body # es) =
     (let t = t\<lparr>msgs := msgs t @ [body]\<rparr>;
          (c, err) = addTaskMessage m (log t) \<lparr>TaskId = tid, Message = body\<rparr>;
          t = t\<lparr>log := c\<rparr> in
      if err \<noteq> None then (t, Some err) else rabbit_read_loop m submit tid has_esb_record t es)"
| "rabbit_read_loop m submit tid has_esb_record t (Tick # es) =
     (if has_esb_record \<and> length (msgs t) > 0 then
        let (s, err) = submit (sink t) (msgs t); t = t\<lparr>sink := s\<rparr> in
        if err \<noteq> None then (t, Some err)
        else rabbit_read_loop m submit tid has_esb_record (t\<lparr>msgs := []\<rparr>) es
      else rabbit_read_loop m submit tid has_esb_record t es)"

text \<open>\<open>esb_record\<close> is what \<open>GetESBRecord\<close> answered for the pool of the task.\<close>

definition rabbit_read :: "('c, TaskMessage) coll_driver \<Rightarrow> (ESBRecord \<Rightarrow> 's \<Rightarrow> string list \<Rightarrow> 's \<times> go_error option)
    \<Rightarrow> amqp \<Rightarrow> rabbitMQTask \<Rightarrow> go_error + ESBRecord \<Rightarrow> ('c, 's) reading \<Rightarrow> read_event list
    \<Rightarrow> ('c, 's) reading \<times> go_error option option" where
  "rabbit_read m submit lib task esb_record t es =
     (case consume lib (the (q task)) (rrcfg (task_pool task)) of
        Some err \<Rightarrow> (t, Some (Some err))
      | None \<Rightarrow>
          let tid = readTaskId (RabbitMQPool (task_pool task)) in
          (case esb_record of
             Inr rec \<Rightarrow> rabbit_read_loop m (submit rec) tid True t es
           | Inl err \<Rightarrow>
               if err = ErrNoSuchRecord
               then rabbit_read_loop m (\<lambda>s ms. (s, None)) tid False t es
               else (t, Some (Some err))))"

section \<open>RabbitMQ: writing\<close>

fun rabbit_write :: "('c, TaskMessage) coll_driver \<Rightarrow> ('w \<Rightarrow> string \<Rightarrow> 'w \<times> go_error option)
    \<Rightarrow> string \<Rightarrow> 'w \<times> 'c \<Rightarrow> string list \<Rightarrow> ('w \<times> 'c) \<times> go_error option" where
  "rabbit_write m publish tid (w, c) [] = ((w, c), None)"
| "rabbit_write m publish tid (w, c) (msg # rest) =
     (let (w, err) = publish w msg in
      if err \<noteq> None then ((w, c), err)
      else
        let (c, err) = addTaskMessage m c \<lparr>TaskId = tid, Message = msg\<rparr> in
        if err \<noteq> None then ((w, c), err) else rabbit_write m publish tid (w, c) rest)"

section \<open>Kafka: reading\<close>

text \<open>
  What \<open>Poll\<close> returns: a message, an error, anything else (a timeout, say).  The goroutine
  runs while \<open>run\<close> is set; the end of the event list is the deadline, which clears it.  The
  test after \<open>AddTaskMessage\<close> reads \<open>err\<close> and not \<open>databaseErr\<close>.
\<close>

datatype poll_event = KMessage string | KError go_error | KOther

fun kafka_poll_loop :: "('c, TaskMessage) coll_driver \<Rightarrow> ('s \<Rightarrow> string list \<Rightarrow> 's \<times> go_error option)
    \<Rightarrow> string \<Rightarrow> bool \<Rightarrow> ('c, 's) reading \<Rightarrow> go_error option \<Rightarrow> bool \<Rightarrow> poll_event list
    \<Rightarrow> ('c, 's) reading \<times> go_error option" where
  "kafka_poll_loop m submit tid has_esb_record t err run [] = (t, err)"
| "kafka_poll_loop m submit tid has_esb_record t err run (ev # evs) =
     (if \<not> run then (t, err)
      else case ev of
        KMessage value \<Rightarrow>
          let t = t\<lparr>msgs := msgs t @ [value]\<rparr>;
              (c, databaseErr) = addTaskMessage m (log t) \<lparr>TaskId = tid, Message = value\<rparr>;
              t = t\<lparr>log := c\<rparr> in
          if err \<noteq> None then kafka_poll_loop m submit tid has_esb_record t databaseErr False evs
          else kafka_poll_loop m submit tid has_esb_record t err run evs
      | KError e \<Rightarrow> kafka_poll_loop m submit tid has_esb_record t (Some e) False evs
      | KOther \<Rightarrow>
          if has_esb_record \<and> length (msgs t) > 0 then
            let (s, esb_err) = submit (sink t) (msgs t); t = t\<lparr>sink := s, msgs := []\<rparr> in
            if esb_err \<noteq> None then kafka_poll_loop m submit tid has_esb_record t esb_err False evs
            else kafka_poll_loop m submit tid has_esb_record t err run evs
          else kafka_poll_loop m submit tid has_esb_record t err run evs)"

record kafka_lib =
  newConsumer :: "KafkaMessagePool \<Rightarrow> go_error option"
  subscribe :: "string \<Rightarrow> go_error option"
  newProducer :: "KafkaMessagePool \<Rightarrow> go_error option"

definition kafka_read :: "('c, TaskMessage) coll_driver \<Rightarrow> (ESBRecord \<Rightarrow> 's \<Rightarrow> string list \<Rightarrow> 's \<times> go_error option)
    \<Rightarrow> kafka_lib \<Rightarrow> KafkaMessagePool \<Rightarrow> go_error + ESBRecord \<Rightarrow> ('c, 's) reading \<Rightarrow> poll_event list
    \<Rightarrow> ('c, 's) reading \<times> go_error option" where
  "kafka_read m submit lib pool esb_record t evs =
     (case newConsumer lib pool of
        Some err \<Rightarrow> (t, Some err)
      | None \<Rightarrow> (case subscribe lib (ktopic pool) of
          Some err \<Rightarrow> (t, Some err)
        | None \<Rightarrow>
            let tid = readTaskId (KafkaPool pool) in
            (case esb_record of
               Inr rec \<Rightarrow> kafka_poll_loop m (submit rec) tid True t None True evs
             | Inl err \<Rightarrow>
                 if err = ErrNoSuchRecord
                 then kafka_poll_loop m (\<lambda>s ms. (s, None)) tid False t None True evs
                 else (t, Some err))))"

section \<open>Kafka: writing\<close>

text \<open>\<open>produce\<close> enqueues a message; the delivery reports come back on a channel, in any order,
  each with its own error, and race with the context.\<close>

datatype delivery = CtxTimeout | Report string "go_error option"

fun produce_all :: "('w \<Rightarrow> string \<Rightarrow> 'w \<times> go_error option) \<Rightarrow> 'w \<Rightarrow> string list \<Rightarrow> 'w \<times> go_error option" where
  "produce_all produce w [] = (w, None)"
| "produce_all produce w (msg # rest) =
     (let (w, err) = produce w msg in if err \<noteq> None then (w, err) else produce_all produce w rest)"

fun await_deliveries :: "('c, TaskMessage) coll_driver \<Rightarrow> string \<Rightarrow> 'c \<Rightarrow> nat \<Rightarrow> delivery list
    \<Rightarrow> 'c \<times> go_error option option" where
  "await_deliveries m tid c 0 ds = (c, Some None)"
| "await_deliveries m tid c (Suc n) [] = (c, None)"
| "await_deliveries m tid c (Suc n) (CtxTimeout # ds) =
     (c, Some (Some (GoError ''timeout to write batch'')))"
| "await_deliveries m tid c (Suc n) (Report value (Some err) # ds) = (c, Some (Some err))"
| "await_deliveries m tid c (Suc n) (Report value None # ds) =
     (let (c, err) = addTaskMessage m c \<lparr>TaskId = tid, Message = value\<rparr> in
      if err \<noteq> None then (c, Some err) else await_deliveries m tid c n ds)"

definition kafka_write :: "('c, TaskMessage) coll_driver \<Rightarrow> kafka_lib \<Rightarrow> ('w \<Rightarrow> string \<Rightarrow> 'w \<times> go_error option)
    \<Rightarrow> KafkaMessagePool \<Rightarrow> 'w \<times> 'c \<Rightarrow> string list \<Rightarrow> delivery list
    \<Rightarrow> ('w \<times> 'c) \<times> go_error option option" where
  "kafka_write m lib produce pool wc ms ds =
     (case wc of (w, c) \<Rightarrow>
      case newProducer lib pool of
        Some err \<Rightarrow> ((w, c), Some (Some err))
      | None \<Rightarrow>
          let (w, err) = produce_all produce w ms in
          if err \<noteq> None then ((w, c), Some err)
          else
            let (c, res) = await_deliveries m (writeTaskId (KafkaPool pool)) c (length ms) ds in
            ((w, c), res))"


section \<open>The interface of the forwarder\<close>

locale esb_sink =
  fixes submit :: "'s \<Rightarrow> string list \<Rightarrow> 's \<times> go_error option"
    and sent :: "'s \<Rightarrow> string list"
    and ok :: "'s \<Rightarrow> bool"
  assumes submit_keeps: "ok s \<Longrightarrow> submit s ms = (s', err) \<Longrightarrow> ok s'"
    and submit_done: "ok s \<Longrightarrow> submit s ms = (s', None) \<Longrightarrow> sent s' = sent s @ ms"
    and submit_fails: "ok s \<Longrightarrow> submit s ms = (s', Some e) \<Longrightarrow> sent s' = sent s"

text \<open>What a sequence of events delivers to the loop before the deadline.\<close>

fun bodies :: "read_event list \<Rightarrow> string list" where
  "bodies [] = []"
| "bodies (CtxDone # es) = []"
| "bodies (Received b # es) = b # bodies es"
| "bodies (Tick # es) = bodies es"

text \<open>
  The batch so far, \<open>all\<close>, is what was forwarded and what is still held; \<open>kept docs tid t t' bs\<close> says that
  between two states the messages \<open>bs\<close> came in and none got lost.
\<close>

definition kept :: "('c \<Rightarrow> TaskMessage list) \<Rightarrow> ('s \<Rightarrow> string list) \<Rightarrow> string \<Rightarrow> ('c, 's) reading
    \<Rightarrow> ('c, 's) reading \<Rightarrow> string list \<Rightarrow> bool" where
  "kept docs sent tid t t' bs \<longleftrightarrow>
     sent (sink t') @ msgs t' = sent (sink t) @ msgs t @ bs \<and>
     (\<exists>ls. task_log docs (log t') tid = task_log docs (log t) tid @ ls \<and> (ls = bs \<or> (\<exists>b. bs = ls @ [b])))"

lemma log_message:
  assumes "log_ok m docs" and "addTaskMessage m c \<lparr>TaskId = tid, Message = b\<rparr> = (c', err)"
  shows "task_log docs c' tid = task_log docs c tid @ (if err = None then [b] else [])"
  using addTaskMessage_ok [OF assms(1), of c _ c' tid] addTaskMessage_err [OF assms(1), of c _ c'] assms(2)
  by (cases err) (simp_all add: task_log_def)

lemma kafka_poll_stopped: "kafka_poll_loop m submit tid has t err False evs = (t, err)"
  by (cases evs) simp_all

context esb_sink
begin

text \<open>One run of the RabbitMQ loop.\<close>

lemma rabbit_read_kept:
  assumes "log_ok m docs" and "ok (sink t)"
    and "rabbit_read_loop m submit tid has t es = (t', r)"
  shows "ok (sink t')"
    and "\<exists>bs. prefix bs (bodies es) \<and> kept docs sent tid t t' bs \<and>
      ((\<nexists>e. r = Some (Some e)) \<longrightarrow> bs = bodies es \<and>
        task_log docs (log t') tid = task_log docs (log t) tid @ bs)"
proof -
  have "ok (sink t') \<and> (\<exists>bs. prefix bs (bodies es) \<and> kept docs sent tid t t' bs \<and>
      ((\<nexists>e. r = Some (Some e)) \<longrightarrow> bs = bodies es \<and>
        task_log docs (log t') tid = task_log docs (log t) tid @ bs))"
    using assms(2,3)
  proof (induction es arbitrary: t rule: bodies.induct)
    case 1
    then show ?case by (auto simp: kept_def)
  next
    case (2 es)
    then show ?case by (auto simp: kept_def)
  next
    case (3 b es)
    let ?t1 = "t\<lparr>msgs := msgs t @ [b]\<rparr>"
    obtain c err where add: "addTaskMessage m (log t) \<lparr>TaskId = tid, Message = b\<rparr> = (c, err)" by force
    note lg = log_message [OF assms(1) add]
    show ?case
    proof (cases err)
      case None
      with 3 add have "rabbit_read_loop m submit tid has (?t1\<lparr>log := c\<rparr>) es = (t', r)" by simp
      from 3(1) [OF _ this] 3(2) obtain bs where "ok (sink t')" "prefix bs (bodies es)"
        "kept docs sent tid (?t1\<lparr>log := c\<rparr>) t' bs"
        "(\<nexists>e. r = Some (Some e)) \<longrightarrow> bs = bodies es \<and> task_log docs (log t') tid = task_log docs c tid @ bs"
        by auto
      with lg None show ?thesis by (intro conjI exI [of _ "b # bs"]) (auto simp: kept_def)
    next
      case (Some e)
      with 3 add have "t' = ?t1\<lparr>log := c\<rparr>" "r = Some (Some e)" by simp_all
      with 3(2) lg Some show ?thesis
        by (intro conjI exI [of _ "[b]"]) (auto simp: kept_def)
    qed
  next
    case (4 es)
    show ?case
    proof (cases "has \<and> msgs t \<noteq> []")
      case False
      with 4 show ?thesis by auto
    next
      case True
      obtain s' err where sub: "submit (sink t) (msgs t) = (s', err)" by force
      note ok' = submit_keeps [OF 4(2) sub]
      show ?thesis
      proof (cases err)
        case None
        let ?t1 = "t\<lparr>sink := s', msgs := []\<rparr>"
        from 4(3) sub True None have "rabbit_read_loop m submit tid has ?t1 es = (t', r)"
          by (simp add: Let_def)
        from 4(1) [OF _ this] True sub None ok' submit_done [OF 4(2), of "msgs t" s']
        show ?thesis by (auto simp: kept_def)
      next
        case (Some e)
        with 4(3) sub True have "t' = t\<lparr>sink := s'\<rparr>" "r = Some (Some e)" by (simp_all add: Let_def)
        with ok' submit_fails [OF 4(2), of "msgs t" s' e] sub Some show ?thesis
          by (auto simp: kept_def)
      qed
    qed
  qed
  then show "ok (sink t')"
    and "\<exists>bs. prefix bs (bodies es) \<and> kept docs sent tid t t' bs \<and>
      ((\<nexists>e. r = Some (Some e)) \<longrightarrow> bs = bodies es \<and>
        task_log docs (log t') tid = task_log docs (log t) tid @ bs)" by blast+
qed


text \<open>A batch is forwarded by a tick only: what came after the last one stays with the task.\<close>

lemma rabbit_read_leftover:
  assumes "rabbit_read_loop m submit tid True t (pre @ Tick # map Received bs @ [CtxDone]) = (t', Some None)"
    and "CtxDone \<notin> set pre"
  shows "msgs t' = bs"
  using assms
proof (induction pre arbitrary: t)
  case Nil
  have tail: "rabbit_read_loop m submit tid True u (map Received cs @ [CtxDone]) = (t', Some None) \<Longrightarrow>
      msgs t' = msgs u @ cs" for u cs
    by (induction cs arbitrary: u) (auto simp: Let_def split: prod.splits if_splits)
  from Nil show ?case
    by (auto simp: Let_def split: prod.splits if_splits dest!: tail)
next
  case (Cons e pre)
  then show ?case
    by (cases e) (auto simp: Let_def split: prod.splits if_splits)
qed

text \<open>One run of Kafka's loop that ends without an error.\<close>

lemma kafka_read_kept:
  assumes "log_ok m docs" and "ok (sink t)"
    and "kafka_poll_loop m submit tid has t None True evs = (t', None)"
  shows "ok (sink t')" and "sent (sink t') @ msgs t' = sent (sink t) @ msgs t
      @ concat (map (\<lambda>ev. case ev of KMessage v \<Rightarrow> [v] | _ \<Rightarrow> []) evs)"
proof -
  have "ok (sink t') \<and> sent (sink t') @ msgs t' = sent (sink t) @ msgs t
      @ concat (map (\<lambda>ev. case ev of KMessage v \<Rightarrow> [v] | _ \<Rightarrow> []) evs)"
    using assms(2,3)
  proof (induction evs arbitrary: t)
    case (Cons ev evs)
    show ?case
    proof (cases ev)
      case (KMessage v)
      with Cons.prems(2) obtain c where
        "kafka_poll_loop m submit tid has (t\<lparr>msgs := msgs t @ [v], log := c\<rparr>) None True evs = (t', None)"
        by (auto simp: Let_def split: prod.splits)
      from Cons.IH [OF _ this] Cons.prems(1) KMessage show ?thesis by simp
    next
      case (KError e)
      with Cons.prems show ?thesis by (simp add: kafka_poll_stopped)
    next
      case KOther
      show ?thesis
      proof (cases "has \<and> msgs t \<noteq> []")
        case True
        obtain s' e where sub: "submit (sink t) (msgs t) = (s', e)" by force
        have e: "e = None"
          using Cons.prems(2) KOther True sub by (cases e) (simp_all add: Let_def kafka_poll_stopped)
        with Cons.prems(2) KOther True sub have
          "kafka_poll_loop m submit tid has (t\<lparr>sink := s', msgs := []\<rparr>) None True evs = (t', None)"
          by (simp add: Let_def)
        from Cons.IH [OF _ this] submit_keeps [OF Cons.prems(1) sub]
          submit_done [OF Cons.prems(1), of "msgs t" s'] sub e KOther
        show ?thesis by simp
      next
        case False
        with Cons.prems KOther Cons.IH [of t] show ?thesis by auto
      qed
    qed
  qed simp
  then show "ok (sink t')" and "sent (sink t') @ msgs t' = sent (sink t) @ msgs t
      @ concat (map (\<lambda>ev. case ev of KMessage v \<Rightarrow> [v] | _ \<Rightarrow> []) evs)" by simp_all
qed

end

section \<open>Batches\<close>

text \<open>
  The batches of a run: what came in between two ticks, when that is anything, and what is still held at the
  end.  The poll loop of Kafka cuts where \<open>Poll\<close> returned neither a message nor an error.
\<close>

fun batches :: "string list \<Rightarrow> read_event list \<Rightarrow> string list list \<times> string list" where
  "batches held [] = ([], held)"
| "batches held (CtxDone # es) = ([], held)"
| "batches held (Received b # es) = batches (held @ [b]) es"
| "batches held (Tick # es) = (if held = [] then batches [] es else apfst (Cons held) (batches [] es))"

lemma concat_batches: "concat (fst (batches held es)) @ snd (batches held es) = held @ bodies es"
  by (induction held es rule: batches.induct) auto

fun read_event_of :: "poll_event \<Rightarrow> read_event" where
  "read_event_of (KMessage v) = Received v"
| "read_event_of (KError e) = CtxDone"
| "read_event_of KOther = Tick"

text \<open>What a task's loop needs of the forwarder: one task per batch that is taken, and none otherwise.\<close>

locale batch_sink =
  fixes submit :: "'s \<Rightarrow> string list \<Rightarrow> 's \<times> go_error option"
    and tasks :: "'s \<Rightarrow> 't list"
    and fits :: "string list \<Rightarrow> 't \<Rightarrow> bool"
    and ok :: "'s \<Rightarrow> bool"
  assumes submit_keeps: "ok s \<Longrightarrow> submit s ms = (s', err) \<Longrightarrow> ok s'"
    and submit_task: "ok s \<Longrightarrow> submit s ms = (s', None) \<Longrightarrow> \<exists>x. tasks s' = tasks s @ [x] \<and> fits ms x"
    and submit_none: "ok s \<Longrightarrow> submit s ms = (s', Some e) \<Longrightarrow> tasks s' = tasks s"
begin

lemma rabbit_read_batches:
  assumes "log_ok m docs" and "ok (sink t)" and "rabbit_read_loop m submit tid True t es = (t', r)"
  shows "\<exists>bs ts. tasks (sink t') = tasks (sink t) @ ts \<and> list_all2 fits bs ts \<and> prefix bs (fst (batches (msgs t) es)) \<and>
    prefix (concat bs @ msgs t') (msgs t @ bodies es) \<and>
    ((\<nexists>e. r = Some (Some e)) \<longrightarrow> bs = fst (batches (msgs t) es) \<and> msgs t' = snd (batches (msgs t) es) \<and>
      task_log docs (log t') tid = task_log docs (log t) tid @ bodies es)"
  using assms(2,3)
proof (induction es arbitrary: t rule: bodies.induct)
  case 1
  then show ?case by (intro exI [of _ "[]"]) simp
next
  case (2 es)
  then show ?case by (intro exI [of _ "[]"]) simp
next
  case (3 b es)
  obtain c err where add: "addTaskMessage m (log t) \<lparr>TaskId = tid, Message = b\<rparr> = (c, err)" by force
  note lg = log_message [OF assms(1) add]
  show ?case
  proof (cases err)
    case None
    with 3 add have "rabbit_read_loop m submit tid True (t\<lparr>msgs := msgs t @ [b], log := c\<rparr>) es = (t', r)" by simp
    from 3(1) [OF _ this] 3(2) lg None show ?thesis by auto
  next
    case (Some e)
    with 3 add have "t' = t\<lparr>msgs := msgs t @ [b], log := c\<rparr>" "r = Some (Some e)" by simp_all
    then show ?thesis by (intro exI [of _ "[]"]) simp
  qed
next
  case (4 es)
  show ?case
  proof (cases "msgs t = []")
    case True
    with 4(3) have "rabbit_read_loop m submit tid True t es = (t', r)" by simp
    from 4(1) [OF 4(2) this] True show ?thesis by simp
  next
    case False
    obtain s' err where sub: "submit (sink t) (msgs t) = (s', err)" by force
    show ?thesis
    proof (cases err)
      case None
      let ?t1 = "t\<lparr>sink := s', msgs := []\<rparr>"
      from 4(3) sub False None have run: "rabbit_read_loop m submit tid True ?t1 es = (t', r)" by (simp add: Let_def)
      obtain x where x: "tasks s' = tasks (sink t) @ [x]" "fits (msgs t) x"
        using submit_task [OF 4(2)] sub None by blast
      from 4(1) [OF _ run] submit_keeps [OF 4(2) sub] obtain bs ts where
        "tasks (sink t') = tasks s' @ ts" "list_all2 fits bs ts" "prefix bs (fst (batches [] es))"
        "prefix (concat bs @ msgs t') (bodies es)"
        "(\<nexists>e. r = Some (Some e)) \<longrightarrow> bs = fst (batches [] es) \<and> msgs t' = snd (batches [] es) \<and>
          task_log docs (log t') tid = task_log docs (log t) tid @ bodies es" by auto
      with x False show ?thesis by (intro exI [of _ "msgs t # bs"] exI [of _ "x # ts"]) simp
    next
      case (Some e)
      with 4(3) sub False have "t' = t\<lparr>sink := s'\<rparr>" "r = Some (Some e)" by (simp_all add: Let_def)
      with submit_none [OF 4(2)] sub Some show ?thesis by (intro exI [of _ "[]"]) auto
    qed
  qed
qed

lemma kafka_read_batches:
  assumes "ok (sink t)" and "kafka_poll_loop m submit tid True t None True evs = (t', err)"
  defines "es \<equiv> map read_event_of evs"
  shows "\<exists>bs ts. tasks (sink t') = tasks (sink t) @ ts \<and> list_all2 fits bs ts \<and> prefix bs (fst (batches (msgs t) es)) \<and>
    (err = None \<longrightarrow> bs = fst (batches (msgs t) es) \<and> msgs t' = snd (batches (msgs t) es))"
  using assms(1,2) unfolding es_def
proof (induction evs arbitrary: t)
  case Nil
  then show ?case by (intro exI [of _ "[]"]) simp
next
  case (Cons ev evs)
  show ?case
  proof (cases ev)
    case (KMessage v)
    with Cons.prems(2) obtain c where
      "kafka_poll_loop m submit tid True (t\<lparr>msgs := msgs t @ [v], log := c\<rparr>) None True evs = (t', err)"
      by (auto simp: Let_def split: prod.splits)
    from Cons.IH [OF _ this] Cons.prems(1) KMessage show ?thesis by simp
  next
    case (KError e)
    with Cons.prems show ?thesis by (intro exI [of _ "[]"]) (auto simp: kafka_poll_stopped)
  next
    case KOther
    show ?thesis
    proof (cases "msgs t = []")
      case True
      with Cons.prems KOther Cons.IH [of t] show ?thesis by simp
    next
      case False
      obtain s' e where sub: "submit (sink t) (msgs t) = (s', e)" by force
      show ?thesis
      proof (cases e)
        case None
        let ?t1 = "t\<lparr>sink := s', msgs := []\<rparr>"
        from Cons.prems(2) KOther False sub None have run: "kafka_poll_loop m submit tid True ?t1 None True evs = (t', err)"
          by (simp add: Let_def)
        obtain x where x: "tasks s' = tasks (sink t) @ [x]" "fits (msgs t) x"
          using submit_task [OF Cons.prems(1)] sub None by blast
        from Cons.IH [OF _ run] submit_keeps [OF Cons.prems(1) sub] obtain bs ts where
          "tasks (sink t') = tasks s' @ ts" "list_all2 fits bs ts"
          "prefix bs (fst (batches [] (map read_event_of evs)))"
          "err = None \<longrightarrow> bs = fst (batches [] (map read_event_of evs)) \<and>
            msgs t' = snd (batches [] (map read_event_of evs))"
          by auto
        with x False KOther show ?thesis by (intro exI [of _ "msgs t # bs"] exI [of _ "x # ts"]) simp
      next
        case (Some z)
        with Cons.prems(2) KOther False sub have "t' = t\<lparr>sink := s', msgs := []\<rparr>" "err = Some z"
          by (simp_all add: Let_def kafka_poll_stopped)
        with submit_none [OF Cons.prems(1)] sub Some show ?thesis by (intro exI [of _ "[]"]) auto
      qed
    qed
  qed
qed

end

section \<open>Writing\<close>

lemma rabbit_write_log:
  assumes "log_ok m docs" and "rabbit_write m publish tid (w, c) ms = ((w', c'), err)"
  shows "\<exists>k \<le> length ms. task_log docs c' tid = task_log docs c tid @ take k ms \<and> (err = None \<longrightarrow> k = length ms)"
  using assms(2)
proof (induction ms arbitrary: w c)
  case (Cons msg ms)
  obtain w1 e where p: "publish w msg = (w1, e)" by force
  obtain c1 e1 where add: "addTaskMessage m c \<lparr>TaskId = tid, Message = msg\<rparr> = (c1, e1)" by force
  note lg = log_message [OF assms(1) add]
  show ?case
  proof (cases "e = None \<and> e1 = None")
    case True
    with Cons.prems p add have "rabbit_write m publish tid (w1, c1) ms = ((w', c'), err)" by simp
    from Cons.IH [OF this] lg True obtain k where "k \<le> length ms"
      "task_log docs c' tid = task_log docs c tid @ msg # take k ms" "err = None \<longrightarrow> k = length ms" by auto
    then show ?thesis by (intro exI [of _ "Suc k"]) simp
  next
    case False
    with Cons.prems p add lg have "task_log docs c' tid = task_log docs c tid" "err \<noteq> None"
      by (auto split: if_splits)
    then show ?thesis by (intro exI [of _ 0]) simp
  qed
qed simp

text \<open>
  The write tasks of one pool, run one after the other, are the write task of all their messages; a
  queue takes what is published in order, and may or may not have a message whose
  publication failed.
\<close>

lemma rabbit_write_append:
  "rabbit_write m publish tid wc (as @ bs) = (case rabbit_write m publish tid wc as of
     (wc, None) \<Rightarrow> rabbit_write m publish tid wc bs | r \<Rightarrow> r)"
  by (induction m publish tid wc as rule: rabbit_write.induct)
    (auto simp: Let_def split: prod.splits option.splits)

definition queue_ok :: "('w \<Rightarrow> string \<Rightarrow> 'w \<times> go_error option) \<Rightarrow> ('w \<Rightarrow> string list) \<Rightarrow> bool" where
  "queue_ok publish queued \<longleftrightarrow> (\<forall>w b w' err. publish w b = (w', err) \<longrightarrow>
     queued w' = queued w @ [b] \<or> err \<noteq> None \<and> queued w' = queued w)"

lemma rabbit_write_queued:
  assumes "queue_ok publish queued" and "rabbit_write m publish tid (w, c) ms = ((w', c'), err)"
  shows "\<exists>k \<le> length ms. queued w' = queued w @ take k ms \<and> (err = None \<longrightarrow> k = length ms)"
  using assms(2)
proof (induction ms arbitrary: w c)
  case (Cons msg ms)
  obtain w1 e where p: "publish w msg = (w1, e)" by force
  obtain c1 e1 where add: "addTaskMessage m c \<lparr>TaskId = tid, Message = msg\<rparr> = (c1, e1)" by force
  have q: "queued w1 = queued w @ [msg] \<or> e \<noteq> None \<and> queued w1 = queued w"
    using assms(1) p by (simp add: queue_ok_def)
  show ?case
  proof (cases "e = None \<and> e1 = None")
    case True
    with Cons.prems p add have "rabbit_write m publish tid (w1, c1) ms = ((w', c'), err)" by simp
    from Cons.IH [OF this] q True obtain k where "k \<le> length ms"
      "queued w' = queued w @ msg # take k ms" "err = None \<longrightarrow> k = length ms" by auto
    then show ?thesis by (intro exI [of _ "Suc k"]) simp
  next
    case False
    with Cons.prems p add have "w' = w1" "err \<noteq> None" by (auto split: if_splits)
    with q show ?thesis
      by (elim disjE) (auto intro: exI [of _ 1] exI [of _ 0])
  qed
qed simp

lemma await_deliveries_log:
  assumes "log_ok m docs" and "await_deliveries m tid c n ds = (c', Some None)"
  shows "\<exists>vs. length vs = n \<and> prefix (map (\<lambda>v. Report v None) vs) ds \<and>
    task_log docs c' tid = task_log docs c tid @ vs"
  using assms(2)
proof (induction n arbitrary: c ds)
  case (Suc n)
  from Suc.prems obtain v ds' where ds: "ds = Report v None # ds'"
    by (cases ds; cases "hd ds") (auto split: option.splits elim!: await_deliveries.elims)
  obtain c1 e where add: "addTaskMessage m c \<lparr>TaskId = tid, Message = v\<rparr> = (c1, e)" by force
  with Suc.prems ds have e: "e = None" and "await_deliveries m tid c1 n ds' = (c', Some None)"
    by (auto split: if_splits)
  from Suc.IH [OF this(2)] log_message [OF assms(1) add] e obtain vs where
    "length vs = n" "prefix (map (\<lambda>v. Report v None) vs) ds'"
    "task_log docs c' tid = task_log docs c tid @ v # vs" by auto
  with ds show ?case by (intro exI [of _ "v # vs"]) simp
qed simp

text \<open>The database never speaks up in Kafka's loop: with \<open>err\<close> nil its answer is not looked at.\<close>

lemma kafka_poll_blind:
  assumes "msgs t1 = msgs t2" and "sink t1 = sink t2"
    and "kafka_poll_loop m1 submit tid has t1 None True evs = (u1, e1)"
    and "kafka_poll_loop m2 submit tid has t2 None True evs = (u2, e2)"
  shows "msgs u1 = msgs u2 \<and> sink u1 = sink u2 \<and> e1 = e2"
  using assms
proof (induction evs arbitrary: t1 t2)
  case (Cons ev evs)
  show ?case
  proof (cases ev)
    case (KMessage v)
    obtain c1 d1 c2 d2 where "addTaskMessage m1 (log t1) \<lparr>TaskId = tid, Message = v\<rparr> = (c1, d1)"
      "addTaskMessage m2 (log t2) \<lparr>TaskId = tid, Message = v\<rparr> = (c2, d2)" by (metis surj_pair)
    with Cons.prems KMessage show ?thesis
      by (intro Cons.IH [of "t1\<lparr>msgs := msgs t1 @ [v], log := c1\<rparr>" "t2\<lparr>msgs := msgs t2 @ [v], log := c2\<rparr>"])
        (simp_all add: Let_def)
  next
    case (KError e)
    with Cons.prems show ?thesis by (auto simp: kafka_poll_stopped)
  next
    case KOther
    show ?thesis
    proof (cases "has \<and> msgs t1 \<noteq> []")
      case True
      obtain s' e where sub: "submit (sink t1) (msgs t1) = (s', e)" by force
      show ?thesis
      proof (cases e)
        case None
        with Cons.prems KOther True sub show ?thesis
          by (intro Cons.IH [of "t1\<lparr>sink := s', msgs := []\<rparr>" "t2\<lparr>sink := s', msgs := []\<rparr>"])
            (simp_all add: Let_def)
      next
        case (Some x)
        with Cons.prems KOther True sub show ?thesis by (auto simp: kafka_poll_stopped Let_def)
      qed
    next
      case False
      with Cons.prems KOther Cons.IH [of t1 t2] show ?thesis by auto
    qed
  qed
qed simp

section \<open>Properties\<close>

text \<open>C26: Kafka's read loop ignores the database: whether the log of messages is kept or every write of
  it fails makes no difference to what the task forwards, holds and returns.  (The test reads
  \<open>err\<close> where \<open>databaseErr\<close> is meant.)\<close>
theorem kafka_ignores_log_errors:
  assumes "kafka_poll_loop m1 submit tid has \<lparr>msgs = ms, log = c1, sink = s\<rparr> None True evs = (u1, e1)"
    and "kafka_poll_loop m2 submit tid has \<lparr>msgs = ms, log = c2, sink = s\<rparr> None True evs = (u2, e2)"
  shows "msgs u1 = msgs u2 \<and> sink u1 = sink u2 \<and> e1 = e2"
  by (rule kafka_poll_blind [OF _ _ assms]) simp_all

lemma kafka_ignores_log_errors_witness:
  "let run = (\<lambda>m. kafka_poll_loop m (\<lambda>s ms. (s @ ms, None)) ''t'' True \<lparr>msgs = [], log = [], sink = []\<rparr> None True
       [KMessage ''x'', KOther]);
     (u1, e1) = run (mem_coll (\<lambda>_ _. False)); (u2, e2) = run down_coll
   in e2 = None \<and> sink u2 = [''x''] \<and> log u2 = [] \<and> length (log u1) = 1 \<and> e1 = e2 \<and> sink u1 = sink u2"
proof -
  let ?r = "\<lambda>m. kafka_poll_loop m (\<lambda>s ms. (s @ ms, None)) ''t'' True \<lparr>msgs = [], log = [], sink = []\<rparr> None True
       [KMessage ''x'', KOther]"
  have one: "?r (mem_coll (\<lambda>_ _. False))
      = (\<lparr>msgs = [], log = [\<lparr>TaskId = ''t'', Message = ''x''\<rparr>], sink = [''x'']\<rparr>, None)"
    by (simp add: addTaskMessage_def mem_coll_def Let_def)
  have two: "?r down_coll = (\<lparr>msgs = [], log = [], sink = [''x'']\<rparr>, None)"
    by (simp add: addTaskMessage_def down_coll_def Let_def)
  from kafka_ignores_log_errors [OF one two] one two show ?thesis by simp
qed

text \<open>C25: A Kafka write task that returns without an error has waited for one report per message, none
  of them a failure, and logged the reported messages in their order.\<close>
theorem kafka_write_waits:
  assumes "log_ok m docs" and "kafka_write m lib produce pool (w, c) ms ds = ((w', c'), Some None)"
  shows "\<exists>vs. length vs = length ms \<and> prefix (map (\<lambda>v. Report v None) vs) ds \<and>
    task_log docs c' (writeTaskId (KafkaPool pool)) = task_log docs c (writeTaskId (KafkaPool pool)) @ vs"
  using assms(2) await_deliveries_log [OF assms(1)]
  by (auto simp: kafka_write_def Let_def split: option.splits prod.splits if_splits)

lemma kafka_write_waits_witness:
  "let lib = \<lparr>newConsumer = (\<lambda>_. None), subscribe = (\<lambda>_. None), newProducer = (\<lambda>_. None)\<rparr>;
     r = kafka_write (mem_coll (\<lambda>_ _. False)) lib (\<lambda>w x. (w, None)) (NewKafkaMessagePool ''p'' ''t'') ((), []) [''a'', ''b'']
       [Report ''b'' None, Report ''a'' None]
   in snd r = Some None \<and> task_log mem_docs (snd (fst r)) ''kafka:p:t:write'' = [''b'', ''a'']"
proof -
  let ?lib = "\<lparr>newConsumer = (\<lambda>_. None), subscribe = (\<lambda>_. None), newProducer = (\<lambda>_. None)\<rparr>"
  let ?p = "NewKafkaMessagePool ''p'' ''t''"
  obtain w' c' where run: "kafka_write (mem_coll (\<lambda>_ _. False)) ?lib (\<lambda>w x. (w, None)) ?p ((), []) [''a'', ''b'']
      [Report ''b'' None, Report ''a'' None] = ((w', c'), Some None)"
    by (simp add: kafka_write_def addTaskMessage_def mem_coll_def)
  from kafka_write_waits [OF mem_log_ok run] obtain vs where
    vs: "length vs = length [''a'', ''b'']" "prefix (map (\<lambda>v. Report v None) vs) [Report ''b'' None, Report ''a'' None]"
    "task_log mem_docs c' (writeTaskId (KafkaPool ?p)) = task_log mem_docs [] (writeTaskId (KafkaPool ?p)) @ vs"
    by blast
  then have "vs = [''b'', ''a'']" by (cases vs; cases "tl vs") auto
  with vs(3) have "task_log mem_docs c' ''kafka:p:t:write'' = [''b'', ''a'']"
    by (simp add: writeTaskId_def NewKafkaMessagePool_def task_log_def)
  with run show ?thesis by simp
qed

text \<open>Connecting leaks: when opening the channel or declaring the queue fails, the connection that
  was dialled stays open, for \<open>qread\<close> and \<open>qwrite\<close> call \<open>close\<close> only after
  a successful \<open>connectAndPrepare\<close>; and only then are connection and channel both open.\<close>
theorem connect_leaks:
  assumes "rabbit_connectAndPrepare lib env st (newRabbitMQBaseTask pool) = (st', t, err)"
  shows "(err = None \<longrightarrow> conn t \<and> ch t \<and> q t \<noteq> None \<and> \<not> conn (rabbit_close t) \<and> \<not> ch (rabbit_close t)) \<and>
    (err \<noteq> None \<longrightarrow> (conn t \<longleftrightarrow> (\<exists>s. snd (GetRabbitMQConnectionConfig env st) = Inr s \<and>
      dial lib (getRabbitMqConnectionString s) = None)))"
  using assms
  by (auto simp: rabbit_connectAndPrepare_def newRabbitMQBaseTask_def rabbit_close_def Let_def
      split: prod.splits sum.splits option.splits)

lemma connect_leaks_witness:
  "let lib = \<lparr>dial = (\<lambda>_. None), channel = (\<lambda>_. Some (GoError ''channel limit'')),
       queueDeclare = (\<lambda>n c. Inr n), consume = (\<lambda>n c. None)\<rparr>;
     (st, t, err) = rabbit_connectAndPrepare lib Map.empty (settings (empty_registry ())) (newRabbitMQBaseTask (NewRabbitMQMessagePool ''p'' ''q''))
   in err \<noteq> None \<and> conn t"
proof -
  let ?lib = "\<lparr>dial = (\<lambda>_. None), channel = (\<lambda>_. Some (GoError ''channel limit'')),
       queueDeclare = (\<lambda>n c. Inr n), consume = (\<lambda>n c. None)\<rparr>"
  let ?st = "settings (empty_registry ())"
  obtain st t where run: "rabbit_connectAndPrepare ?lib Map.empty ?st (newRabbitMQBaseTask (NewRabbitMQMessagePool ''p'' ''q''))
      = (st, t, Some (GoError ''channel limit''))"
    by (simp add: rabbit_connectAndPrepare_def GetRabbitMQConnectionConfig_def empty_registry_def Let_def)
  have "\<exists>s. snd (GetRabbitMQConnectionConfig Map.empty ?st) = Inr s"
    by (simp add: GetRabbitMQConnectionConfig_def empty_registry_def)
  with connect_leaks [OF run] run show ?thesis by simp
qed

end
