(* ===== verification/Watcher.thy ===== *)
theory Watcher
  imports Prelude "HOL-Library.Multiset"
begin

text \<open>
  The worker pool of \<open>internal/coderun/watcher.go\<close>: a channel of idle workers, a channel of
  workers to repair, both of capacity \<open>WorkerCnt\<close>, the loop that repairs, and the borrowers.
  Docker is a library: a record of the calls of \<open>docker-provider\<close> over its state \<open>'w\<close>.
  Receives and sends on the channels are steps; a send on a full channel is no step.
\<close>

section \<open>Docker\<close>

record cinfo =
  isRunning :: bool
  isPaused :: bool
  isOOMKilled :: bool
  isDead :: bool

record 'w docker =
  getFreePort :: "'w \<Rightarrow> go_error + string"
  BuildWorkerImage :: "'w \<Rightarrow> 'w \<times> go_error option"
  CreateWorkerContainer :: "'w \<Rightarrow> string \<Rightarrow> 'w \<times> (go_error + string)"
  StartWorkerContainer :: "'w \<Rightarrow> string \<Rightarrow> 'w \<times> go_error option"
  InspectWorkerContainer :: "'w \<Rightarrow> string \<Rightarrow> go_error + cinfo"
  RestartWorkerContainer :: "'w \<Rightarrow> string \<Rightarrow> 'w \<times> go_error option"
  RemoveWorkerContainer :: "'w \<Rightarrow> string \<Rightarrow> 'w \<times> go_error option"
  drift :: "'w \<Rightarrow> 'w \<Rightarrow> bool"

text \<open>
  \<open>drift\<close> is what becomes of the containers while the watcher does nothing: they exit, are paused,
  killed or resumed by others.  Ids are never reused: \<open>known\<close> are those given out so far.
\<close>

definition docker_ok :: "'w docker \<Rightarrow> ('w \<Rightarrow> string set) \<Rightarrow> bool" where
  "docker_ok lib known \<longleftrightarrow>
     (\<forall>w p w' i. CreateWorkerContainer lib w p = (w', Inr i) \<longrightarrow> i \<notin> known w \<and> known w' = insert i (known w)) \<and>
     (\<forall>w p w' e. CreateWorkerContainer lib w p = (w', Inl e) \<longrightarrow> known w' = known w) \<and>
     (\<forall>w i. known (fst (BuildWorkerImage lib w)) = known w \<and>
       known (fst (StartWorkerContainer lib w i)) = known w \<and>
       known (fst (RestartWorkerContainer lib w i)) = known w \<and>
       known (fst (RemoveWorkerContainer lib w i)) = known w) \<and>
     (\<forall>w w'. drift lib w w' \<longrightarrow> known w \<subseteq> known w')"

section \<open>The watcher\<close>

record worker =
  port :: string
  cId :: string

record 'w watcher =
  dp :: 'w
  WorkerCnt :: nat
  workers :: "worker list"
  repair :: "worker list"
  workerByPort :: "string \<Rightarrow> worker option"
  chans_closed :: bool

definition send_workers :: "worker \<Rightarrow> 'w watcher \<Rightarrow> 'w watcher option" where
  "send_workers w s = (if length (workers s) < WorkerCnt s then Some (s\<lparr>workers := workers s @ [w]\<rparr>) else None)"

definition send_repair :: "worker \<Rightarrow> 'w watcher \<Rightarrow> 'w watcher option" where
  "send_repair w s = (if length (repair s) < WorkerCnt s then Some (s\<lparr>repair := repair s @ [w]\<rparr>) else None)"

text \<open>\<^term>\<open>None\<close>: blocked on a full channel.\<close>

definition startNewWorker :: "'w docker \<Rightarrow> 'w watcher \<Rightarrow> ('w watcher \<times> go_error option) option" where
  "startNewWorker lib s = (case getFreePort lib (dp s) of
     Inl err \<Rightarrow> Some (s, Some err)
   | Inr p \<Rightarrow>
       let (d, res) = CreateWorkerContainer lib (dp s) p; s = s\<lparr>dp := d\<rparr> in
       case res of
         Inl err \<Rightarrow> Some (s, Some err)
       | Inr i \<Rightarrow>
           let (d, err) = StartWorkerContainer lib (dp s) i; s = s\<lparr>dp := d\<rparr> in
           if err \<noteq> None then Some (s, err)
           else
             let worker = \<lparr>port = p, cId = i\<rparr> in
             map_option (\<lambda>s. (s\<lparr>workerByPort := (workerByPort s)(p \<mapsto> worker)\<rparr>, None)) (send_workers worker s))"

definition processWorkerInfo :: "'w docker \<Rightarrow> 'w watcher \<Rightarrow> worker \<Rightarrow> cinfo \<Rightarrow> 'w watcher option" where
  "processWorkerInfo lib s worker info =
     Option.bind (if isRunning info then send_workers worker s else Some s) (\<lambda>s.
       if isPaused info \<or> isOOMKilled info \<or> isDead info
       then let (d, err) = RestartWorkerContainer lib (dp s) (cId worker)
         in send_repair worker (s\<lparr>dp := d\<rparr>)
       else Some s)"

text \<open>The body of \<open>repairLoop\<close> for a worker received from \<open>repair\<close>.\<close>

definition repairWorker :: "'w docker \<Rightarrow> 'w watcher \<Rightarrow> worker \<Rightarrow> 'w watcher option" where
  "repairWorker lib s worker = (case InspectWorkerContainer lib (dp s) (cId worker) of
     Inl err \<Rightarrow>
       let (d, err) = RemoveWorkerContainer lib (dp s) (cId worker);
           s = s\<lparr>dp := d, workerByPort := (workerByPort s)(port worker := None)\<rparr>
       in map_option fst (startNewWorker lib s)
   | Inr info \<Rightarrow> processWorkerInfo lib s worker info)"

text \<open>The body of \<open>BorrowWorker\<close>'s loop for a worker received from \<open>workers\<close>: an error, the
  worker, or another round.\<close>

datatype borrow = Failed go_error | Borrowed worker | Again

definition borrowCheck :: "'w docker \<Rightarrow> 'w watcher \<Rightarrow> worker \<Rightarrow> ('w watcher \<times> borrow) option" where
  "borrowCheck lib s worker = (case InspectWorkerContainer lib (dp s) (cId worker) of
     Inl err \<Rightarrow> Some (s, Failed err)
   | Inr info \<Rightarrow>
       if isRunning info then Some (s, Borrowed worker)
       else map_option (\<lambda>s. (s, Again)) (send_repair worker s))"

text \<open>The whole call when nobody else uses the watcher: with the channel empty the deadline ends it.\<close>

fun BorrowWorker_loop :: "'w docker \<Rightarrow> nat \<Rightarrow> 'w watcher \<Rightarrow> ('w watcher \<times> (go_error + worker)) option" where
  "BorrowWorker_loop lib n s = (case workers s of
     [] \<Rightarrow> Some (s, Inl (GoError ''no running worker now''))
   | w # ws \<Rightarrow> (case n of 0 \<Rightarrow> None | Suc n \<Rightarrow>
       (case borrowCheck lib (s\<lparr>workers := ws\<rparr>) w of
          None \<Rightarrow> None
        | Some (s, Failed err) \<Rightarrow> Some (s, Inl err)
        | Some (s, Borrowed w) \<Rightarrow> Some (s, Inr w)
        | Some (s, Again) \<Rightarrow> BorrowWorker_loop lib n s)))"

declare BorrowWorker_loop.simps [simp del]

definition BorrowWorker :: "'w docker \<Rightarrow> 'w watcher \<Rightarrow> ('w watcher \<times> (go_error + worker)) option" where
  "BorrowWorker lib s = BorrowWorker_loop lib (length (workers s)) s"

definition Return_worker :: "worker \<Rightarrow> 'w watcher \<Rightarrow> 'w watcher option" where
  "Return_worker w s = send_workers w s"

text \<open>
  \<open>Init\<close> starts \<open>WorkerCnt\<close> workers; \<open>Stop\<close> closes the channels and removes what \<open>workerByPort\<close>
  knows, in the order \<open>ps\<close> in which the range over the map comes by the ports.  \<open>provider\<close> is
  the answer of \<open>NewDockerProvider\<close>.  Nobody sends after \<open>Stop\<close> in the model.
\<close>

fun startWorkers :: "'w docker \<Rightarrow> nat \<Rightarrow> 'w watcher \<Rightarrow> ('w watcher \<times> go_error option) option" where
  "startWorkers lib 0 s = Some (s, None)"
| "startWorkers lib (Suc n) s = (case startNewWorker lib s of
     None \<Rightarrow> None
   | Some (s, Some err) \<Rightarrow> Some (s, Some err)
   | Some (s, None) \<Rightarrow> startWorkers lib n s)"

definition watcher_Stop :: "'w docker \<Rightarrow> string list \<Rightarrow> 'w watcher \<Rightarrow> 'w watcher" where
  "watcher_Stop lib ps s = s\<lparr>chans_closed := True, dp := foldl (\<lambda>d p. case workerByPort s p of
     None \<Rightarrow> d | Some w \<Rightarrow> fst (RemoveWorkerContainer lib d (cId w))) (dp s) ps\<rparr>"

definition watcher_Init :: "'w docker \<Rightarrow> string list \<Rightarrow> nat \<Rightarrow> go_error + 'w \<Rightarrow> 'w watcher
    \<Rightarrow> ('w watcher \<times> go_error option) option" where
  "watcher_Init lib ps n provider s = (case provider of
     Inl err \<Rightarrow> Some (s, Some err)
   | Inr d \<Rightarrow>
       let (d, err) = BuildWorkerImage lib d; s = s\<lparr>dp := d, WorkerCnt := n\<rparr> in
       if err \<noteq> None then Some (s, err)
       else
         let s = s\<lparr>workers := [], repair := [], workerByPort := Map.empty, chans_closed := False\<rparr> in
         (case startWorkers lib n s of
            None \<Rightarrow> None
          | Some (s, Some err) \<Rightarrow> Some (watcher_Stop lib ps s, Some err)
          | Some (s, None) \<Rightarrow> Some (s, None)))"

section \<open>Borrowing and giving back\<close>

definition roomy :: "'v watcher \<Rightarrow> bool" where
  "roomy s \<longleftrightarrow> length (workers s @ repair s) \<le> WorkerCnt s"

definition bench :: "'v watcher \<Rightarrow> worker multiset" where
  "bench s = mset (workers s @ repair s)"

lemma roomy_bench: "roomy s \<longleftrightarrow> size (bench s) \<le> WorkerCnt s"
  by (simp add: roomy_def bench_def)

text \<open>A borrower gets a worker that was there, or fails; only a failed inspection costs a worker.\<close>

definition lent_out :: "'v docker \<Rightarrow> 'v watcher \<Rightarrow> 'v watcher \<Rightarrow> (go_error + worker) \<Rightarrow> bool" where
  "lent_out lib s t r \<longleftrightarrow> WorkerCnt t = WorkerCnt s \<and> dp t = dp s \<and> (case r of
     Inr w \<Rightarrow> bench s = add_mset w (bench t) \<and>
       (\<exists>info. InspectWorkerContainer lib (dp s) (cId w) = Inr info \<and> isRunning info)
   | Inl e \<Rightarrow> bench t = bench s \<or>
       (\<exists>w. bench s = add_mset w (bench t) \<and> InspectWorkerContainer lib (dp s) (cId w) = Inl e))"

lemma BorrowWorker_loop_lent:
  "roomy s \<Longrightarrow> length (workers s) \<le> n \<Longrightarrow>
   \<exists>t r. BorrowWorker_loop lib n s = Some (t, r) \<and> lent_out lib s t r"
proof (induction n arbitrary: s)
  case 0
  then show ?case by (simp add: BorrowWorker_loop.simps lent_out_def)
next
  case (Suc n)
  show ?case
  proof (cases "workers s")
    case Nil
    then show ?thesis by (simp add: BorrowWorker_loop.simps lent_out_def)
  next
    case (Cons w ws)
    let ?s = "s\<lparr>workers := ws\<rparr>"
    have full: "bench s = add_mset w (bench ?s)" using Cons by (simp add: bench_def)
    have room: "length (repair ?s) < WorkerCnt ?s" using Suc.prems(1) Cons by (simp add: roomy_def)
    show ?thesis
    proof (cases "InspectWorkerContainer lib (dp s) (cId w)")
      case (Inl e)
      with Cons full show ?thesis
        by (auto simp: BorrowWorker_loop.simps [of lib "Suc n" s] borrowCheck_def lent_out_def)
    next
      case (Inr info)
      show ?thesis
      proof (cases "isRunning info")
        case True
        with Cons Inr full show ?thesis
          by (auto simp: BorrowWorker_loop.simps [of lib "Suc n" s] borrowCheck_def lent_out_def)
      next
        case False
        let ?t = "?s\<lparr>repair := repair s @ [w]\<rparr>"
        have step: "BorrowWorker_loop lib (Suc n) s = BorrowWorker_loop lib n ?t"
          using Cons Inr False room
          by (simp add: BorrowWorker_loop.simps [of lib "Suc n" s] borrowCheck_def send_repair_def)
        have "roomy ?t" "length (workers ?t) \<le> n" using Suc.prems Cons by (simp_all add: roomy_def)
        from Suc.IH [OF this] obtain t r where "BorrowWorker_loop lib n ?t = Some (t, r)" "lent_out lib ?t t r"
          by blast
        moreover have "bench ?t = bench s" using Cons by (simp add: bench_def)
        ultimately show ?thesis using step by (auto simp: lent_out_def split: sum.splits)
      qed
    qed
  qed
qed

lemma BorrowWorker_lent: "roomy s \<Longrightarrow> \<exists>t r. BorrowWorker lib s = Some (t, r) \<and> lent_out lib s t r"
  unfolding BorrowWorker_def by (rule BorrowWorker_loop_lent) simp_all

lemma bench_room:
  assumes "bench s = add_mset w (bench t)" and "roomy s" and "WorkerCnt t = WorkerCnt s"
  shows "length (workers t) < WorkerCnt t"
proof -
  have "size (bench t) < WorkerCnt t" using assms by (simp add: roomy_bench)
  then show ?thesis by (simp add: bench_def)
qed

section \<open>Everybody at once\<close>

text \<open>
  \<open>probing\<close>: workers a borrower has received and not inspected yet; \<open>lent\<close>: borrowed ones;
  \<open>fixing\<close>: the one the repair loop holds.
\<close>

record 'w fleet =
  wt :: "'w watcher"
  probing :: "worker list"
  lent :: "worker list"
  fixing :: "worker option"

inductive watch_step :: "'w docker \<Rightarrow> 'w fleet \<Rightarrow> 'w fleet \<Rightarrow> bool" for lib where
  b_take: "workers (wt s) = w # ws \<Longrightarrow>
    watch_step lib s (s\<lparr>wt := (wt s)\<lparr>workers := ws\<rparr>, probing := probing s @ [w]\<rparr>)"
| b_failed: "probing s = xs @ w # ys \<Longrightarrow> borrowCheck lib (wt s) w = Some (t, Failed e) \<Longrightarrow>
    watch_step lib s (s\<lparr>wt := t, probing := xs @ ys\<rparr>)"
| b_borrowed: "probing s = xs @ w # ys \<Longrightarrow> borrowCheck lib (wt s) w = Some (t, Borrowed v) \<Longrightarrow>
    watch_step lib s (s\<lparr>wt := t, probing := xs @ ys, lent := lent s @ [v]\<rparr>)"
| b_again: "probing s = xs @ w # ys \<Longrightarrow> borrowCheck lib (wt s) w = Some (t, Again) \<Longrightarrow>
    watch_step lib s (s\<lparr>wt := t, probing := xs @ ys\<rparr>)"
| b_return: "lent s = xs @ w # ys \<Longrightarrow> Return_worker w (wt s) = Some t \<Longrightarrow>
    watch_step lib s (s\<lparr>wt := t, lent := xs @ ys\<rparr>)"
| f_take: "fixing s = None \<Longrightarrow> repair (wt s) = w # ws \<Longrightarrow>
    watch_step lib s (s\<lparr>wt := (wt s)\<lparr>repair := ws\<rparr>, fixing := Some w\<rparr>)"
| f_done: "fixing s = Some w \<Longrightarrow> repairWorker lib (wt s) w = Some t \<Longrightarrow>
    watch_step lib s (s\<lparr>wt := t, fixing := None\<rparr>)"
| drifts: "drift lib (dp (wt s)) d \<Longrightarrow> watch_step lib s (s\<lparr>wt := (wt s)\<lparr>dp := d\<rparr>\<rparr>)"

text \<open>All the places a worker can be.\<close>

definition places :: "'w fleet \<Rightarrow> worker list" where
  "places s = workers (wt s) @ repair (wt s) @ probing s @ lent s @ (case fixing s of None \<Rightarrow> [] | Some w \<Rightarrow> [w])"

definition fleet_inv :: "('w \<Rightarrow> string set) \<Rightarrow> nat \<Rightarrow> 'w fleet \<Rightarrow> bool" where
  "fleet_inv known n s \<longleftrightarrow> WorkerCnt (wt s) = n \<and> length (places s) \<le> n \<and>
     distinct (map cId (places s)) \<and> cId ` set (places s) \<subseteq> known (dp (wt s))"


lemma mset_sub_distinct:
  assumes "mset xs \<subseteq># mset ys" and "distinct (map f ys)"
  shows "distinct (map f xs)"
proof -
  obtain zs where "mset zs = mset ys - mset xs" using ex_mset by blast
  with assms(1) have "mset ys = mset (xs @ zs)" by simp
  then have "mset (map f ys) = mset (map f (xs @ zs))" by (metis mset_map)
  with assms(2) have "distinct (map f (xs @ zs))" using mset_eq_imp_distinct_iff by blast
  then show ?thesis by simp
qed

lemma fleet_inv_less:
  assumes inv: "fleet_inv known n s" and sub: "mset (places s') \<subseteq># mset (places s)"
    and "WorkerCnt (wt s') = WorkerCnt (wt s)" and "known (dp (wt s)) \<subseteq> known (dp (wt s'))"
  shows "fleet_inv known n s'"
proof -
  have "length (places s') \<le> length (places s)" using size_mset_mono [OF sub] by simp
  moreover have "set (places s') \<subseteq> set (places s)" using set_mset_mono [OF sub] by simp
  moreover have "distinct (map cId (places s'))"
    using mset_sub_distinct [OF sub, of cId] inv unfolding fleet_inv_def by blast
  ultimately show ?thesis using inv assms(3,4) unfolding fleet_inv_def by (auto; blast)
qed

lemma send_workers_Some:
  "send_workers w s = Some s' \<longleftrightarrow> length (workers s) < WorkerCnt s \<and> s' = s\<lparr>workers := workers s @ [w]\<rparr>"
  by (auto simp: send_workers_def)

lemma send_repair_Some:
  "send_repair w s = Some s' \<longleftrightarrow> length (repair s) < WorkerCnt s \<and> s' = s\<lparr>repair := repair s @ [w]\<rparr>"
  by (auto simp: send_repair_def)

lemma borrowCheck_cases:
  assumes "borrowCheck lib s w = Some (t, r)"
  obtains e where "InspectWorkerContainer lib (dp s) (cId w) = Inl e" and "r = Failed e" and "t = s"
  | info where "InspectWorkerContainer lib (dp s) (cId w) = Inr info" and "isRunning info" and "r = Borrowed w" and "t = s"
  | info where "InspectWorkerContainer lib (dp s) (cId w) = Inr info" and "\<not> isRunning info" and "r = Again"
      and "t = s\<lparr>repair := repair s @ [w]\<rparr>"
  using assms by (auto simp: borrowCheck_def send_repair_Some split: sum.splits if_splits)

text \<open>A fresh worker takes the place of the one given up, or none does.\<close>

lemma startNewWorker_cases:
  assumes "docker_ok lib known" and "startNewWorker lib s = Some (t, err)"
  obtains "workers t = workers s" and "repair t = repair s" and "WorkerCnt t = WorkerCnt s"
      and "known (dp s) \<subseteq> known (dp t)"
  | w where "workers t = workers s @ [w]" and "repair t = repair s" and "WorkerCnt t = WorkerCnt s"
      and "cId w \<notin> known (dp s)" and "known (dp t) = insert (cId w) (known (dp s))"
proof (cases "getFreePort lib (dp s)")
  case (Inl e)
  with assms(2) show thesis using that(1) by (simp add: startNewWorker_def)
next
  case (Inr p)
  obtain d res where c: "CreateWorkerContainer lib (dp s) p = (d, res)" by force
  show thesis
  proof (cases res)
    case (Inl e)
    have "known d = known (dp s)" using assms(1) c Inl unfolding docker_ok_def by blast
    moreover have "t = s\<lparr>dp := d\<rparr>" using assms(2) c Inr Inl by (simp add: startNewWorker_def Let_def)
    ultimately show thesis using that(1) by simp
  next
    case (Inr i)
    have "i \<notin> known (dp s) \<and> known d = insert i (known (dp s))"
      using assms(1) c Inr by (auto simp only: docker_ok_def)
    then have k: "i \<notin> known (dp s)" "known d = insert i (known (dp s))" by simp_all
    obtain d' e where st: "StartWorkerContainer lib d i = (d', e)" by force
    have k': "known d' = known d" using assms(1) st unfolding docker_ok_def by (metis fst_conv)
    show thesis
    proof (cases e)
      case None
      let ?w = "\<lparr>port = p, cId = i\<rparr>"
      from None assms(2) \<open>getFreePort lib (dp s) = Inr p\<close> c Inr st
      have "workers t = workers s @ [?w] \<and> repair t = repair s \<and> WorkerCnt t = WorkerCnt s \<and> dp t = d'"
        by (auto simp: startNewWorker_def Let_def send_workers_Some)
      with k k' show thesis by (intro that(2) [of ?w]) simp_all
    next
      case (Some x)
      with assms(2) \<open>getFreePort lib (dp s) = Inr p\<close> c Inr st have "t = s\<lparr>dp := d'\<rparr>"
        by (simp add: startNewWorker_def Let_def)
      with k k' show thesis using that(1) by auto
    qed
  qed
qed

lemma processWorkerInfo_cases:
  assumes "docker_ok lib known" and "processWorkerInfo lib s w info = Some t"
    and "isRunning info \<Longrightarrow> \<not> isPaused info \<and> \<not> isOOMKilled info \<and> \<not> isDead info"
  shows "WorkerCnt t = WorkerCnt s \<and> known (dp t) = known (dp s) \<and>
    (if isRunning info then workers t = workers s @ [w] \<and> repair t = repair s
     else if isPaused info \<or> isOOMKilled info \<or> isDead info then workers t = workers s \<and> repair t = repair s @ [w]
     else workers t = workers s \<and> repair t = repair s)"
proof -
  have k: "known (fst (RestartWorkerContainer lib d i)) = known d" for d i
    using assms(1) by (simp add: docker_ok_def)
  show ?thesis
    using assms(2,3) k [of "dp s" "cId w"]
    by (auto simp: processWorkerInfo_def send_workers_Some send_repair_Some Let_def split_beta split: if_splits)
qed


text \<open>One round of the repair loop.  Docker may report a container as running and paused, killed or
  dead at once (a paused one runs); \<open>processWorkerInfo\<close> then sends the worker to both channels.\<close>

definition two_faced :: "'w docker \<Rightarrow> 'w watcher \<Rightarrow> worker \<Rightarrow> bool" where
  "two_faced lib s w \<longleftrightarrow> (case InspectWorkerContainer lib (dp s) (cId w) of
     Inl err \<Rightarrow> False
   | Inr info \<Rightarrow> isRunning info \<and> (isPaused info \<or> isOOMKilled info \<or> isDead info))"

lemma repairWorker_cases:
  assumes ok: "docker_ok lib known" and ex: "\<not> two_faced lib s w" and run: "repairWorker lib s w = Some t"
  obtains "mset (workers t @ repair t) \<subseteq># add_mset w (mset (workers s @ repair s))"
      and "WorkerCnt t = WorkerCnt s" and "known (dp s) \<subseteq> known (dp t)"
  | v where "mset (workers t @ repair t) = add_mset v (mset (workers s @ repair s))"
      and "WorkerCnt t = WorkerCnt s" and "cId v \<notin> known (dp s)" and "known (dp t) = insert (cId v) (known (dp s))"
proof (cases "InspectWorkerContainer lib (dp s) (cId w)")
  case (Inl e)
  obtain d e' where rm: "RemoveWorkerContainer lib (dp s) (cId w) = (d, e')" by force
  then have kd: "known d = known (dp s)" using ok unfolding docker_ok_def by (metis fst_conv)
  let ?s = "s\<lparr>dp := d, workerByPort := (workerByPort s)(port w := None)\<rparr>"
  from run Inl rm obtain err where st: "startNewWorker lib ?s = Some (t, err)"
    by (auto simp: repairWorker_def)
  show thesis
  proof (rule startNewWorker_cases [OF ok st])
    assume "workers t = workers ?s" "repair t = repair ?s" "WorkerCnt t = WorkerCnt ?s" "known (dp ?s) \<subseteq> known (dp t)"
    then show thesis using that(1) kd by simp
  next
    fix v
    assume "workers t = workers ?s @ [v]" "repair t = repair ?s" "WorkerCnt t = WorkerCnt ?s"
      "cId v \<notin> known (dp ?s)" "known (dp t) = insert (cId v) (known (dp ?s))"
    then show thesis using that(2) [of v] kd by simp
  qed
next
  case (Inr info)
  with run have pr: "processWorkerInfo lib s w info = Some t" by (simp add: repairWorker_def)
  have "isRunning info \<Longrightarrow> \<not> isPaused info \<and> \<not> isOOMKilled info \<and> \<not> isDead info"
    using ex Inr by (simp add: two_faced_def)
  from processWorkerInfo_cases [OF ok pr this] show thesis
    using that(1) by (auto split: if_splits)
qed

text \<open>No step makes the fleet larger, and the invariant is kept.\<close>

lemma fleet_inv_new:
  assumes inv: "fleet_inv known n s" and new: "mset (places s') = add_mset v M" and old: "add_mset w M \<subseteq># mset (places s)"
    and "WorkerCnt (wt s') = WorkerCnt (wt s)" and "cId v \<notin> known (dp (wt s))"
    and "known (dp (wt s')) = insert (cId v) (known (dp (wt s)))"
  shows "fleet_inv known n s' \<and> length (places s') \<le> length (places s)"
proof -
  obtain xs where xs: "mset xs = M" using ex_mset by blast
  have sub: "mset xs \<subseteq># mset (places s)" using old xs by (meson subset_mset.order_trans mset_subset_eq_add_right subset_mset.dual_order.refl add_mset_remove_trivial diff_subset_eq_self mset_subset_eq_insertD subset_mset.less_imp_le)
  have d: "distinct (map cId xs)" using mset_sub_distinct [OF sub, of cId] inv unfolding fleet_inv_def by blast
  have ids: "cId ` set xs \<subseteq> known (dp (wt s))"
    using set_mset_mono [OF sub] inv unfolding fleet_inv_def by auto
  have m: "mset (places s') = mset (v # xs)" using new xs by simp
  have len: "length (places s') \<le> length (places s)"
    using size_mset_mono [OF old] arg_cong [OF m, of size] xs by (metis length_Cons size_add_mset size_mset xs)
  have "mset (map cId (places s')) = mset (map cId (v # xs))" using m by (metis mset_map)
  moreover have "distinct (map cId (v # xs))" using d ids assms(5) by auto
  ultimately have "distinct (map cId (places s'))" by (metis mset_eq_imp_distinct_iff)
  moreover have "set (places s') = insert v (set xs)" using m by (metis list.simps(15) set_mset_mset)
  ultimately show ?thesis using inv len ids assms(4,6) unfolding fleet_inv_def by auto
qed

lemma watch_step_inv:
  assumes ok: "docker_ok lib known" and ex: "\<And>w. fixing s = Some w \<Longrightarrow> \<not> two_faced lib (wt s) w"
    and inv: "fleet_inv known n s" and st: "watch_step lib s s'"
  shows "fleet_inv known n s' \<and> length (places s') \<le> length (places s)"
proof -
  have less: "fleet_inv known n s' \<and> length (places s') \<le> length (places s)"
    if "mset (places s') \<subseteq># mset (places s)" and "WorkerCnt (wt s') = WorkerCnt (wt s)"
      and "known (dp (wt s)) \<subseteq> known (dp (wt s'))"
    using fleet_inv_less [OF inv that] size_mset_mono [OF that(1)] by simp
  show ?thesis
    using st
  proof cases
    case (b_take w ws)
    show ?thesis by (rule less) (simp_all add: b_take places_def)
  next
    case (b_failed xs w ys t e)
    from b_failed(3) have "t = wt s" by (rule borrowCheck_cases) simp_all
    with b_failed show ?thesis by (intro less) (simp_all add: places_def)
  next
    case (b_borrowed xs w ys t v)
    from b_borrowed(3) have "t = wt s \<and> v = w" by (rule borrowCheck_cases) simp_all
    with b_borrowed show ?thesis by (intro less) (simp_all add: places_def)
  next
    case (b_again xs w ys t)
    from b_again(3) have "t = (wt s)\<lparr>repair := repair (wt s) @ [w]\<rparr>" by (rule borrowCheck_cases) simp_all
    with b_again show ?thesis by (intro less) (simp_all add: places_def)
  next
    case (b_return xs w ys t)
    then show ?thesis by (intro less) (auto simp: places_def Return_worker_def send_workers_Some)
  next
    case (f_take w ws)
    then show ?thesis by (intro less) (simp_all add: places_def)
  next
    case (drifts d)
    then show ?thesis using ok by (intro less) (simp_all add: places_def docker_ok_def)
  next
    case (f_done w t)
    from ok ex [OF f_done(2)] f_done(3) show ?thesis
    proof (rule repairWorker_cases)
      assume "mset (workers t @ repair t) \<subseteq># add_mset w (mset (workers (wt s) @ repair (wt s)))"
        and a: "WorkerCnt t = WorkerCnt (wt s)" "known (dp (wt s)) \<subseteq> known (dp t)"
      then have "mset (workers t @ repair t) + mset (probing s @ lent s)
          \<subseteq># add_mset w (mset (workers (wt s) @ repair (wt s))) + mset (probing s @ lent s)"
        by (simp only: mset_subset_eq_mono_add_right_cancel)
      with f_done a show ?thesis by (intro less) (simp_all add: places_def ac_simps)
    next
      fix v
      assume a: "mset (workers t @ repair t) = add_mset v (mset (workers (wt s) @ repair (wt s)))"
        "WorkerCnt t = WorkerCnt (wt s)" "cId v \<notin> known (dp (wt s))"
        "known (dp t) = insert (cId v) (known (dp (wt s)))"
      have "mset (places s') = add_mset v (mset (workers (wt s) @ repair (wt s) @ probing s @ lent s))"
        using f_done a(1) by (simp add: places_def)
      moreover have "add_mset w (mset (workers (wt s) @ repair (wt s) @ probing s @ lent s)) \<subseteq># mset (places s)"
        using f_done by (simp add: places_def)
      ultimately show ?thesis
        by (rule fleet_inv_new [OF inv]) (use f_done a in simp_all)
    qed
  qed
qed


inductive fleet_reach :: "'w docker \<Rightarrow> 'w fleet \<Rightarrow> 'w fleet \<Rightarrow> bool" for lib s where
  fleet_start: "fleet_reach lib s s"
| fleet_step: "fleet_reach lib s t \<Longrightarrow> watch_step lib t u \<Longrightarrow> fleet_reach lib s u"

lemma fleet_reach_trans: "fleet_reach lib t u \<Longrightarrow> fleet_reach lib s t \<Longrightarrow> fleet_reach lib s u"
  by (induction rule: fleet_reach.induct) (auto intro: fleet_step)

text \<open>The invariant is kept until the repair loop meets such a container.\<close>

definition met_two_faced :: "'w docker \<Rightarrow> 'w fleet \<Rightarrow> 'w fleet \<Rightarrow> bool" where
  "met_two_faced lib s t \<longleftrightarrow>
     (\<exists>u w. fleet_reach lib s u \<and> fleet_reach lib u t \<and> fixing u = Some w \<and> two_faced lib (wt u) w)"

lemma met_two_faced_step: "met_two_faced lib s t \<Longrightarrow> watch_step lib t u \<Longrightarrow> met_two_faced lib s u"
  unfolding met_two_faced_def by (meson fleet_step)

lemma met_two_faced_now:
  "fleet_reach lib s t \<Longrightarrow> \<not> met_two_faced lib s t \<Longrightarrow> fixing t = Some w \<Longrightarrow> \<not> two_faced lib (wt t) w"
  unfolding met_two_faced_def by (meson fleet_start)

lemma fleet_reach_inv:
  assumes "docker_ok lib known" and "fleet_reach lib s t" and "fleet_inv known n s"
  shows "met_two_faced lib s t \<or> fleet_inv known n t"
  using assms(2)
proof (induction rule: fleet_reach.induct)
  case (fleet_step t u)
  show ?case
  proof (cases "met_two_faced lib s t")
    case True
    then show ?thesis using met_two_faced_step fleet_step(2) by blast
  next
    case False
    with fleet_step have "fleet_inv known n t" by simp
    moreover have "\<not> two_faced lib (wt t) w" if "fixing t = Some w" for w
      by (rule met_two_faced_now [OF fleet_step(1) False that])
    ultimately show ?thesis using watch_step_inv [OF assms(1) _ _ fleet_step(2)] by blast
  qed
qed (use assms(3) in simp)

text \<open>\<open>Init\<close> establishes the invariant.\<close>

lemma startWorkers_inv:
  assumes "docker_ok lib known"
  shows "startWorkers lib k s = Some (t, err) \<Longrightarrow> repair s = [] \<Longrightarrow> distinct (map cId (workers s)) \<Longrightarrow>
    cId ` set (workers s) \<subseteq> known (dp s) \<Longrightarrow>
    repair t = [] \<and> distinct (map cId (workers t)) \<and> cId ` set (workers t) \<subseteq> known (dp t) \<and>
    length (workers t) \<le> length (workers s) + k \<and> WorkerCnt t = WorkerCnt s"
proof (induction k arbitrary: s)
  case (Suc k)
  from Suc.prems(1) obtain u e where n: "startNewWorker lib s = Some (u, e)"
    by (auto split: option.splits prod.splits)
  have u: "repair u = [] \<and> distinct (map cId (workers u)) \<and> cId ` set (workers u) \<subseteq> known (dp u) \<and>
      length (workers u) \<le> Suc (length (workers s)) \<and> WorkerCnt u = WorkerCnt s"
    by (rule startNewWorker_cases [OF assms n]) (use Suc.prems in auto)
  show ?case
  proof (cases e)
    case None
    with n Suc.prems(1) have "startWorkers lib k u = Some (t, err)" by simp
    from Suc.IH [OF this] u show ?thesis by auto
  next
    case (Some x)
    with n Suc.prems(1) u show ?thesis by auto
  qed
qed simp

definition idle_fleet :: "'w watcher \<Rightarrow> 'w fleet" where
  "idle_fleet t = \<lparr>wt = t, probing = [], lent = [], fixing = None\<rparr>"

lemma watcher_Init_inv:
  assumes "docker_ok lib known" and "watcher_Init lib ps n provider s0 = Some (t, None)"
  shows "fleet_inv known n (idle_fleet t)"
proof -
  from assms(2) obtain d where start: "startWorkers lib n (s0\<lparr>dp := d, WorkerCnt := n, workers := [], repair := [],
      workerByPort := Map.empty, chans_closed := False\<rparr>) = Some (t, None)"
    by (auto simp: watcher_Init_def Let_def split: sum.splits prod.splits if_splits option.splits)
  show ?thesis
    using startWorkers_inv [OF assms(1) start] by (simp add: fleet_inv_def places_def idle_fleet_def)
qed

section \<open>Properties\<close>

text \<open>C8: From \<open>Init\<close> on, in any interleaving and whatever the containers do by themselves, no two
  borrowers hold the same worker, no worker is both lent and idle or in repair, and there are never more
  workers than \<open>WorkerCnt\<close>.  There is one exception: the repair loop has inspected a container that
  Docker reports as running and paused, killed or dead at once.\<close>
theorem workers_exclusive:
  assumes "docker_ok lib known" and "watcher_Init lib ps n provider s0 = Some (t, None)"
    and "fleet_reach lib (idle_fleet t) s"
  shows "(distinct (map cId (lent s)) \<and> length (places s) \<le> n \<and>
      cId ` set (lent s) \<inter> cId ` set (workers (wt s) @ repair (wt s)) = {}) \<or>
    met_two_faced lib (idle_fleet t) s"
  using fleet_reach_inv [OF assms(1,3) watcher_Init_inv [OF assms(1,2)]]
  by (auto simp: fleet_inv_def places_def)

text \<open>A docker whose state is the number of containers created; all of them run.\<close>

definition mem_docker :: "nat docker" where
  "mem_docker = \<lparr>getFreePort = (\<lambda>w. Inr ''8000''), BuildWorkerImage = (\<lambda>w. (w, None)),
     CreateWorkerContainer = (\<lambda>w p. (Suc w, Inr (replicate w CHR ''c''))),
     StartWorkerContainer = (\<lambda>w i. (w, None)),
     InspectWorkerContainer = (\<lambda>w i. Inr \<lparr>isRunning = True, isPaused = False, isOOMKilled = False, isDead = False\<rparr>),
     RestartWorkerContainer = (\<lambda>w i. (w, None)), RemoveWorkerContainer = (\<lambda>w i. (w, None)),
     drift = (\<lambda>w w'. w' = w)\<rparr>"

definition mem_ids :: "nat \<Rightarrow> string set" where
  "mem_ids w = (\<lambda>k. replicate k CHR ''c'') ` {..<w}"

lemma mem_docker_ok: "docker_ok mem_docker mem_ids"
  by (auto simp: docker_ok_def mem_docker_def mem_ids_def lessThan_Suc)

lemma mem_docker_faces: "\<not> met_two_faced mem_docker s t"
  by (simp add: met_two_faced_def two_faced_def mem_docker_def)

definition blank_watcher :: "nat watcher" where
  "blank_watcher = \<lparr>dp = 0, WorkerCnt = 0, workers = [], repair = [], workerByPort = Map.empty, chans_closed = False\<rparr>"

lemma mem_Init: "\<exists>t. watcher_Init mem_docker [] 2 (Inr 0) blank_watcher = Some (t, None) \<and>
    workers t = [\<lparr>port = ''8000'', cId = ''''\<rparr>, \<lparr>port = ''8000'', cId = ''c''\<rparr>] \<and> WorkerCnt t = 2 \<and> dp t = 2 \<and> repair t = []"
  by (simp add: watcher_Init_def blank_watcher_def numeral_2_eq_2 startNewWorker_def mem_docker_def send_workers_def Let_def)

lemma workers_exclusive_witness:
  "\<exists>t s. watcher_Init mem_docker [] 2 (Inr 0) blank_watcher = Some (t, None) \<and> fleet_reach mem_docker (idle_fleet t) s \<and>
     lent s = [\<lparr>port = ''8000'', cId = ''''\<rparr>] \<and> distinct (map cId (lent s)) \<and> length (places s) \<le> 2"
proof -
  let ?w = "\<lparr>port = ''8000'', cId = ''''\<rparr>" and ?v = "\<lparr>port = ''8000'', cId = ''c''\<rparr>"
  obtain t where t: "watcher_Init mem_docker [] 2 (Inr 0) blank_watcher = Some (t, None)" "workers t = [?w, ?v]" using mem_Init by blast
  let ?s1 = "idle_fleet t\<lparr>wt := t\<lparr>workers := [?v]\<rparr>, probing := [?w]\<rparr>"
  let ?s2 = "?s1\<lparr>probing := [], lent := [?w]\<rparr>"
  have "watch_step mem_docker (idle_fleet t) ?s1"
    using b_take [of "idle_fleet t" ?w "[?v]" mem_docker] t(2) by (simp add: idle_fleet_def)
  moreover have "watch_step mem_docker ?s1 ?s2"
    using b_borrowed [of ?s1 "[]" ?w "[]" mem_docker "wt ?s1" ?w]
    by (simp add: idle_fleet_def borrowCheck_def mem_docker_def)
  ultimately have reach: "fleet_reach mem_docker (idle_fleet t) ?s2" by (meson fleet_start fleet_step)
  from workers_exclusive [OF mem_docker_ok t(1) reach]
  have "distinct (map cId (lent ?s2)) \<and> length (places ?s2) \<le> 2" using mem_docker_faces by blast
  with t(1) reach show ?thesis by (intro exI [of _ t] exI [of _ ?s2]) simp
qed

text \<open>C9: With the same exception, the workers wherever they are never exceed the capacity of a channel,
  so no send blocks: a borrower can always hand a broken worker to repair
  and return a borrowed one, and the repair loop always finishes its round.\<close>
theorem sends_never_block:
  assumes "docker_ok lib known" and "watcher_Init lib ps n provider s0 = Some (t, None)"
    and "fleet_reach lib (idle_fleet t) s"
  shows "(WorkerCnt (wt s) = n \<and>
      length (workers (wt s)) + length (repair (wt s)) + length (probing s) + length (lent s) \<le> n \<and>
      (w \<in> set (probing s) \<longrightarrow> borrowCheck lib (wt s) w \<noteq> None) \<and>
      (w \<in> set (lent s) \<longrightarrow> Return_worker w (wt s) \<noteq> None) \<and>
      (fixing s = Some w \<longrightarrow> repairWorker lib (wt s) w \<noteq> None)) \<or>
    met_two_faced lib (idle_fleet t) s"
proof (cases "met_two_faced lib (idle_fleet t) s")
  case False
  then have inv: "fleet_inv known n s"
    using fleet_reach_inv [OF assms(1,3) watcher_Init_inv [OF assms(1,2)]] by simp
  have room: "length (workers (wt s)) < WorkerCnt (wt s) \<and> length (repair (wt s)) < WorkerCnt (wt s)"
    if "w \<in> set (probing s) \<or> w \<in> set (lent s) \<or> fixing s = Some w"
    using that inv by (auto simp: fleet_inv_def places_def dest!: split_list)
  have "repairWorker lib (wt s) w \<noteq> None" if "fixing s = Some w"
    using room that met_two_faced_now [OF assms(3) False that]
    by (auto simp: repairWorker_def startNewWorker_def processWorkerInfo_def send_workers_def
        send_repair_def two_faced_def Let_def split: sum.splits prod.splits)
  moreover have "WorkerCnt (wt s) = n \<and>
      length (workers (wt s)) + length (repair (wt s)) + length (probing s) + length (lent s) \<le> n"
    using inv by (simp add: fleet_inv_def places_def)
  ultimately show ?thesis
    using room by (auto simp: borrowCheck_def send_repair_def Return_worker_def send_workers_def split: sum.splits)
qed simp

lemma sends_never_block_witness:
  "\<exists>t. watcher_Init mem_docker [] 2 (Inr 0) blank_watcher = Some (t, None) \<and> fleet_reach mem_docker (idle_fleet t) (idle_fleet t) \<and>
    (\<forall>w. fixing (idle_fleet t) = Some w \<longrightarrow> repairWorker mem_docker (wt (idle_fleet t)) w \<noteq> None)"
  using sends_never_block [OF mem_docker_ok _ fleet_start] mem_docker_faces mem_Init fleet_start by metis

text \<open>Workers get lost and are not replaced: when \<open>Inspect\<close> fails while a worker is being borrowed, and
  when the repair loop finds a container that has merely exited, which it neither restarts nor puts back.\<close>
lemma workers_lost:
  shows "(probing s = xs @ w # ys \<and> InspectWorkerContainer lib (dp (wt s)) (cId w) = Inl e \<longrightarrow>
      (\<exists>u. watch_step lib s u \<and> length (places u) < length (places s))) \<and>
    (fixing s = Some w \<and> InspectWorkerContainer lib (dp (wt s)) (cId w)
        = Inr \<lparr>isRunning = False, isPaused = False, isOOMKilled = False, isDead = False\<rparr> \<longrightarrow>
      (\<exists>u. watch_step lib s u \<and> length (places u) < length (places s)))"
proof (intro conjI impI)
  assume a: "probing s = xs @ w # ys \<and> InspectWorkerContainer lib (dp (wt s)) (cId w) = Inl e"
  then have "watch_step lib s (s\<lparr>wt := wt s, probing := xs @ ys\<rparr>)"
    by (intro b_failed [of s xs w ys lib "wt s" e]) (simp_all add: borrowCheck_def)
  with a show "\<exists>u. watch_step lib s u \<and> length (places u) < length (places s)"
    by (intro exI conjI) (assumption, simp add: places_def)
next
  assume a: "fixing s = Some w \<and> InspectWorkerContainer lib (dp (wt s)) (cId w)
        = Inr \<lparr>isRunning = False, isPaused = False, isOOMKilled = False, isDead = False\<rparr>"
  then have "watch_step lib s (s\<lparr>wt := wt s, fixing := None\<rparr>)"
    by (intro f_done [of s w lib "wt s"]) (simp_all add: repairWorker_def processWorkerInfo_def)
  with a show "\<exists>u. watch_step lib s u \<and> length (places u) < length (places s)"
    by (intro exI conjI) (assumption, simp add: places_def)
qed

text \<open>C40: The exception of the last two properties is real.  A container that was found stopped when it was to be
  borrowed, and by the time the repair loop inspects it runs again but paused, is put into both channels: when both
  were empty the same container is then lent to a request while the repair loop has it and restarts it.\<close>
theorem paused_worker_twice:
  assumes "fleet_reach lib s0 s" and "fixing s = Some w" and "workers (wt s) = []" and "repair (wt s) = []"
    and "0 < WorkerCnt (wt s)" and "two_faced lib (wt s) w"
    and "RestartWorkerContainer lib (dp (wt s)) (cId w) = (d, e)" and "InspectWorkerContainer lib d (cId w) = Inr info"
    and "isRunning info"
  shows "\<exists>u v. fleet_reach lib s0 u \<and> workers (wt u) = [w] \<and> repair (wt u) = [w] \<and>
    fleet_reach lib u v \<and> w \<in> set (lent v) \<and> fixing v = Some w"
proof -
  let ?t = "(wt s)\<lparr>workers := [w], dp := d, repair := [w]\<rparr>"
  let ?u = "s\<lparr>wt := ?t, fixing := None\<rparr>"
  let ?u1 = "?u\<lparr>wt := ?t\<lparr>repair := []\<rparr>, fixing := Some w\<rparr>"
  let ?u2 = "?u1\<lparr>wt := ?t\<lparr>repair := [], workers := []\<rparr>, probing := probing s @ [w]\<rparr>"
  let ?v = "?u2\<lparr>probing := probing s, lent := lent s @ [w]\<rparr>"
  have "repairWorker lib (wt s) w = Some ?t"
    using assms by (auto simp: repairWorker_def processWorkerInfo_def send_workers_def send_repair_def two_faced_def
        split: sum.splits)
  then have "watch_step lib s ?u" by (rule f_done [OF assms(2)])
  with assms(1) have u: "fleet_reach lib s0 ?u" by (rule fleet_step)
  have "watch_step lib ?u ?u1" using f_take [of ?u w "[]" lib] by simp
  moreover have "watch_step lib ?u1 ?u2" using b_take [of ?u1 w "[]" lib] by simp
  moreover have "borrowCheck lib (wt ?u2) w = Some (wt ?u2, Borrowed w)"
    using assms(8,9) by (simp add: borrowCheck_def)
  then have "watch_step lib ?u2 ?v" using b_borrowed [of ?u2 "probing s" w "[]" lib "wt ?u2" w] by simp
  ultimately have "fleet_reach lib ?u ?v" by (meson fleet_start fleet_step)
  with u show ?thesis by (intro exI [of _ ?u] exI [of _ ?v]) simp
qed

text \<open>A Docker whose one container goes from state to state as it likes; a restart makes it run.  From \<open>Init\<close>:
  the container exits, is borrowed in vain, is resumed and paused, and so on.\<close>

definition fickle_docker :: "(nat \<times> cinfo) docker" where
  "fickle_docker = \<lparr>getFreePort = (\<lambda>w. Inr ''8000''), BuildWorkerImage = (\<lambda>w. (w, None)),
     CreateWorkerContainer = (\<lambda>(n, i) p. ((Suc n, i), Inr (replicate n CHR ''c''))),
     StartWorkerContainer = (\<lambda>w i. (w, None)), InspectWorkerContainer = (\<lambda>(n, info) i. Inr info),
     RestartWorkerContainer = (\<lambda>(n, info) i. ((n, \<lparr>isRunning = True, isPaused = False, isOOMKilled = False,
       isDead = False\<rparr>), None)), RemoveWorkerContainer = (\<lambda>w i. (w, None)),
     drift = (\<lambda>w w'. fst w' = fst w)\<rparr>"

lemma paused_worker_twice_witness:
  "let info = (\<lambda>r p. \<lparr>isRunning = r, isPaused = p, isOOMKilled = False, isDead = False\<rparr>);
       s0 = \<lparr>dp = (0, info True False), WorkerCnt = 0, workers = [], repair = [], workerByPort = Map.empty, chans_closed = False\<rparr>
   in \<exists>t v w. watcher_Init fickle_docker [] 1 (Inr (0, info True False)) s0 = Some (t, None) \<and>
     fleet_reach fickle_docker (idle_fleet t) v \<and> w \<in> set (lent v) \<and> fixing v = Some w"
proof -
  let ?info = "\<lambda>r p. \<lparr>isRunning = r, isPaused = p, isOOMKilled = False, isDead = False\<rparr>"
  let ?s0 = "\<lparr>dp = (0, ?info True False), WorkerCnt = 0, workers = [], repair = [], workerByPort = Map.empty, chans_closed = False\<rparr>"
  let ?w = "\<lparr>port = ''8000'', cId = []\<rparr>"
  let ?t = "\<lambda>i ws rs. \<lparr>dp = (1, i), WorkerCnt = 1, workers = ws, repair = rs, workerByPort = [''8000'' \<mapsto> ?w],
    chans_closed = False\<rparr>"
  let ?f = "\<lambda>i ws rs ps x. \<lparr>wt = ?t i ws rs, probing = ps, lent = [], fixing = x\<rparr>"
  have init: "watcher_Init fickle_docker [] 1 (Inr (0, ?info True False)) ?s0 = Some (?t (?info True False) [?w] [], None)"
    by (simp add: watcher_Init_def startNewWorker_def fickle_docker_def send_workers_def Let_def)
  have "watch_step fickle_docker (?f (?info True False) [?w] [] [] None) (?f (?info False False) [?w] [] [] None)"
    using drifts [of fickle_docker "?f (?info True False) [?w] [] [] None" "(1, ?info False False)"] by (simp add: fickle_docker_def)
  moreover have "watch_step fickle_docker (?f (?info False False) [?w] [] [] None) (?f (?info False False) [] [] [?w] None)"
    using b_take [of "?f (?info False False) [?w] [] [] None" ?w "[]" fickle_docker] by simp
  moreover have "watch_step fickle_docker (?f (?info False False) [] [] [?w] None) (?f (?info False False) [] [?w] [] None)"
    using b_again [of "?f (?info False False) [] [] [?w] None" "[]" ?w "[]" fickle_docker "?t (?info False False) [] [?w]"]
    by (simp add: borrowCheck_def fickle_docker_def send_repair_def)
  moreover have "watch_step fickle_docker (?f (?info False False) [] [?w] [] None) (?f (?info False False) [] [] [] (Some ?w))"
    using f_take [of "?f (?info False False) [] [?w] [] None" ?w "[]" fickle_docker] by simp
  moreover have "watch_step fickle_docker (?f (?info False False) [] [] [] (Some ?w)) (?f (?info True True) [] [] [] (Some ?w))"
    using drifts [of fickle_docker "?f (?info False False) [] [] [] (Some ?w)" "(1, ?info True True)"] by (simp add: fickle_docker_def)
  ultimately have reach: "fleet_reach fickle_docker (?f (?info True False) [?w] [] [] None) (?f (?info True True) [] [] [] (Some ?w))"
    by (meson fleet_start fleet_step)
  have "\<exists>u v. fleet_reach fickle_docker (?f (?info True False) [?w] [] [] None) u \<and> workers (wt u) = [?w] \<and> repair (wt u) = [?w] \<and>
      fleet_reach fickle_docker u v \<and> ?w \<in> set (lent v) \<and> fixing v = Some ?w"
    by (rule paused_worker_twice [OF reach, of ?w "(1, ?info True False)" None "?info True False"])
      (simp_all add: two_faced_def fickle_docker_def)
  then obtain u v where uv: "fleet_reach fickle_docker (?f (?info True False) [?w] [] [] None) u"
    "fleet_reach fickle_docker u v" and v: "?w \<in> set (lent v)" "fixing v = Some ?w" by blast
  have "fleet_reach fickle_docker (idle_fleet (?t (?info True False) [?w] [])) v"
    unfolding idle_fleet_def by (rule fleet_reach_trans [OF uv(2,1)])
  with init v show ?thesis unfolding Let_def by blast
qed

end
