(* ===== verification/Files.thy ===== *)
theory Files
  imports GoStrings
begin

text \<open>
  \<open>internal/util/file_storage.go\<close> over a file system, and \<open>filepath.Join\<close> for paths that start
  with a slash, as the roots of the storage do.  The file system maps full paths to contents; what
  the operating system refuses is a parameter.
\<close>

section \<open>Paths\<close>

text \<open>The components of a rooted path, cleaned; the last component comes first on the stack.\<close>

fun clean_parts :: "string list \<Rightarrow> string list \<Rightarrow> string list" where
  "clean_parts st [] = rev st"
| "clean_parts st (p # ps) =
     (if p = '''' \<or> p = ''.'' then clean_parts st ps
      else if p = ''..'' then clean_parts (tl st) ps
      else clean_parts (p # st) ps)"

definition slash :: char where "slash = CHR ''/''"

definition filepath_Join :: "string list \<Rightarrow> string" where
  "filepath_Join elems = slash # Join [slash] (clean_parts [] (concat (map (Split slash) elems)))"

definition plain_name :: "string \<Rightarrow> bool" where
  "plain_name n \<longleftrightarrow> n \<noteq> '''' \<and> n \<noteq> ''.'' \<and> n \<noteq> ''..'' \<and> slash \<notin> set n"

lemma clean_parts_plain: "list_all plain_name ps \<Longrightarrow> clean_parts st ps = rev st @ ps"
  by (induction ps arbitrary: st) (auto simp: plain_name_def)

lemma filepath_Join_plain: "list_all plain_name ps \<Longrightarrow> filepath_Join ps = slash # Join [slash] ps"
proof -
  assume "list_all plain_name ps"
  then have "concat (map (Split slash) ps) = ps"
    by (induction ps) (auto simp: plain_name_def Split_free)
  with \<open>list_all plain_name ps\<close> show ?thesis
    by (simp add: filepath_Join_def clean_parts_plain)
qed

lemma Join_slash_inject:
  "list_all plain_name ps \<Longrightarrow> list_all plain_name qs \<Longrightarrow> Join [slash] ps = Join [slash] qs \<Longrightarrow> ps = qs"
proof -
  assume ps: "list_all plain_name ps" and qs: "list_all plain_name qs" and same: "Join [slash] ps = Join [slash] qs"
  have parts: "xs \<noteq> [] \<Longrightarrow> list_all plain_name xs \<Longrightarrow> Split slash (Join [slash] xs) = xs" for xs
    by (induction xs) (auto simp: Join_Cons plain_name_def Split_free Split_append)
  have empty: "list_all plain_name xs \<Longrightarrow> Join [slash] xs = [] \<longleftrightarrow> xs = []" for xs
    by (cases xs) (auto simp: Join_Cons plain_name_def)
  show "ps = qs"
    using parts [of ps] parts [of qs] empty [OF ps] empty [OF qs] ps qs same by (cases "ps = []") auto
qed

section \<open>The storage\<close>

record fsys =
  files :: "string \<Rightarrow> string option"

text \<open>
  \<open>deny\<close>: the error a call on a path gets; \<open>short\<close>: a write that stops after some bytes.
\<close>

record os =
  deny :: "string \<Rightarrow> go_error option"
  short :: "string \<Rightarrow> (nat \<times> go_error) option"

record FileStorage =
  fs_prefix :: "string list"

definition fs_path :: "FileStorage \<Rightarrow> string \<Rightarrow> string \<Rightarrow> string" where
  "fs_path fs p filename = filepath_Join (fs_prefix fs @ [p, filename])"

definition fs_Read :: "os \<Rightarrow> FileStorage \<Rightarrow> fsys \<Rightarrow> string \<Rightarrow> string \<Rightarrow> go_error + string" where
  "fs_Read sys fs d p filename =
     (let full_path = fs_path fs p filename in
      case deny sys full_path of
        Some err \<Rightarrow> Inl err
      | None \<Rightarrow> (case files d full_path of
          None \<Rightarrow> Inl (GoError ''no such file or directory'')
        | Some file \<Rightarrow> Inr file))"

text \<open>\<open>os.Create\<close> truncates first; the loop writes what a short write left.\<close>

definition fs_Write :: "os \<Rightarrow> FileStorage \<Rightarrow> fsys \<Rightarrow> string \<Rightarrow> string \<Rightarrow> string \<Rightarrow> fsys \<times> go_error option" where
  "fs_Write sys fs d p filename data =
     (let folder = filepath_Join (fs_prefix fs @ [p]); full_path = filepath_Join [folder, filename] in
      case deny sys folder of
        Some err \<Rightarrow> (d, Some err)
      | None \<Rightarrow> (case deny sys full_path of
          Some err \<Rightarrow> (d, Some err)
        | None \<Rightarrow>
            if length data = 0 then (d\<lparr>files := (files d)(full_path \<mapsto> [])\<rparr>, None)
            else (case short sys full_path of
              Some (n, err) \<Rightarrow> (d\<lparr>files := (files d)(full_path \<mapsto> take n data)\<rparr>, Some err)
            | None \<Rightarrow> (d\<lparr>files := (files d)(full_path \<mapsto> data)\<rparr>, None))))"

text \<open>\<open>now\<close> is \<open>time.Now().Format("20060102150405")\<close>: the time in seconds.\<close>

definition GenUniqueFilename :: "string \<Rightarrow> string \<Rightarrow> string" where
  "GenUniqueFilename now ext = ''script_'' @ now @ ''.'' @ ext"

text \<open>\<open>Write\<close> and \<open>Read\<close> mean the same file.\<close>

lemma clean_parts_append:
  "clean_parts st (ps @ qs) = clean_parts (rev (clean_parts st ps)) qs"
  by (induction ps arbitrary: st) auto

lemma clean_parts_ok:
  "list_all plain_name st \<Longrightarrow> list_all (\<lambda>p. slash \<notin> set p) ps \<Longrightarrow> list_all plain_name (clean_parts st ps)"
proof (induction ps arbitrary: st)
  case (Cons p ps)
  have "list_all plain_name (tl st)" using Cons.prems(1) by (cases st) simp_all
  with Cons show ?case by (auto simp: plain_name_def [of p])
qed simp

lemma Split_no_sep: "list_all (\<lambda>p. c \<notin> set p) (Split c s)"
  by (induction s) (auto split: list.split)

lemma parts_no_slash: "list_all (\<lambda>p. slash \<notin> set p) (concat (map (Split slash) xs))"
  using Split_no_sep by (induction xs) auto

lemma filepath_Join_nested: "filepath_Join [filepath_Join xs, y] = filepath_Join (xs @ [y])"
proof -
  let ?c = "clean_parts [] (concat (map (Split slash) xs))"
  have c: "list_all plain_name ?c" using clean_parts_ok [of "[]"] parts_no_slash by simp
  have "Split slash (filepath_Join xs) = [] # (if ?c = [] then [[]] else ?c)"
  proof (cases "?c = []")
    case False
    have "list_all plain_name zs \<Longrightarrow> zs \<noteq> [] \<Longrightarrow> Split slash (Join [slash] zs) = zs" for zs
      by (induction zs) (auto simp: Join_Cons plain_name_def Split_free Split_append)
    with c False show ?thesis by (simp add: filepath_Join_def)
  qed (simp add: filepath_Join_def)
  moreover have "clean_parts [] ([] # (if ?c = [] then [[]] else ?c)) = ?c"
    using c by (simp add: clean_parts_plain)
  ultimately show ?thesis
    by (simp add: filepath_Join_def clean_parts_append)
qed

lemma fs_Write_path:
  "filepath_Join [filepath_Join (fs_prefix fs @ [p]), filename] = fs_path fs p filename"
  by (simp add: filepath_Join_nested fs_path_def)

lemma fs_Write_ok:
  assumes "fs_Write sys fs d p f data = (d', None)"
  shows "files d' = (files d)(fs_path fs p f \<mapsto> data)" and "deny sys (fs_path fs p f) = None"
  using assms
  by (auto simp: fs_Write_def fs_Write_path Let_def split: option.splits if_splits)

lemma fs_path_inject:
  assumes "list_all plain_name (fs_prefix fs)" and "plain_name p" "plain_name p'" "plain_name f" "plain_name f'"
    and "fs_path fs p f = fs_path fs p' f'"
  shows "p = p' \<and> f = f'"
  using assms Join_slash_inject [of "fs_prefix fs @ [p, f]" "fs_prefix fs @ [p', f']"]
  by (simp add: fs_path_def filepath_Join_plain)

lemma GenUniqueFilename_plain:
  "slash \<notin> set now \<Longrightarrow> slash \<notin> set ext \<Longrightarrow> plain_name (GenUniqueFilename now ext)"
  by (simp add: plain_name_def GenUniqueFilename_def slash_def)


section \<open>Where the files are\<close>

text \<open>
  \<open>internal/util/project_root.go\<close>: the directory above what \<open>WORKING_DIRECTORY\<close> or the output of
  \<open>go env GOMOD\<close> names.  \<open>path.Dir\<close> drops the last element and cleans the rest, so the variable has to
  end with a slash to mean itself.
\<close>

definition path_Dir :: "string \<Rightarrow> string" where
  "path_Dir s = filepath_Join (butlast (Split slash s))"

definition GetProjectRoot :: "(string \<Rightarrow> string option) \<Rightarrow> go_error + string \<Rightarrow> go_error + string" where
  "GetProjectRoot LookupEnv gomod = (case LookupEnv ''WORKING_DIRECTORY'' of
     Some dir \<Rightarrow> Inr (path_Dir dir)
   | None \<Rightarrow> (case gomod of
       Inl err \<Rightarrow> Inl err
     | Inr stdout \<Rightarrow> Inr (path_Dir stdout)))"

text \<open>\<open>mkdir\<close> is the error \<open>createIfNotExists\<close> ends with; \<open>filepath.Abs\<close> keeps a rooted path.\<close>

definition FileStorageRoot :: "(string \<Rightarrow> go_error option) \<Rightarrow> go_error + string \<Rightarrow> go_error + string" where
  "FileStorageRoot mkdir root = (case root of
     Inl err \<Rightarrow> Inl err
   | Inr root \<Rightarrow>
       let storage_root = filepath_Join [root, ''.storage''] in
       (case mkdir storage_root of Some err \<Rightarrow> Inl err | None \<Rightarrow> Inr storage_root))"

definition NewFileStorageDriver :: "(string \<Rightarrow> go_error option) \<Rightarrow> go_error + string \<Rightarrow> string
    \<Rightarrow> go_error + FileStorage" where
  "NewFileStorageDriver mkdir project_root p = (case FileStorageRoot mkdir project_root of
     Inl err \<Rightarrow> Inl err
   | Inr storage \<Rightarrow>
       let root = filepath_Join [storage, p] in
       (case mkdir root of Some err \<Rightarrow> Inl err | None \<Rightarrow> Inr \<lparr>fs_prefix = [root]\<rparr>))"

text \<open>Joining on to what was joined is joining.\<close>

lemma filepath_Join_append: "filepath_Join (filepath_Join xs # ys) = filepath_Join (xs @ ys)"
proof (induction ys rule: rev_induct)
  case Nil
  show ?case using filepath_Join_nested [of xs "[]"]
    by (simp add: filepath_Join_def clean_parts_append)
next
  case (snoc y ys)
  have "filepath_Join ((filepath_Join xs # ys) @ [y]) = filepath_Join [filepath_Join (filepath_Join xs # ys), y]"
    by (rule filepath_Join_nested [symmetric])
  also have "\<dots> = filepath_Join [filepath_Join (xs @ ys), y]" by (simp only: snoc.IH)
  also have "\<dots> = filepath_Join ((xs @ ys) @ [y])" by (rule filepath_Join_nested)
  finally show ?case by simp
qed

text \<open>Plain names go to the end of a path that is not the root.\<close>

lemma filepath_Join_plain_end:
  assumes "list_all plain_name qs" and "qs \<noteq> []" and "filepath_Join xs \<noteq> [slash]"
  shows "filepath_Join (filepath_Join xs # qs) = filepath_Join xs @ slash # Join [slash] qs"
proof -
  let ?c = "clean_parts [] (concat (map (Split slash) xs))"
  have c: "?c \<noteq> []" using assms(3) by (auto simp: filepath_Join_def)
  have "concat (map (Split slash) qs) = qs"
    using assms(1) by (induction qs) (auto simp: plain_name_def Split_free)
  then have "filepath_Join (xs @ qs) = slash # Join [slash] (?c @ qs)"
    using assms(1) by (simp add: filepath_Join_def clean_parts_append clean_parts_plain)
  then show ?thesis
    using c assms(2) by (simp add: filepath_Join_append Join_append) (simp add: filepath_Join_def)
qed

lemma storage_not_root:
  assumes "plain_name n"
  shows "filepath_Join [x, n] \<noteq> [slash]"
proof -
  have "clean_parts [] (Split slash x @ [n]) \<noteq> []"
    using assms by (simp add: clean_parts_append plain_name_def)
  moreover have "list_all plain_name (clean_parts [] (Split slash x @ [n]))"
    using clean_parts_ok [of "[]" "Split slash x @ [n]"] assms Split_no_sep [of slash x]
    by (simp add: plain_name_def)
  ultimately have "Join [slash] (clean_parts [] (Split slash x @ [n])) \<noteq> []"
    by (cases "clean_parts [] (Split slash x @ [n])") (auto simp: Join_Cons plain_name_def)
  then show ?thesis
    using assms by (simp add: filepath_Join_def plain_name_def Split_free)
qed

section \<open>Properties\<close>

text \<open>What was written is read back, and writing one script leaves every other one alone: names
  that are plain components never share a file.\<close>
theorem storage_roundtrip:
  assumes "fs_Write sys fs d p f data = (d', None)" and "list_all plain_name (fs_prefix fs)"
    and "plain_name p" "plain_name p'" "plain_name f" "plain_name f'"
  shows "fs_Read sys fs d' p f = Inr data \<and>
    ((p', f') \<noteq> (p, f) \<longrightarrow> fs_Read sys fs d' p' f' = fs_Read sys fs d p' f')"
proof -
  note w = fs_Write_ok [OF assms(1)]
  have "fs_path fs p' f' \<noteq> fs_path fs p f" if "(p', f') \<noteq> (p, f)"
    using fs_path_inject [OF assms(2-6)] that by auto
  with w show ?thesis by (auto simp: fs_Read_def Let_def split: option.splits)
qed

lemma storage_roundtrip_witness:
  "let sys = \<lparr>deny = Map.empty, short = Map.empty\<rparr>; fs = \<lparr>fs_prefix = [''root'', ''coderun'']\<rparr>;
       (d, err) = fs_Write sys fs \<lparr>files = Map.empty\<rparr> ''mapper'' ''a.py'' ''code''
   in err = None \<and> fs_Read sys fs d ''mapper'' ''a.py'' = Inr ''code'' \<and>
      fs_Read sys fs d ''mapper'' ''b.py'' = Inl (GoError ''no such file or directory'')"
proof -
  let ?sys = "\<lparr>deny = Map.empty, short = Map.empty\<rparr>" and ?fs = "\<lparr>fs_prefix = [''root'', ''coderun'']\<rparr>"
  obtain d where run: "fs_Write ?sys ?fs \<lparr>files = Map.empty\<rparr> ''mapper'' ''a.py'' ''code'' = (d, None)"
    by (simp add: fs_Write_def Let_def)
  have "fs_Read ?sys ?fs d ''mapper'' ''a.py'' = Inr ''code'' \<and>
      fs_Read ?sys ?fs d ''mapper'' ''b.py'' = fs_Read ?sys ?fs \<lparr>files = Map.empty\<rparr> ''mapper'' ''b.py''"
    using storage_roundtrip [OF run, of "''mapper''" "''b.py''"] by (simp add: plain_name_def slash_def)
  with run show ?thesis by (simp add: fs_Read_def)
qed

end
