(* ===== verification/Worker.thy ===== *)
theory Worker
  imports CodeWrappers Watcher Files Json
begin

text \<open>
  Running a script: \<open>RunScript\<close> and the argument constructors of \<open>internal/coderun/watcher.go\<close>
  on the side of the server, \<open>internal/coderun/worker/main.go\<close> and \<open>scripts/runner.go\<close> on the
  side of the container.  HTTP between them and the Python interpreter are parameters.
\<close>

section \<open>The request of the server\<close>

record Args =
  hdrs :: string
  arg_data :: "string list"

definition NewDynHandleArgs :: "string \<Rightarrow> string \<Rightarrow> Args" where
  "NewDynHandleArgs headers body = \<lparr>hdrs = headers, arg_data = [body]\<rparr>"

definition NewMapperArgs :: "string list \<Rightarrow> Args" where
  "NewMapperArgs ms = \<lparr>hdrs = '''', arg_data = ms\<rparr>"

text \<open>
  \<open>http\<close> sends a POST with these headers and this body to the worker at a port: an error, or the
  status with what reading the response body gives.  The byte part of a Go result is meaningful
  next to \<open>ErrCodeRunFailed\<close>, so the result is a pair.
\<close>

type_synonym http = "string \<Rightarrow> (string \<times> string) list \<Rightarrow> string \<Rightarrow> go_error + (nat \<times> (go_error + string))"

definition RunScript :: "http \<Rightarrow> worker \<Rightarrow> string \<Rightarrow> string \<Rightarrow> Args \<Rightarrow> (string \<times> go_error option) outcome" where
  "RunScript http w run_type script args =
     (let send = (\<lambda>byteArgs. Return (case http (port w) [(''RunType'', run_type), (''Script'', script)] byteArgs of
        Inl err \<Rightarrow> ('''', Some err)
      | Inr (StatusCode, body) \<Rightarrow> (case body of
          Inl err \<Rightarrow> ('''', Some err)
        | Inr out \<Rightarrow>
            if StatusCode = 200 then (out, None)
            else if StatusCode = 400 then (out, Some ErrCodeRunFailed)
            else ('''', Some ErrWorkerFailed)))) in
      if run_type = ''dyn_handle'' then
        (case arg_data args of [] \<Rightarrow> Panic ''index out of range'' | d # _ \<Rightarrow> send (WrapArgsForDynHandle (hdrs args) d))
      else if run_type = ''mapper'' then send (WrapArgsForEsb (arg_data args))
      else Return ('''', Some (GoError (''invalid run type: '' @ run_type @ ''. Expected `dyn_handle` or `mapper`''))))"

section \<open>The worker\<close>

record RunRequest =
  RunType :: string
  Script :: string
  ReqArgs :: string

text \<open>The headers as the map of the server gives them, a name with its values.\<close>

fun parse_headers :: "RunRequest \<Rightarrow> (string \<times> string list) list \<Rightarrow> RunRequest" where
  "parse_headers r [] = r"
| "parse_headers r ((name, headers) # hs) =
     (if EqualFold name ''RunType'' then parse_headers (r\<lparr>RunType := hd headers\<rparr>) hs
      else if EqualFold name ''Script'' then parse_headers (r\<lparr>Script := hd headers\<rparr>) hs
      else parse_headers r hs)"

definition parseRequest :: "(string \<times> string list) list \<Rightarrow> go_error + string \<Rightarrow> go_error + RunRequest" where
  "parseRequest headers body =
     (let run_request = parse_headers \<lparr>RunType = '''', Script = '''', ReqArgs = ''''\<rparr> headers in
      case body of Inl err \<Rightarrow> Inl err | Inr body \<Rightarrow> Inr (run_request\<lparr>ReqArgs := body\<rparr>))"

text \<open>
  \<open>exists_file\<close> is \<open>os.Stat\<close>, \<open>dump\<close> the error of writing \<open>data.json\<close>, \<open>python\<close> runs a script on
  the arguments in that file: what it wrote to standard output and standard error, and whether the
  run failed.
\<close>

record 'w container =
  coderun_root :: "go_error + string"
  exists_file :: "string \<Rightarrow> bool"
  dump :: "string \<Rightarrow> go_error option"
  python :: "string \<Rightarrow> string \<Rightarrow> string \<times> string \<times> go_error option"

definition is_blank :: "char \<Rightarrow> bool" where
  "is_blank c \<longleftrightarrow> c \<in> {CHR 0x09, CHR 0x0A, CHR 0x0B, CHR 0x0C, CHR 0x0D, CHR 0x20}"

definition TrimSpace :: "string \<Rightarrow> string" where
  "TrimSpace s = rev (dropWhile is_blank (rev (dropWhile is_blank s)))"

definition ReplaceQuotes :: "string \<Rightarrow> string" where
  "ReplaceQuotes s = map (\<lambda>c. if c = CHR 0x27 then CHR 0x22 else c) s"

text \<open>The byte part next to an error is what the handler shows, so the result is a pair again.\<close>

definition RunPythonScript :: "'w container \<Rightarrow> RunRequest \<Rightarrow> string \<times> go_error option" where
  "RunPythonScript c req = (case coderun_root c of
     Inl err \<Rightarrow> ('''', Some (GoError (''get coderun root failed: '' @ Error err)))
   | Inr root \<Rightarrow>
       let script_full_path = filepath_Join [root, RunType req, Script req] in
       if \<not> exists_file c script_full_path
       then ('''', Some (GoError (''script: '' @ script_full_path @ '' not exists'')))
       else
         let args = (if length (ReqArgs req) = 0 then ''{}'' else ReqArgs req) in
         case dump c args of
           Some err \<Rightarrow> ('''', Some (GoError (''dump args to file failed: '' @ Error err)))
         | None \<Rightarrow> (case python c script_full_path args of (stdout, stderr, err) \<Rightarrow>
             if err \<noteq> None then (stderr, err) else (ReplaceQuotes (TrimSpace stdout), None)))"

text \<open>\<open>http.Error\<close> ends its body with a newline.\<close>

definition runHandle :: "'w container \<Rightarrow> (string \<times> string list) list \<Rightarrow> go_error + string \<Rightarrow> nat \<times> string" where
  "runHandle c headers body = (case parseRequest headers body of
     Inl err \<Rightarrow> (400, Error err @ [newline])
   | Inr run_request \<Rightarrow> (case RunPythonScript c run_request of (out, err) \<Rightarrow>
       (case err of
          Some e \<Rightarrow> (400, (out @ '': '' @ Error e) @ [newline])
        | None \<Rightarrow> (200, out))))"

section \<open>End to end\<close>

text \<open>HTTP as it is: the headers arrive with canonical names, the response as it was written.\<close>

definition container_http :: "(string \<Rightarrow> 'w container) \<Rightarrow> http" where
  "container_http at p hs body =
     (let canonical = map (\<lambda>(n, v). (if n = ''RunType'' then ''Runtype'' else n, [v])) hs;
          (status, out) = runHandle (at p) canonical (Inr body)
      in Inr (status, Inr out))"

lemma EqualFold_names:
  "EqualFold ''Runtype'' ''RunType''" "EqualFold ''Script'' ''Script''" "\<not> EqualFold ''Script'' ''RunType''"
  by (simp_all add: EqualFold_def lower_def char_of_def bit_0)

lemma RunScript_container:
  assumes "run_type = ''dyn_handle'' \<and> arg_data args = [d] \<and> byteArgs = WrapArgsForDynHandle (hdrs args) d \<or>
    run_type = ''mapper'' \<and> byteArgs = WrapArgsForEsb (arg_data args)"
  shows "RunScript (container_http at) w run_type script args
    = Return (case RunPythonScript (at (port w)) \<lparr>RunType = run_type, Script = script, ReqArgs = byteArgs\<rparr> of
        (out, None) \<Rightarrow> (out, None)
      | (out, Some e) \<Rightarrow> (out @ '': '' @ Error e @ [newline], Some ErrCodeRunFailed))"
  using assms
  by (auto simp: RunScript_def container_http_def runHandle_def parseRequest_def EqualFold_names Let_def
      split: prod.splits option.splits)

lemma WrapArgs_not_empty: "WrapArgsForDynHandle h d \<noteq> []" "WrapArgsForEsb ms \<noteq> []"
  by (simp_all add: WrapArgsForDynHandle_def WrapArgsForEsb_def)

text \<open>What the interpreter did, as the caller of \<open>RunScript\<close> is told.\<close>

definition told :: "string \<times> string \<times> go_error option \<Rightarrow> string \<times> go_error option" where
  "told r = (case r of
     (stdout, stderr, None) \<Rightarrow> (ReplaceQuotes (TrimSpace stdout), None)
   | (stdout, stderr, Some e) \<Rightarrow> (stderr @ '': '' @ Error e @ [newline], Some ErrCodeRunFailed))"

section \<open>Properties\<close>

text \<open>C13: From server to interpreter and back: a script that is there is run once, on exactly the
  wrapped arguments, with its standard output trimmed and its quotes replaced on success, its
  standard error and \<open>ErrCodeRunFailed\<close> on failure; a script that is not there is a failed run,
  never a failed worker.\<close>
theorem script_end_to_end:
  assumes "coderun_root (at (port w)) = Inr root"
    and "run_type = ''dyn_handle'' \<and> args = NewDynHandleArgs h d \<and> byteArgs = WrapArgsForDynHandle h d \<or>
      run_type = ''mapper'' \<and> args = NewMapperArgs ms \<and> byteArgs = WrapArgsForEsb ms"
    and "dump (at (port w)) byteArgs = None"
  shows "RunScript (container_http at) w run_type script args = Return (
    let path = filepath_Join [root, run_type, script] in
    if exists_file (at (port w)) path then told (python (at (port w)) path byteArgs)
    else ('': script: '' @ path @ '' not exists'' @ [newline], Some ErrCodeRunFailed))"
proof -
  have "run_type = ''dyn_handle'' \<and> arg_data args = [d] \<and> byteArgs = WrapArgsForDynHandle (hdrs args) d \<or>
      run_type = ''mapper'' \<and> byteArgs = WrapArgsForEsb (arg_data args)"
    using assms(2) by (auto simp: NewDynHandleArgs_def NewMapperArgs_def)
  moreover have "byteArgs \<noteq> []" using assms(2) by (auto simp: WrapArgs_not_empty [THEN not_sym])
  ultimately show ?thesis
    using assms(1,3) RunScript_container
    by (auto simp: RunPythonScript_def told_def Let_def split: prod.splits option.splits)
qed

lemma script_end_to_end_witness:
  "let c = \<lparr>coderun_root = Inr ''/opt'', exists_file = (\<lambda>p. p = ''/opt/mapper/m.py''), dump = (\<lambda>_. None),
       python = (\<lambda>p args. ('' ['' @ [CHR 0x27] @ ''x'' @ [CHR 0x27] @ ''] '', '''', None))\<rparr> :: unit container
   in RunScript (container_http (\<lambda>_. c)) \<lparr>port = ''5000'', cId = ''i''\<rparr> ''mapper'' ''m.py'' (NewMapperArgs [''x''])
     = Return (''['' @ [CHR 0x22] @ ''x'' @ [CHR 0x22] @ '']'', None)"
proof -
  let ?c = "\<lparr>coderun_root = Inr ''/opt'', exists_file = (\<lambda>p. p = ''/opt/mapper/m.py''), dump = (\<lambda>_. None),
       python = (\<lambda>p args. ('' ['' @ [CHR 0x27] @ ''x'' @ [CHR 0x27] @ ''] '', '''', None))\<rparr> :: unit container"
  have p: "filepath_Join [''/opt'', ''mapper'', ''m.py''] = ''/opt/mapper/m.py''" by code_simp
  have "RunScript (container_http (\<lambda>_. ?c)) \<lparr>port = ''5000'', cId = ''i''\<rparr> ''mapper'' ''m.py'' (NewMapperArgs [''x''])
     = Return (told ('' ['' @ [CHR 0x27] @ ''x'' @ [CHR 0x27] @ ''] '', '''', None))"
    using script_end_to_end [of "\<lambda>_. ?c" "\<lparr>port = ''5000'', cId = ''i''\<rparr>" "''/opt''" "''mapper''"
        "NewMapperArgs [''x'']" "[]" "[]" "WrapArgsForEsb [''x'']" "[''x'']" "''m.py''"]
    by (simp add: p)
  moreover have "told ('' ['' @ [CHR 0x27] @ ''x'' @ [CHR 0x27] @ ''] '', '''', None)
      = (''['' @ [CHR 0x22] @ ''x'' @ [CHR 0x22] @ '']'', None)"
    by code_simp
  ultimately show ?thesis by simp
qed

end
