(* ===== verification/Esb.thy ===== *)
theory Esb
  imports BrokerTasks Worker
begin

text \<open>
  \<open>internal/brokers/esb.go\<close>: forwarding a batch from one pool to another, through a mapper
  script or as it is.  The state is what the call touches: the registry of pools, the watcher of
  \<open>coderun\<close> and the write tasks handed to the scheduler, each with its pool and its messages.
\<close>

section \<open>The calls\<close>

definition EMPTY_MAPPER :: string where
  "EMPTY_MAPPER = ''''"

record ('w, 'c, 'h, 'v) esb_state =
  reg :: "('w, 'c, 'h) registry"
  coder :: "'v watcher"
  tasks_out :: "(pool \<times> string list) list"

text \<open>\<open>json.Unmarshal\<close> into a nil \<open>[]string\<close>; \<open>null\<close> leaves it nil and an element empty.\<close>

fun dec_strings :: "json \<Rightarrow> string list option" where
  "dec_strings JNull = Some []"
| "dec_strings (JArr js) = dec_elems js"
| "dec_strings _ = None"

definition UnmarshalStrings :: "string \<Rightarrow> go_error + string list" where
  "UnmarshalStrings out = (case json_parse out of
     None \<Rightarrow> Inl (GoError ''invalid JSON'')
   | Some j \<Rightarrow> (case dec_strings j of
       None \<Rightarrow> Inl (GoError ''cannot unmarshal'')
     | Some ms \<Rightarrow> Inr ms))"

text \<open>
  \<^term>\<open>None\<close>: blocked for ever on a full channel.  The deferred \<open>Return\<close> runs on every way out
  after the worker was borrowed.
\<close>

definition runMapper :: "'v docker \<Rightarrow> http \<Rightarrow> 'v watcher \<Rightarrow> string \<Rightarrow> string list
    \<Rightarrow> ('v watcher \<times> (go_error + string list)) outcome option" where
  "runMapper lib http s mapper_name ms = (case BorrowWorker lib s of
     None \<Rightarrow> None
   | Some (s, Inl err) \<Rightarrow> Some (Return (s, Inl err))
   | Some (s, Inr worker) \<Rightarrow>
       map_option (\<lambda>s. case RunScript http worker ''mapper'' mapper_name (NewMapperArgs ms) of
           Panic m \<Rightarrow> Panic m
         | Return (out, err) \<Rightarrow> (case err of
             Some err \<Rightarrow> Return (s, Inl err)
           | None \<Rightarrow> Return (s, UnmarshalStrings out)))
         (Return_worker worker s))"

definition submitToESB :: "('c, 'h, MessagePool) backend \<Rightarrow> 'v docker \<Rightarrow> http \<Rightarrow> ESBRecord
    \<Rightarrow> ('w, 'c, 'h, 'v) esb_state \<Rightarrow> string list
    \<Rightarrow> (('w, 'c, 'h, 'v) esb_state \<times> go_error option) outcome option" where
  "submitToESB be lib http rc s ms =
     (let (r, handler) = GetMessagePool be (reg s) (PoolNameOut rc); s = s\<lparr>reg := r\<rparr> in
      case handler of
        Inl err \<Rightarrow> Some (Return (s, Some err))
      | Inr handler \<Rightarrow>
          if MapperScriptName rc \<noteq> EMPTY_MAPPER then
            (case runMapper lib http (coder s) (MapperScriptName rc) ms of
               None \<Rightarrow> None
             | Some (Panic m) \<Rightarrow> Some (Panic m)
             | Some (Return (v, Inl err)) \<Rightarrow> Some (Return (s\<lparr>coder := v\<rparr>, Some err))
             | Some (Return (v, Inr ms)) \<Rightarrow>
                 Some (Return (s\<lparr>coder := v, tasks_out := tasks_out s @ [(handler, ms)]\<rparr>, None)))
          else Some (Return (s\<lparr>tasks_out := tasks_out s @ [(handler, ms)]\<rparr>, None)))"

definition AddEsbRecord :: "('c, 'h, ESBRecord) backend \<Rightarrow> ('c, 'h) esbRecords \<Rightarrow> string \<Rightarrow> string
    \<Rightarrow> ('c, 'h) esbRecords \<times> go_error option" where
  "AddEsbRecord be s pool_name_in pool_name_out =
     addESBRecord be s \<lparr>PoolNameIn = pool_name_in, PoolNameOut = pool_name_out, MapperScriptName = EMPTY_MAPPER\<rparr>"

definition AddEsbRecordWithMapper :: "('c, 'h, ESBRecord) backend \<Rightarrow> ('c, 'h) esbRecords \<Rightarrow> string \<Rightarrow> string
    \<Rightarrow> string \<Rightarrow> ('c, 'h) esbRecords \<times> go_error option" where
  "AddEsbRecordWithMapper be s pool_name_in pool_name_out mapperScriptName =
     addESBRecord be s \<lparr>PoolNameIn = pool_name_in, PoolNameOut = pool_name_out, MapperScriptName = mapperScriptName\<rparr>"

definition RemoveEsbRecord :: "('c, 'h, ESBRecord) backend \<Rightarrow> ('c, 'h) esbRecords \<Rightarrow> string
    \<Rightarrow> ('c, 'h) esbRecords \<times> go_error option" where
  "RemoveEsbRecord be s pool_name_in = removeESBRecord be s pool_name_in"

definition GetEsbRecord :: "('c, 'h, ESBRecord) backend \<Rightarrow> ('c, 'h) esbRecords \<Rightarrow> string
    \<Rightarrow> ('c, 'h) esbRecords \<times> (go_error + ESBRecord)" where
  "GetEsbRecord be s pool_name_in = getESBRecord be s pool_name_in"

lemmas esb_calls = AddEsbRecord_def AddEsbRecordWithMapper_def RemoveEsbRecord_def GetEsbRecord_def

text \<open>The call as the loop of a task sees it: one that blocks or panics does not come back, and the
  loop goes no further.\<close>

definition esb_submit :: "('c, 'h, MessagePool) backend \<Rightarrow> 'v docker \<Rightarrow> http \<Rightarrow> ESBRecord
    \<Rightarrow> ('w, 'c, 'h, 'v) esb_state \<Rightarrow> string list \<Rightarrow> ('w, 'c, 'h, 'v) esb_state \<times> go_error option" where
  "esb_submit be lib http rec s ms = (case submitToESB be lib http rec s ms of
     Some (Return r) \<Rightarrow> r
   | _ \<Rightarrow> (s, Some (GoError ''no return'')))"

section \<open>Mapping is total\<close>

lemma RunScript_mapper: "\<exists>out err. RunScript http w ''mapper'' name args = Return (out, err)"
  by (simp add: RunScript_def Let_def split: sum.split)

text \<open>The whole call: it returns, and unless an inspection failed everybody is back.\<close>

lemma runMapper_total:
  assumes "roomy s"
  obtains t r where "runMapper lib http s name ms = Some (Return (t, r))" and "roomy t"
    and "\<And>ms'. r = Inr ms' \<Longrightarrow> bench t = bench s \<and> (\<exists>w out.
      RunScript http w ''mapper'' name (NewMapperArgs ms) = Return (out, None) \<and> UnmarshalStrings out = Inr ms')"
    and "bench t = bench s \<or> (\<exists>e w. r = Inl e \<and> bench s = add_mset w (bench t) \<and>
      InspectWorkerContainer lib (dp s) (cId w) = Inl e)"
proof -
  obtain t r where b: "BorrowWorker lib s = Some (t, r)" and l: "lent_out lib s t r"
    using BorrowWorker_lent [OF assms] by blast
  have smaller: "bench s = add_mset w (bench t) \<Longrightarrow> roomy t" for w
    using l assms by (simp add: roomy_bench lent_out_def)
  have same: "bench t = bench s \<Longrightarrow> roomy t"
    using l assms by (simp add: roomy_bench lent_out_def)
  show thesis
  proof (cases r)
    case (Inl e)
    with b l that [of t "Inl e"] smaller same show thesis by (auto simp: runMapper_def lent_out_def)
  next
    case (Inr w)
    with l have bench: "bench s = add_mset w (bench t)" and cnt: "WorkerCnt t = WorkerCnt s"
      by (simp_all add: lent_out_def)
    let ?u = "t\<lparr>workers := workers t @ [w]\<rparr>"
    have ret: "Return_worker w t = Some ?u"
      using bench_room [OF bench assms cnt] by (simp add: Return_worker_def send_workers_def)
    obtain out err where "RunScript http w ''mapper'' name (NewMapperArgs ms) = Return (out, err)"
      using RunScript_mapper by blast
    note run = this
    let ?r = "case err of Some e \<Rightarrow> Inl e | None \<Rightarrow> UnmarshalStrings out"
    from b Inr ret run have "runMapper lib http s name ms = Some (Return (?u, ?r))"
      by (cases err) (simp_all add: runMapper_def)
    moreover have back_again: "bench ?u = bench s" using bench by (simp add: bench_def)
    moreover have "roomy ?u"
      using assms cnt back_again by (simp add: roomy_bench)
    moreover have "\<exists>w out. RunScript http w ''mapper'' name (NewMapperArgs ms) = Return (out, None) \<and>
        UnmarshalStrings out = Inr ms'" if "?r = Inr ms'" for ms'
      using run that by (cases err) auto
    ultimately show thesis using that by blast
  qed
qed

section \<open>The interface of the readers\<close>

abbreviation plain_record :: "string \<Rightarrow> string \<Rightarrow> ESBRecord" where
  "plain_record i out \<equiv> \<lparr>PoolNameIn = i, PoolNameOut = out, MapperScriptName = EMPTY_MAPPER\<rparr>"

definition esb_ok :: "('c, 'h, MessagePool) backend \<Rightarrow> ('c \<Rightarrow> MessagePool list)
    \<Rightarrow> ('h \<Rightarrow> string \<Rightarrow> MessagePool option) \<Rightarrow> ('w, 'c, 'h, 'v) esb_state \<Rightarrow> bool" where
  "esb_ok be docs entry s \<longleftrightarrow> pools_inv be docs entry (reg s)"

text \<open>All messages in the write tasks for one pool.\<close>

definition esb_sent :: "string \<Rightarrow> ('w, 'c, 'h, 'v) esb_state \<Rightarrow> string list" where
  "esb_sent out s = concat (map snd (filter (\<lambda>t. GetName (fst t) = out) (tasks_out s)))"

lemma createFromDatabase_name: "createFromDatabase row = Inr p \<Longrightarrow> GetName p = dbName row"
  by (auto simp: createFromDatabase_def createKafkaPoolFromDatabase_def createRabbitMQPoolFromDatabase_def
      NewKafkaMessagePool_def NewRabbitMQMessagePool_def Let_def split: sum.splits if_splits)

lemma GetMessagePool_name:
  assumes "pools_inv be docs entry s" and "GetMessagePool be s name = (s', Inr p)"
  shows "GetName p = name"
proof -
  note g = GetMessagePool_rows [OF assms]
  obtain row where row: "rows docs s name = Some row" using g(4) by fastforce
  then have "dbName row = name" by (auto simp: table_def dest: lookup_by_SomeD)
  with g(5) [OF row] createFromDatabase_name [of row p] show ?thesis by simp
qed

lemma plain_submit_eq:
  "esb_submit be lib http (plain_record i out) s ms = (case GetMessagePool be (reg s) out of (r, h) \<Rightarrow>
     (case h of Inl e \<Rightarrow> (s\<lparr>reg := r\<rparr>, Some e)
      | Inr p \<Rightarrow> (s\<lparr>reg := r, tasks_out := tasks_out s @ [(p, ms)]\<rparr>, None)))"
  by (simp add: esb_submit_def submitToESB_def Let_def split: prod.split sum.split)

lemma plain_submit:
  assumes "esb_ok be docs entry s" and "esb_submit be lib http (plain_record i out) s ms = (s', err)"
  shows "esb_ok be docs entry s'" and "err = None \<Longrightarrow> esb_sent out s' = esb_sent out s @ ms"
    and "err = Some e \<Longrightarrow> esb_sent out s' = esb_sent out s"
proof -
  obtain r h where g: "GetMessagePool be (reg s) out = (r, h)" by force
  have inv: "pools_inv be docs entry (reg s)" using assms(1) by (simp add: esb_ok_def)
  have run: "(s', err) = (case h of Inl e \<Rightarrow> (s\<lparr>reg := r\<rparr>, Some e)
      | Inr p \<Rightarrow> (s\<lparr>reg := r, tasks_out := tasks_out s @ [(p, ms)]\<rparr>, None))"
    using assms(2) g by (simp add: plain_submit_eq)
  show "esb_ok be docs entry s'"
    using GetMessagePool_rows(1) [OF inv g] run by (simp add: esb_ok_def split: sum.splits)
  show "err = None \<Longrightarrow> esb_sent out s' = esb_sent out s @ ms"
    using run g GetMessagePool_name [OF inv] by (cases h) (auto simp: esb_sent_def)
  show "err = Some e \<Longrightarrow> esb_sent out s' = esb_sent out s"
    using run by (cases h) (auto simp: esb_sent_def)
qed

interpretation plain_sink: esb_sink "esb_submit be lib http (plain_record i out)" "esb_sent out" "esb_ok be docs entry"
  for be lib http i out docs entry
  by unfold_locales (erule (1) plain_submit(1), erule (1) plain_submit(2), rule refl,
      erule (1) plain_submit(3), rule refl)

lemma bodies_append: "CtxDone \<notin> set pre \<Longrightarrow> bodies (pre @ es) = bodies pre @ bodies es"
proof (induction pre)
  case (Cons e pre)
  then show ?case by (cases e) auto
qed simp

lemma bodies_received: "bodies (map Received bs @ [CtxDone]) = bs"
  by (induction bs) auto

text \<open>A registry with one pool, a watcher with two idle workers.\<close>

definition demo_pool :: pool where
  "demo_pool = RabbitMQPool (NewRabbitMQMessagePool ''out'' ''oq'')"

definition demo_state :: "(unit, MessagePool list, (string \<times> MessagePool) list, nat) esb_state" where
  "demo_state = \<lparr>reg = (empty_registry ())\<lparr>pools := \<lparr>coll = [row_of demo_pool], cache = []\<rparr>\<rparr>,
     coder = \<lparr>dp = 2, WorkerCnt = 2, workers = [\<lparr>port = ''1'', cId = ''''\<rparr>, \<lparr>port = ''2'', cId = ''c''\<rparr>],
       repair = [], workerByPort = Map.empty, chans_closed = False\<rparr>, tasks_out = []\<rparr>"

abbreviation demo_be :: "(MessagePool list, (string \<times> MessagePool) list, MessagePool) backend" where
  "demo_be \<equiv> mem_backend (same_key dbName) 0"

lemma demo_ok: "esb_ok demo_be mem_docs map_of demo_state" "roomy (coder demo_state)"
  by (simp_all add: esb_ok_def demo_state_def pools_inv_def cached_inv_def mem_backend_ok coherent_def
      backed_def table_def reflp_def empty_registry_def roomy_def)

lemma demo_get: "\<exists>r. GetMessagePool demo_be (reg demo_state) ''out'' = (r, Inr demo_pool)"
proof -
  have row: "createFromDatabase (row_of demo_pool) = Inr demo_pool"
    by (rule pool_from_row) (simp add: demo_pool_def NewRabbitMQMessagePool_def rabbit_json_def rGetConfig_def map_ok_def ascii_def)
  have "dbName (row_of demo_pool) = ''out''"
    by (simp add: row_of_def demo_pool_def NewRabbitMQMessagePool_def)
  with row show ?thesis
    by (simp add: GetMessagePool_def demo_state_def getMessagePool_def pool_loader_def mem_backend_def
        mem_coll_def mem_cache_def mem_put_def limit_def Let_def)
qed

lemma GetName_demo: "GetName demo_pool = ''out''"
  by (simp add: demo_pool_def NewRabbitMQMessagePool_def)

lemma rabbit_read_plain:
  assumes "log_ok m ldocs" and "esb_ok be docs entry (sink t)"
    and "rabbit_read m (esb_submit be lib http) alib task (Inr (plain_record i out)) t es = (t', r)"
  defines "tid \<equiv> readTaskId (RabbitMQPool (task_pool task))"
  shows "\<exists>bs. prefix bs (bodies es) \<and>
    esb_sent out (sink t') @ msgs t' = esb_sent out (sink t) @ msgs t @ bs \<and>
    ((\<nexists>e. r = Some (Some e)) \<longrightarrow> bs = bodies es \<and>
      task_log ldocs (log t') tid = task_log ldocs (log t) tid @ bs)"
proof (cases "consume alib (the (q task)) (rrcfg (task_pool task))")
  case None
  then have "rabbit_read_loop m (esb_submit be lib http (plain_record i out)) tid True t es = (t', r)"
    using assms(3) by (simp add: rabbit_read_def tid_def)
  from plain_sink.rabbit_read_kept(2) [OF assms(1,2) this] show ?thesis
    unfolding kept_def by blast
next
  case (Some e)
  then have "t' = t" "r = Some (Some e)" using assms(3) by (simp_all add: rabbit_read_def)
  then show ?thesis by (intro exI [of _ "[]"]) simp
qed

text \<open>One call of the forwarder, whatever its record: the write task it hands over.\<close>

definition write_of :: "(string \<Rightarrow> MessagePool option) \<Rightarrow> http \<Rightarrow> ESBRecord \<Rightarrow> string list \<Rightarrow> pool \<times> string list \<Rightarrow> bool" where
  "write_of P http rc ms x \<longleftrightarrow> (\<exists>row. P (PoolNameOut rc) = Some row \<and> createFromDatabase row = Inr (fst x)) \<and>
     (if MapperScriptName rc = EMPTY_MAPPER then snd x = ms
      else \<exists>w out. RunScript http w ''mapper'' (MapperScriptName rc) (NewMapperArgs ms) = Return (out, None) \<and>
        UnmarshalStrings out = Inr (snd x))"

lemma submit_outcome:
  assumes "esb_ok be docs entry s" and "roomy (coder s)"
  obtains t err where "submitToESB be lib http rc s ms = Some (Return (t, err))"
    and "esb_ok be docs entry t" and "roomy (coder t)" and "rows docs (reg t) = rows docs (reg s)"
    and "err = None \<Longrightarrow> bench (coder t) = bench (coder s) \<and>
      (\<exists>x. tasks_out t = tasks_out s @ [x] \<and> write_of (rows docs (reg s)) http rc ms x)"
    and "err \<noteq> None \<Longrightarrow> tasks_out t = tasks_out s \<and> (bench (coder t) = bench (coder s) \<or>
      (\<exists>w e. bench (coder s) = add_mset w (bench (coder t)) \<and> err = Some e \<and>
        InspectWorkerContainer lib (dp (coder s)) (cId w) = Inl e))"
proof -
  obtain r h where g: "GetMessagePool be (reg s) (PoolNameOut rc) = (r, h)" by force
  have inv: "pools_inv be docs entry (reg s)" using assms(1) by (simp add: esb_ok_def)
  note look = GetMessagePool_rows [OF inv g]
  show thesis
  proof (cases h)
    case (Inl e)
    then show thesis using that [of "s\<lparr>reg := r\<rparr>" "Some e"] g look(1,2) assms(2) by (simp add: submitToESB_def esb_ok_def)
  next
    case (Inr p)
    with look(4) obtain row where "rows docs (reg s) (PoolNameOut rc) = Some row" by fastforce
    with look(5) Inr have row: "\<exists>row. rows docs (reg s) (PoolNameOut rc) = Some row \<and> createFromDatabase row = Inr p"
      by auto
    show thesis
    proof (cases "MapperScriptName rc = EMPTY_MAPPER")
      case True
      show thesis
        by (rule that [of "s\<lparr>reg := r, tasks_out := tasks_out s @ [(p, ms)]\<rparr>" None])
          (use True g Inr look(1,2) assms(2) row in \<open>simp_all add: submitToESB_def esb_ok_def write_of_def\<close>)
    next
      case False
      obtain v x where run: "runMapper lib http (coder s) (MapperScriptName rc) ms = Some (Return (v, x))"
        and v: "roomy v" and ok: "\<And>ms'. x = Inr ms' \<Longrightarrow> bench v = bench (coder s) \<and> (\<exists>w out.
          RunScript http w ''mapper'' (MapperScriptName rc) (NewMapperArgs ms) = Return (out, None) \<and>
          UnmarshalStrings out = Inr ms')"
        and bad: "bench v = bench (coder s) \<or> (\<exists>e w. x = Inl e \<and> bench (coder s) = add_mset w (bench v) \<and>
          InspectWorkerContainer lib (dp (coder s)) (cId w) = Inl e)"
        by (rule runMapper_total [OF assms(2), of lib http "MapperScriptName rc" ms]) blast
      show thesis
      proof (cases x)
        case (Inl e)
        show thesis
          by (rule that [of "s\<lparr>reg := r, coder := v\<rparr>" "Some e"])
            (use False g Inr Inl look(1,2) run v bad in \<open>auto simp: submitToESB_def esb_ok_def\<close>)
      next
        case x: (Inr ms')
        show thesis
          by (rule that [of "s\<lparr>reg := r, coder := v, tasks_out := tasks_out s @ [(p, ms')]\<rparr>" None])
            (use x ok [OF x] False g Inr look(1,2) run v row in \<open>simp_all add: submitToESB_def esb_ok_def write_of_def\<close>)
      qed
    qed
  qed
qed

abbreviation sink_ok :: "('c, 'h, MessagePool) backend \<Rightarrow> ('c \<Rightarrow> MessagePool list) \<Rightarrow> ('h \<Rightarrow> string \<Rightarrow> MessagePool option)
    \<Rightarrow> (string \<Rightarrow> MessagePool option) \<Rightarrow> ('w, 'c, 'h, 'v) esb_state \<Rightarrow> bool" where
  "sink_ok be docs entry P s \<equiv> esb_ok be docs entry s \<and> roomy (coder s) \<and> rows docs (reg s) = P"

lemma record_submit:
  assumes "sink_ok be docs entry P s" and "esb_submit be lib http rc s ms = (s', err)"
  shows "sink_ok be docs entry P s'" and "err = None \<Longrightarrow> \<exists>x. tasks_out s' = tasks_out s @ [x] \<and> write_of P http rc ms x"
    and "err = Some e \<Longrightarrow> tasks_out s' = tasks_out s"
proof -
  have ok: "esb_ok be docs entry s" "roomy (coder s)" and P: "rows docs (reg s) = P" using assms(1) by simp_all
  obtain t err' where "submitToESB be lib http rc s ms = Some (Return (t, err'))"
    and t: "sink_ok be docs entry P t" "err' = None \<Longrightarrow> \<exists>x. tasks_out t = tasks_out s @ [x] \<and> write_of P http rc ms x"
      "err' \<noteq> None \<Longrightarrow> tasks_out t = tasks_out s"
    by (rule submit_outcome [OF ok, of lib http rc ms]) (use P in blast)
  then have "s' = t" "err = err'" using assms(2) by (simp_all add: esb_submit_def)
  with t show "sink_ok be docs entry P s'" "err = None \<Longrightarrow> \<exists>x. tasks_out s' = tasks_out s @ [x] \<and> write_of P http rc ms x"
    "err = Some e \<Longrightarrow> tasks_out s' = tasks_out s" by simp_all
qed

interpretation record_sink: batch_sink "esb_submit be lib http rc" tasks_out "write_of P http rc" "sink_ok be docs entry P"
  for be lib http rc P docs entry
  by unfold_locales (erule (1) record_submit(1), erule (1) record_submit(2), rule refl, erule (1) record_submit(3), rule refl)

section \<open>Properties\<close>

text \<open>C10: A RabbitMQ read task of a pool with a record, with or without a mapper, hands over one write
  task for each batch, in order: a batch is what came in between two ticks, and its task is for the pool in
  the row of the out-pool, with the batch itself or the list the mapper's script printed for it.  At
  whatever point the task ends, nothing is forwarded that did not come in.  If it ends without an error, at its
  deadline say, every batch was handed over and every message logged; the messages after the last tick are
  still held, and are not forwarded.\<close>
theorem rabbit_forwards:
  assumes "log_ok m ldocs" and "esb_ok be docs entry (sink t)" and "roomy (coder (sink t))"
    and "rabbit_read m (esb_submit be lib http) alib task (Inr rc) t es = (t', r)"
  defines "tid \<equiv> readTaskId (RabbitMQPool (task_pool task))" and "P \<equiv> rows docs (reg (sink t))"
  shows "\<exists>bs ts. tasks_out (sink t') = tasks_out (sink t) @ ts \<and> list_all2 (write_of P http rc) bs ts \<and>
    prefix bs (fst (batches (msgs t) es)) \<and> prefix (concat bs @ msgs t') (msgs t @ bodies es) \<and>
    ((\<nexists>e. r = Some (Some e)) \<longrightarrow> bs = fst (batches (msgs t) es) \<and> msgs t' = snd (batches (msgs t) es) \<and>
      task_log ldocs (log t') tid = task_log ldocs (log t) tid @ bodies es)"
proof (cases "consume alib (the (q task)) (rrcfg (task_pool task))")
  case None
  then have run: "rabbit_read_loop m (esb_submit be lib http rc) tid True t es = (t', r)"
    using assms(4) by (simp add: rabbit_read_def tid_def)
  show ?thesis
    by (rule record_sink.rabbit_read_batches [OF assms(1) _ run]) (use assms(2,3) in \<open>simp add: P_def\<close>)
next
  case (Some e)
  then have "t' = t" "r = Some (Some e)" using assms(4) by (simp_all add: rabbit_read_def)
  then show ?thesis by (intro exI [of _ "[]"]) simp
qed

lemma rabbit_forwards_witness:
  "let alib = \<lparr>dial = (\<lambda>_. None), channel = (\<lambda>_. None), queueDeclare = (\<lambda>n c. Inr n), consume = (\<lambda>n c. None)\<rparr>;
       task = newRabbitMQBaseTask (NewRabbitMQMessagePool ''in'' ''iq'');
       (t', r) = rabbit_read (mem_coll (\<lambda>_ _. False)) (esb_submit demo_be mem_docker (\<lambda>_ _ _. Inl (GoError ''off'')))
         alib task (Inr (plain_record ''in'' ''out'')) \<lparr>msgs = [], log = [], sink = demo_state\<rparr>
         [Received ''a'', Received ''b'', Tick, Received ''c'', CtxDone]
   in r = Some None \<and> map snd (tasks_out (sink t')) = [[''a'', ''b'']] \<and> msgs t' = [''c'']"
proof -
  let ?alib = "\<lparr>dial = (\<lambda>_. None), channel = (\<lambda>_. None), queueDeclare = (\<lambda>n c. Inr n), consume = (\<lambda>n c. None)\<rparr>"
  let ?task = "newRabbitMQBaseTask (NewRabbitMQMessagePool ''in'' ''iq'')"
  let ?http = "\<lambda>_ _ _. Inl (GoError ''off'')"
  let ?t = "\<lparr>msgs = [], log = [], sink = demo_state\<rparr>"
  let ?es = "[Received ''a'', Received ''b'', Tick, Received ''c'', CtxDone]"
  obtain g where "GetMessagePool demo_be (reg demo_state) ''out'' = (g, Inr demo_pool)" using demo_get by blast
  then obtain t' where run: "rabbit_read (mem_coll (\<lambda>_ _. False)) (esb_submit demo_be mem_docker ?http) ?alib ?task
      (Inr (plain_record ''in'' ''out'')) ?t ?es = (t', Some None)"
    by (simp add: rabbit_read_def plain_submit_eq addTaskMessage_def mem_coll_def Let_def)
  have "tasks_out demo_state = []" by (simp add: demo_state_def)
  then obtain ts where "tasks_out (sink t') = ts" "list_all2 (write_of (rows mem_docs (reg demo_state)) ?http (plain_record ''in'' ''out'')) [[''a'', ''b'']] ts"
    and "msgs t' = [''c'']"
    using rabbit_forwards [OF mem_log_ok _ _ run, of mem_docs map_of] demo_ok by auto
  with run show ?thesis by (auto simp: Let_def list_all2_Cons1 write_of_def EMPTY_MAPPER_def)
qed



text \<open>C11: A Kafka read task of a pool with a record, with or without a mapper, hands over one write task for
  each batch, in order, as long as it runs; a poll that returns neither a message nor an error ends a
  batch.  If it ends at its deadline without an error, all batches were handed over, and what came after the
  last is still held and is not forwarded.\<close>
theorem kafka_forwards:
  assumes "esb_ok be docs entry (sink t)" and "roomy (coder (sink t))"
    and "kafka_read m (esb_submit be lib http) klib pool (Inr rc) t evs = (t', err)"
  defines "es \<equiv> map read_event_of evs" and "P \<equiv> rows docs (reg (sink t))"
  shows "\<exists>bs ts. tasks_out (sink t') = tasks_out (sink t) @ ts \<and> list_all2 (write_of P http rc) bs ts \<and>
    prefix bs (fst (batches (msgs t) es)) \<and>
    (err = None \<longrightarrow> bs = fst (batches (msgs t) es) \<and> msgs t' = snd (batches (msgs t) es) \<and>
      concat bs @ msgs t' = msgs t @ bodies es)"
proof (cases "newConsumer klib pool = None \<and> subscribe klib (ktopic pool) = None")
  case True
  then have "kafka_poll_loop m (esb_submit be lib http rc) (readTaskId (KafkaPool pool)) True t None True evs = (t', err)"
    using assms(3) by (simp add: kafka_read_def)
  from record_sink.kafka_read_batches [OF _ this, of docs entry P] concat_batches [of "msgs t" es] assms(1,2)
  show ?thesis unfolding es_def P_def by fastforce
next
  case False
  then have "t' = t" "err \<noteq> None" using assms(3) by (auto simp: kafka_read_def dest: sym split: option.splits)
  then show ?thesis by (intro exI [of _ "[]"]) auto
qed

lemma kafka_forwards_witness:
  "let klib = \<lparr>newConsumer = (\<lambda>_. None), subscribe = (\<lambda>_. None), newProducer = (\<lambda>_. None)\<rparr>;
       (t', err) = kafka_read (mem_coll (\<lambda>_ _. False)) (esb_submit demo_be mem_docker (\<lambda>_ _ _. Inl (GoError ''off'')))
         klib (NewKafkaMessagePool ''in'' ''t'') (Inr (plain_record ''in'' ''out''))
         \<lparr>msgs = [], log = [], sink = demo_state\<rparr> [KMessage ''a'', KOther, KMessage ''b'']
   in err = None \<and> map snd (tasks_out (sink t')) = [[''a'']] \<and> msgs t' = [''b'']"
proof -
  let ?klib = "\<lparr>newConsumer = (\<lambda>_. None), subscribe = (\<lambda>_. None), newProducer = (\<lambda>_. None)\<rparr>"
  let ?http = "\<lambda>_ _ _. Inl (GoError ''off'')"
  let ?t = "\<lparr>msgs = [], log = [], sink = demo_state\<rparr>"
  obtain g where "GetMessagePool demo_be (reg demo_state) ''out'' = (g, Inr demo_pool)" using demo_get by blast
  then obtain t' where run: "kafka_read (mem_coll (\<lambda>_ _. False)) (esb_submit demo_be mem_docker ?http) ?klib
      (NewKafkaMessagePool ''in'' ''t'') (Inr (plain_record ''in'' ''out'')) ?t
      [KMessage ''a'', KOther, KMessage ''b''] = (t', None)"
    by (simp add: kafka_read_def plain_submit_eq addTaskMessage_def mem_coll_def Let_def)
  have "tasks_out demo_state = []" by (simp add: demo_state_def)
  then obtain ts where "tasks_out (sink t') = ts" "list_all2 (write_of (rows mem_docs (reg demo_state)) ?http (plain_record ''in'' ''out'')) [[''a'']] ts"
    and "msgs t' = [''b'']"
    using kafka_forwards [OF _ _ run, of mem_docs map_of] demo_ok by auto
  with run show ?thesis by (auto simp: Let_def list_all2_Cons1 write_of_def EMPTY_MAPPER_def)
qed

text \<open>C12: Forwarding always returns.  On success one write task is queued, for the out-pool of the record,
  with the batch itself or, with a mapper, with the list its script printed for the batch, and every
  worker is back on the bench; on an error nothing is queued, and a worker is missing only when its
  inspection failed.\<close>
theorem forward_once:
  assumes "esb_ok be docs entry s" and "roomy (coder s)"
  shows "\<exists>t err. submitToESB be lib http rc s ms = Some (Return (t, err)) \<and>
    esb_ok be docs entry t \<and> roomy (coder t) \<and>
    (case err of
       Some e \<Rightarrow> tasks_out t = tasks_out s \<and> (bench (coder t) = bench (coder s) \<or>
         (\<exists>w. bench (coder s) = add_mset w (bench (coder t)) \<and>
           InspectWorkerContainer lib (dp (coder s)) (cId w) = Inl e))
     | None \<Rightarrow> \<exists>p ms'. GetName p = PoolNameOut rc \<and> tasks_out t = tasks_out s @ [(p, ms')] \<and>
         bench (coder t) = bench (coder s) \<and>
         (if MapperScriptName rc = EMPTY_MAPPER then ms' = ms
          else \<exists>w out. RunScript http w ''mapper'' (MapperScriptName rc) (NewMapperArgs ms) = Return (out, None) \<and>
            UnmarshalStrings out = Inr ms'))"
proof -
  obtain t err where run: "submitToESB be lib http rc s ms = Some (Return (t, err))" "esb_ok be docs entry t" "roomy (coder t)"
    and ok: "err = None \<Longrightarrow> bench (coder t) = bench (coder s) \<and>
      (\<exists>x. tasks_out t = tasks_out s @ [x] \<and> write_of (rows docs (reg s)) http rc ms x)"
    and bad: "err \<noteq> None \<Longrightarrow> tasks_out t = tasks_out s \<and> (bench (coder t) = bench (coder s) \<or>
      (\<exists>w e. bench (coder s) = add_mset w (bench (coder t)) \<and> err = Some e \<and>
        InspectWorkerContainer lib (dp (coder s)) (cId w) = Inl e))"
    by (rule submit_outcome [OF assms, of lib http rc ms]) blast
  have name: "GetName (fst x) = PoolNameOut rc" if "write_of (rows docs (reg s)) http rc ms x" for x
    using that createFromDatabase_name by (auto simp: write_of_def table_def dest: lookup_by_SomeD)
  show ?thesis
  proof (cases err)
    case (Some e)
    with run bad show ?thesis by auto
  next
    case None
    with ok obtain p ms' where x: "tasks_out t = tasks_out s @ [(p, ms')]" "write_of (rows docs (reg s)) http rc ms (p, ms')"
      "bench (coder t) = bench (coder s)" by (metis prod.collapse)
    have "if MapperScriptName rc = EMPTY_MAPPER then ms' = ms
        else \<exists>w out. RunScript http w ''mapper'' (MapperScriptName rc) (NewMapperArgs ms) = Return (out, None) \<and>
          UnmarshalStrings out = Inr ms'"
      using x(2) by (auto simp: write_of_def split: if_splits)
    with run name [OF x(2)] None x show ?thesis by auto
  qed
qed

lemma forward_once_witness:
  "let http = (\<lambda>_ _ _. Inr (200, Inr (''['' @ [CHR 0x22] @ ''X'' @ [CHR 0x22] @ '']'')));
       rc = \<lparr>PoolNameIn = ''in'', PoolNameOut = ''out'', MapperScriptName = ''m.py''\<rparr>
   in \<exists>t. submitToESB demo_be mem_docker http rc demo_state [''x''] = Some (Return (t, None)) \<and>
     esb_sent ''out'' t = [''X''] \<and> bench (coder t) = bench (coder demo_state)"
proof -
  let ?out = "''['' @ [CHR 0x22] @ ''X'' @ [CHR 0x22] @ '']''"
  let ?http = "\<lambda>_ _ _. Inr (200, Inr ?out)"
  let ?rc = "\<lparr>PoolNameIn = ''in'', PoolNameOut = ''out'', MapperScriptName = ''m.py''\<rparr>"
  obtain g where get: "GetMessagePool demo_be (reg demo_state) ''out'' = (g, Inr demo_pool)" using demo_get by blast
  have um: "UnmarshalStrings ?out = Inr [''X'']" by code_simp
  obtain t err where run: "submitToESB demo_be mem_docker ?http ?rc demo_state [''x''] = Some (Return (t, err))"
    and post: "case err of
       Some e \<Rightarrow> tasks_out t = tasks_out demo_state \<and> (bench (coder t) = bench (coder demo_state) \<or>
         (\<exists>w. bench (coder demo_state) = add_mset w (bench (coder t)) \<and>
           InspectWorkerContainer mem_docker (dp (coder demo_state)) (cId w) = Inl e))
     | None \<Rightarrow> \<exists>p ms'. GetName p = PoolNameOut ?rc \<and> tasks_out t = tasks_out demo_state @ [(p, ms')] \<and>
         bench (coder t) = bench (coder demo_state) \<and>
         (if MapperScriptName ?rc = EMPTY_MAPPER then ms' = [''x'']
          else \<exists>w out. RunScript ?http w ''mapper'' (MapperScriptName ?rc) (NewMapperArgs [''x'']) = Return (out, None) \<and>
            UnmarshalStrings out = Inr ms')"
    using forward_once [OF demo_ok, of mem_docker ?http ?rc "[''x'']"] by blast
  have "err = None"
    using run get um by (simp add: submitToESB_def runMapper_def BorrowWorker_def BorrowWorker_loop.simps
        demo_state_def borrowCheck_def mem_docker_def Return_worker_def send_workers_def RunScript_def
        EMPTY_MAPPER_def numeral_2_eq_2)
  with run post um show ?thesis
    by (auto simp: RunScript_def EMPTY_MAPPER_def esb_sent_def demo_state_def)
qed

end
