(* ===== verification/Http.thy ===== *)
theory Http
  imports Json
begin

text \<open>
  What the handlers of \<open>internal/server\<close> share: a request as \<open>gin\<close> hands it over, the replies a
  handler writes, \<open>gin.Recovery\<close>, and \<open>c.Bind\<close> with the structs and the validation tags of
  \<open>internal/server/protocol\<close>.  Bodies are JSON (\<open>Bind\<close> picks the decoder by the content type).
\<close>

section \<open>Requests and replies\<close>

text \<open>
  \<open>uri\<close> is \<open>RequestURI\<close>, query string included; \<open>url_path\<close> is the path alone, which the router
  matches.  \<open>query\<close> is \<open>c.Query\<close>: empty for an absent parameter.  \<open>bind_err\<close> is the text of the
  error with which the decoder or the validator refuses the body, if it does.
\<close>

record request =
  meth :: string
  uri :: string
  url_path :: string
  raw_query :: string
  req_headers :: "(string \<times> string list) list"
  query :: "string \<Rightarrow> string"
  req_body :: "go_error + string"
  bind_err :: string

text \<open>One call of \<open>c.JSON\<close>, or a bare status.  A handler may write more than once: the client sees
  the first status and all the bodies.\<close>

datatype reply = JSON nat json | Abort nat

fun status :: "reply \<Rightarrow> nat" where
  "status (JSON code _) = code"
| "status (Abort code) = code"

definition err_json :: "nat \<Rightarrow> string \<Rightarrow> reply" where
  "err_json code msg = JSON code (JObj [(''error'', JStr msg)])"

definition text_json :: "nat \<Rightarrow> string \<Rightarrow> reply" where
  "text_json code msg = JSON code (JStr msg)"

lemma status_json [simp]: "status (err_json code msg) = code" "status (text_json code msg) = code"
  by (simp_all add: err_json_def text_json_def)

text \<open>How a handler ends: it returns, it panics, or \<open>zlog.Fatal\<close> ends the process.\<close>

datatype handled = Replies "reply list" | Panics string | Exits

fun Recovery :: "'s \<times> handled \<Rightarrow> 's \<times> handled" where
  "Recovery (s, Panics m) = (s, Replies [Abort 500])"
| "Recovery (s, h) = (s, h)"

text \<open>For the specifications: the reply to an error of the database.  There is none while it is \<open>live\<close>.\<close>

definition failed :: "bool \<Rightarrow> reply list \<Rightarrow> bool" where
  "failed live rs \<longleftrightarrow> \<not> live \<and> (\<exists>x. rs = [err_json 500 x])"

text \<open>The directory of the mappers, in the root of the server's files.\<close>

definition FS_ESB_DIR :: string where "FS_ESB_DIR = ''mapper''"

section \<open>Binding\<close>

datatype tag = Required | StartsWith string | MinLen nat | OneOf "string list"

text \<open>\<open>min\<close> counts runes: the bytes that do not continue a UTF-8 sequence.\<close>

definition rune_count :: "string \<Rightarrow> nat" where
  "rune_count s = length (filter (\<lambda>c. (of_char c :: nat) < 128 \<or> 192 \<le> (of_char c :: nat)) s)"

fun tag_ok :: "string \<Rightarrow> tag \<Rightarrow> bool" where
  "tag_ok s Required \<longleftrightarrow> s \<noteq> ''''"
| "tag_ok s (StartsWith p) \<longleftrightarrow> HasPrefix s p"
| "tag_ok s (MinLen n) \<longleftrightarrow> n \<le> rune_count s"
| "tag_ok s (OneOf ss) \<longleftrightarrow> s \<in> set ss"

definition tags_ok :: "string \<Rightarrow> tag list \<Rightarrow> bool" where
  "tags_ok s ts \<longleftrightarrow> list_all (tag_ok s) ts"

text \<open>The decoder reads one value and ignores what follows it.\<close>

definition Bind :: "'a field list \<Rightarrow> 'a \<Rightarrow> ('a \<Rightarrow> bool) \<Rightarrow> request \<Rightarrow> go_error + 'a" where
  "Bind fs zero valid req = (case req_body req of
     Inl err \<Rightarrow> Inl err
   | Inr b \<Rightarrow> (case parse_val (2 * length b) b of
       None \<Rightarrow> Inl (GoError (bind_err req))
     | Some (j, rest) \<Rightarrow> (case dec_struct fs zero j of
         None \<Rightarrow> Inl (GoError (bind_err req))
       | Some x \<Rightarrow> if valid x then Inr x else Inl (GoError (bind_err req)))))"

lemma Bind_valid: "Bind fs zero valid req = Inr x \<Longrightarrow> valid x"
  by (auto simp: Bind_def split: sum.splits option.splits prod.splits if_splits)

text \<open>A body that is the JSON of a value binds to what the fields read from it.\<close>

lemma Bind_print:
  assumes "req_body req = Inr (json_print j)" and "json_ok j" and "dec_struct fs zero j = Some x" and "valid x"
  shows "Bind fs zero valid req = Inr x"
  using assms parse_val_print [of j "[]" "2 * length (json_print j)"] by (simp add: Bind_def)

section \<open>The endpoints of the protocol\<close>

record StaticEndpoint =
  se_path :: string
  se_response :: string

definition static_fields :: "StaticEndpoint field list" where
  "static_fields = [
     (''path'', \<lambda>x v. map_option (\<lambda>s. x\<lparr>se_path := s\<rparr>) (dec_string (se_path x) v)),
     (''expected_response'', \<lambda>x v. map_option (\<lambda>s. x\<lparr>se_response := s\<rparr>) (dec_string (se_response x) v))]"

definition static_valid :: "StaticEndpoint \<Rightarrow> bool" where
  "static_valid x \<longleftrightarrow> tags_ok (se_path x) [Required, StartsWith ''/'', MinLen 2] \<and>
     tags_ok (se_response x) [Required, MinLen 1]"

definition BindStatic :: "request \<Rightarrow> go_error + StaticEndpoint" where
  "BindStatic = Bind static_fields \<lparr>se_path = '''', se_response = ''''\<rparr> static_valid"

record ProxyEndpoint =
  px_path :: string
  px_url :: string

definition proxy_fields :: "ProxyEndpoint field list" where
  "proxy_fields = [
     (''path'', \<lambda>x v. map_option (\<lambda>s. x\<lparr>px_path := s\<rparr>) (dec_string (px_path x) v)),
     (''proxy_url'', \<lambda>x v. map_option (\<lambda>s. x\<lparr>px_url := s\<rparr>) (dec_string (px_url x) v))]"

definition proxy_valid :: "ProxyEndpoint \<Rightarrow> bool" where
  "proxy_valid x \<longleftrightarrow> tags_ok (px_path x) [Required, StartsWith ''/'', MinLen 2] \<and>
     tags_ok (px_url x) [Required, MinLen 1]"

definition BindProxy :: "request \<Rightarrow> go_error + ProxyEndpoint" where
  "BindProxy = Bind proxy_fields \<lparr>px_path = '''', px_url = ''''\<rparr> proxy_valid"

record DynamicEndpoint =
  dy_path :: string
  dy_code :: string

definition dynamic_fields :: "DynamicEndpoint field list" where
  "dynamic_fields = [
     (''path'', \<lambda>x v. map_option (\<lambda>s. x\<lparr>dy_path := s\<rparr>) (dec_string (dy_path x) v)),
     (''code'', \<lambda>x v. map_option (\<lambda>s. x\<lparr>dy_code := s\<rparr>) (dec_string (dy_code x) v))]"

definition dynamic_valid :: "DynamicEndpoint \<Rightarrow> bool" where
  "dynamic_valid x \<longleftrightarrow> tags_ok (dy_path x) [Required, StartsWith ''/'', MinLen 2] \<and>
     tags_ok (dy_code x) [Required, StartsWith ''def func'']"

definition BindDynamic :: "request \<Rightarrow> go_error + DynamicEndpoint" where
  "BindDynamic = Bind dynamic_fields \<lparr>dy_path = '''', dy_code = ''''\<rparr> dynamic_valid"

record EsbRequest =
  er_in :: string
  er_out :: string
  er_code :: string

definition esbrec_fields :: "EsbRequest field list" where
  "esbrec_fields = [
     (''pool_name_in'', \<lambda>x v. map_option (\<lambda>s. x\<lparr>er_in := s\<rparr>) (dec_string (er_in x) v)),
     (''pool_name_out'', \<lambda>x v. map_option (\<lambda>s. x\<lparr>er_out := s\<rparr>) (dec_string (er_out x) v)),
     (''code'', \<lambda>x v. map_option (\<lambda>s. x\<lparr>er_code := s\<rparr>) (dec_string (er_code x) v))]"

definition BindEsb :: "request \<Rightarrow> go_error + EsbRequest" where
  "BindEsb = Bind esbrec_fields \<lparr>er_in = '''', er_out = '''', er_code = ''''\<rparr>
     (\<lambda>x. tags_ok (er_in x) [Required] \<and> tags_ok (er_out x) [Required])"

record PoolRequest =
  pr_name :: string
  pr_queue :: string
  pr_topic :: string
  pr_broker :: string

definition poolreq_fields :: "PoolRequest field list" where
  "poolreq_fields = [
     (''pool_name'', \<lambda>x v. map_option (\<lambda>s. x\<lparr>pr_name := s\<rparr>) (dec_string (pr_name x) v)),
     (''queue_name'', \<lambda>x v. map_option (\<lambda>s. x\<lparr>pr_queue := s\<rparr>) (dec_string (pr_queue x) v)),
     (''topic_name'', \<lambda>x v. map_option (\<lambda>s. x\<lparr>pr_topic := s\<rparr>) (dec_string (pr_topic x) v)),
     (''broker'', \<lambda>x v. map_option (\<lambda>s. x\<lparr>pr_broker := s\<rparr>) (dec_string (pr_broker x) v))]"

definition poolreq_valid :: "PoolRequest \<Rightarrow> bool" where
  "poolreq_valid x \<longleftrightarrow> tags_ok (pr_name x) [Required, MinLen 1] \<and>
     tags_ok (pr_broker x) [Required, OneOf [''rabbitmq'', ''kafka'']]"

definition BindPool :: "request \<Rightarrow> go_error + PoolRequest" where
  "BindPool = Bind poolreq_fields \<lparr>pr_name = '''', pr_queue = '''', pr_topic = '''', pr_broker = ''''\<rparr> poolreq_valid"

text \<open>A nil slice of messages is refused, an empty one is not.\<close>

record BrokerTask =
  bt_pool :: string
  bt_msgs :: "string list option"

fun dec_nilslice :: "json \<Rightarrow> string list option option" where
  "dec_nilslice JNull = Some None"
| "dec_nilslice (JArr js) = map_option Some (dec_elems js)"
| "dec_nilslice _ = None"

definition task_fields :: "BrokerTask field list" where
  "task_fields = [
     (''pool_name'', \<lambda>x v. map_option (\<lambda>s. x\<lparr>bt_pool := s\<rparr>) (dec_string (bt_pool x) v)),
     (''messages'', \<lambda>x v. map_option (\<lambda>s. x\<lparr>bt_msgs := s\<rparr>) (dec_nilslice v))]"

definition BindTask :: "request \<Rightarrow> go_error + BrokerTask" where
  "BindTask = Bind task_fields \<lparr>bt_pool = '''', bt_msgs = None\<rparr>
     (\<lambda>x. tags_ok (bt_pool x) [Required] \<and> bt_msgs x \<noteq> None)"

lemmas bind_defs = BindStatic_def BindProxy_def BindDynamic_def BindEsb_def BindPool_def BindTask_def

end
