(* ===== verification/RoutesApi.thy ===== *)
theory RoutesApi
  imports Endpoints Files CodeWrappers Http
begin

text \<open>
  The handlers that configure mock endpoints: \<open>static_routes_api.go\<close>, \<open>proxy_routes_api.go\<close> and
  \<open>dynamic_routes_api.go\<close> of \<open>internal/server\<close>, and their place in the router.  The state is the
  endpoint store and the disk the scripts lie on.
\<close>

record ('c, 'h) routes_srv =
  rts :: "('c, 'h) routes"
  disk :: fsys

definition FS_DYN_HANDLE_DIR :: string where "FS_DYN_HANDLE_DIR = ''dyn_handle''"


type_synonym ('c, 'h) routes_step = "('c, 'h) routes_srv \<times> handled"

section \<open>Static routes\<close>

definition static_list :: "('c, 'h, Route) backend \<Rightarrow> ('c, 'h) routes_srv \<Rightarrow> ('c, 'h) routes_step" where
  "static_list be s = (s, Replies [case ListAllStaticEndpointPaths be (rts s) of
     Inl err \<Rightarrow> err_json 500 (Error err)
   | Inr paths \<Rightarrow> JSON 200 (JObj [(''endpoints'', JArr (map JStr paths))])])"

definition static_expected_response :: "('c, 'h, Route) backend \<Rightarrow> ('c, 'h) routes_srv \<Rightarrow> request
    \<Rightarrow> ('c, 'h) routes_step" where
  "static_expected_response be s req =
     (let path = query req ''path'' in
      if path = '''' then (s, Replies [err_json 400 ''specify path param''])
      else
        let (r, res) = GetStaticEndpointResponse be (rts s) path; s = s\<lparr>rts := r\<rparr> in
        (s, Replies [case res of
           Inr expectedResponse \<Rightarrow> text_json 200 expectedResponse
         | Inl err \<Rightarrow> if err = ErrNoSuchPath \<or> err = ErrBadRouteType
             then err_json 404 ''Received path was not created before''
             else err_json 500 (Error err)]))"

definition static_post :: "('c, 'h, Route) backend \<Rightarrow> ('c, 'h) routes_srv \<Rightarrow> request \<Rightarrow> ('c, 'h) routes_step" where
  "static_post be s req = (case BindStatic req of
     Inl err \<Rightarrow> (s, Replies [err_json 400 (Error err)])
   | Inr ep \<Rightarrow>
       let (r, err) = AddStaticEndpoint be (rts s) (se_path ep) (se_response ep); s = s\<lparr>rts := r\<rparr> in
       (s, Replies [case err of
          None \<Rightarrow> text_json 200 ''Static endpoint successfully added!''
        | Some e \<Rightarrow> if e = ErrDuplicateKey then err_json 409 ''The same endpoint already exists''
            else err_json 500 (Error e)]))"

definition static_put :: "('c, 'h, Route) backend \<Rightarrow> ('c, 'h) routes_srv \<Rightarrow> request \<Rightarrow> ('c, 'h) routes_step" where
  "static_put be s req = (case BindStatic req of
     Inl err \<Rightarrow> (s, Replies [err_json 400 (Error err)])
   | Inr ep \<Rightarrow>
       let (r, res) = UpdateStaticEndpoint be (rts s) (se_path ep) (se_response ep); s = s\<lparr>rts := r\<rparr> in
       (s, case res of
          Panic m \<Rightarrow> Panics m
        | Return err \<Rightarrow> Replies [case err of
            None \<Rightarrow> text_json 204 ''Static endpoint successfully updated!''
          | Some e \<Rightarrow> if e = ErrNoSuchPath then err_json 404 ''Received path was not created before''
              else err_json 500 (Error e)]))"

definition static_delete :: "('c, 'h, Route) backend \<Rightarrow> ('c, 'h) routes_srv \<Rightarrow> request \<Rightarrow> ('c, 'h) routes_step" where
  "static_delete be s req =
     (let path = query req ''path'' in
      if path = '''' then (s, Replies [err_json 400 ''specify path param''])
      else
        let (r, err) = RemoveStaticEndpoint be (rts s) path; s = s\<lparr>rts := r\<rparr> in
        (s, Replies [case err of
           None \<Rightarrow> text_json 204 ''Static endpoint successfully removed!''
         | Some e \<Rightarrow> if e = ErrNoSuchPath then err_json 404 ''Received path was not created before''
             else err_json 500 (Error e)]))"

section \<open>Proxy routes\<close>

text \<open>\<open>parse_uri\<close> is \<open>url.ParseRequestURI\<close>: the error it refuses a text with.\<close>

definition proxy_list :: "('c, 'h, Route) backend \<Rightarrow> ('c, 'h) routes_srv \<Rightarrow> ('c, 'h) routes_step" where
  "proxy_list be s = (s, Replies [case ListAllProxyEndpointPaths be (rts s) of
     Inl err \<Rightarrow> err_json 500 (Error err)
   | Inr paths \<Rightarrow> JSON 200 (JObj [(''endpoints'', JArr (map JStr paths))])])"

definition proxy_url :: "('c, 'h, Route) backend \<Rightarrow> ('c, 'h) routes_srv \<Rightarrow> request \<Rightarrow> ('c, 'h) routes_step" where
  "proxy_url be s req =
     (let path = query req ''path'' in
      if path = '''' then (s, Replies [err_json 400 ''specify path param''])
      else
        let (r, res) = GetProxyEndpointProxyUrl be (rts s) path; s = s\<lparr>rts := r\<rparr> in
        (s, Replies [case res of
           Inr proxyUrl \<Rightarrow> text_json 200 proxyUrl
         | Inl err \<Rightarrow> if err = ErrNoSuchPath \<or> err = ErrBadRouteType
             then err_json 404 ''Received path was not created before''
             else err_json 500 (Error err)]))"

definition proxy_post :: "('c, 'h, Route) backend \<Rightarrow> (string \<Rightarrow> go_error option) \<Rightarrow> ('c, 'h) routes_srv \<Rightarrow> request
    \<Rightarrow> ('c, 'h) routes_step" where
  "proxy_post be parse_uri s req = (case BindProxy req of
     Inl err \<Rightarrow> (s, Replies [err_json 400 (Error err)])
   | Inr ep \<Rightarrow> (case parse_uri (px_url ep) of
       Some err \<Rightarrow> (s, Replies [err_json 400 (Error err)])
     | None \<Rightarrow>
         let (r, err) = AddProxyEndpoint be (rts s) (px_path ep) (px_url ep); s = s\<lparr>rts := r\<rparr> in
         (s, Replies [case err of
            None \<Rightarrow> text_json 200 ''Proxy endpoint successfully added!''
          | Some e \<Rightarrow> if e = ErrDuplicateKey then err_json 409 ''The same endpoint already exists''
              else err_json 500 (Error e)])))"

definition proxy_put :: "('c, 'h, Route) backend \<Rightarrow> (string \<Rightarrow> go_error option) \<Rightarrow> ('c, 'h) routes_srv \<Rightarrow> request
    \<Rightarrow> ('c, 'h) routes_step" where
  "proxy_put be parse_uri s req = (case BindProxy req of
     Inl err \<Rightarrow> (s, Replies [err_json 400 (Error err)])
   | Inr ep \<Rightarrow> (case parse_uri (px_url ep) of
       Some err \<Rightarrow> (s, Replies [err_json 400 (Error err)])
     | None \<Rightarrow>
         let (r, res) = UpdateProxyEndpoint be (rts s) (px_path ep) (px_url ep); s = s\<lparr>rts := r\<rparr> in
         (s, case res of
            Panic m \<Rightarrow> Panics m
          | Return err \<Rightarrow> Replies [case err of
              None \<Rightarrow> text_json 204 ''Proxy endpoint successfully updated!''
            | Some e \<Rightarrow> if e = ErrNoSuchPath then err_json 404 ''Received path was not created before''
                else err_json 500 (Error e)])))"

definition proxy_delete :: "('c, 'h, Route) backend \<Rightarrow> ('c, 'h) routes_srv \<Rightarrow> request \<Rightarrow> ('c, 'h) routes_step" where
  "proxy_delete be s req =
     (let path = query req ''path'' in
      if path = '''' then (s, Replies [err_json 400 ''specify path param''])
      else
        let (r, err) = RemoveProxyEndpoint be (rts s) path; s = s\<lparr>rts := r\<rparr> in
        (s, Replies [case err of
           None \<Rightarrow> text_json 204 ''Proxy endpoint successfully removed!''
         | Some e \<Rightarrow> if e = ErrNoSuchPath then err_json 404 ''Received path was not created before''
             else err_json 500 (Error e)]))"

section \<open>Dynamic routes\<close>

definition dynamic_list :: "('c, 'h, Route) backend \<Rightarrow> ('c, 'h) routes_srv \<Rightarrow> ('c, 'h) routes_step" where
  "dynamic_list be s = (s, Replies [case ListAllDynamicEndpointPaths be (rts s) of
     Inl err \<Rightarrow> err_json 500 (Error err)
   | Inr paths \<Rightarrow> JSON 200 (JObj [(''endpoints'', JArr (map JStr paths))])])"

definition dynamic_code :: "('c, 'h, Route) backend \<Rightarrow> os \<Rightarrow> FileStorage \<Rightarrow> ('c, 'h) routes_srv \<Rightarrow> request
    \<Rightarrow> ('c, 'h) routes_step" where
  "dynamic_code be sys fs s req =
     (let path = query req ''path'' in
      if path = '''' then (s, Replies [err_json 400 ''specify path param''])
      else
        let (r, res) = GetDynamicEndpointScriptName be (rts s) path; s = s\<lparr>rts := r\<rparr> in
        case res of
          Inl err \<Rightarrow> (s, Replies [if err = ErrNoSuchPath \<or> err = ErrBadRouteType
             then err_json 404 ''Received path was not created before'' else err_json 500 (Error err)])
        | Inr scriptName \<Rightarrow> (case fs_Read sys fs (disk s) FS_DYN_HANDLE_DIR scriptName of
            Inl err \<Rightarrow> (s, Replies [err_json 500 (Error err)])
          | Inr code \<Rightarrow> (case UnwrapCodeForDynHandle code of
              Panic m \<Rightarrow> (s, Panics m)
            | Return code \<Rightarrow> (s, Replies [text_json 200 code]))))"

text \<open>\<open>now\<close> is the time in seconds as \<open>GenUniqueFilename\<close> formats it.\<close>

definition dynamic_post :: "('c, 'h, Route) backend \<Rightarrow> os \<Rightarrow> FileStorage \<Rightarrow> string \<Rightarrow> ('c, 'h) routes_srv \<Rightarrow> request
    \<Rightarrow> ('c, 'h) routes_step" where
  "dynamic_post be sys fs now s req = (case BindDynamic req of
     Inl err \<Rightarrow> (s, Replies [err_json 400 (Error err)])
   | Inr ep \<Rightarrow>
       let scriptName = GenUniqueFilename now ''py'';
           (d, err) = fs_Write sys fs (disk s) FS_DYN_HANDLE_DIR scriptName (WrapCodeForDynHandle (dy_code ep));
           s = s\<lparr>disk := d\<rparr> in
       case err of
         Some err \<Rightarrow> (s, Replies [err_json 500 (Error err)])
       | None \<Rightarrow>
           let (r, err) = AddDynamicEndpoint be (rts s) (dy_path ep) scriptName; s = s\<lparr>rts := r\<rparr> in
           (s, Replies [case err of
              None \<Rightarrow> text_json 200 ''Dynamic endpoint successfully added''
            | Some e \<Rightarrow> if e = ErrDuplicateKey then err_json 409 ''The same endpoint already exists''
                else err_json 500 (Error e)]))"

text \<open>The success is written before the file, so a failing write adds a second reply.\<close>

definition dynamic_put :: "('c, 'h, Route) backend \<Rightarrow> os \<Rightarrow> FileStorage \<Rightarrow> ('c, 'h) routes_srv \<Rightarrow> request
    \<Rightarrow> ('c, 'h) routes_step" where
  "dynamic_put be sys fs s req = (case BindDynamic req of
     Inl err \<Rightarrow> (s, Replies [err_json 400 (Error err)])
   | Inr ep \<Rightarrow>
       let (r, res) = GetDynamicEndpointScriptName be (rts s) (dy_path ep); s = s\<lparr>rts := r\<rparr> in
       case res of
         Inl err \<Rightarrow> (s, Replies [
           if err = ErrNoSuchPath then err_json 404 ''Received path was not created before''
           else if err = ErrBadRouteType then err_json 404 ''Received path has different route type''
           else err_json 500 (Error err)])
       | Inr scriptName \<Rightarrow>
           let done = text_json 204 ''Dynamic endpoint successfully updated'';
               (d, err) = fs_Write sys fs (disk s) FS_DYN_HANDLE_DIR scriptName (WrapCodeForDynHandle (dy_code ep))
           in (s\<lparr>disk := d\<rparr>, Replies (case err of
                Some err \<Rightarrow> [done, err_json 500 (Error err)]
              | None \<Rightarrow> [done])))"

definition dynamic_delete :: "('c, 'h, Route) backend \<Rightarrow> ('c, 'h) routes_srv \<Rightarrow> request \<Rightarrow> ('c, 'h) routes_step" where
  "dynamic_delete be s req =
     (let path = query req ''path'' in
      if path = '''' then (s, Replies [err_json 400 ''specify path param''])
      else
        let (r, err) = RemoveDynamicEndpoint be (rts s) path; s = s\<lparr>rts := r\<rparr> in
        (s, Replies [case err of
           Some err \<Rightarrow> err_json 500 (Error err)
         | None \<Rightarrow> text_json 204 ''Dynamic endpoint successfully removed'']))"

section \<open>The router\<close>

text \<open>The handler registered for a method and a path under \<open>/api/routes\<close>, if any.\<close>

definition routes_handler :: "('c, 'h, Route) backend \<Rightarrow> (string \<Rightarrow> go_error option) \<Rightarrow> os \<Rightarrow> FileStorage \<Rightarrow> string
    \<Rightarrow> ('c, 'h) routes_srv \<Rightarrow> request \<Rightarrow> ('c, 'h) routes_step option" where
  "routes_handler be parse_uri sys fs now s req =
     (if url_path req = ''/api/routes/static'' then
        (if meth req = ''GET'' then Some (static_list be s)
         else if meth req = ''POST'' then Some (static_post be s req)
         else if meth req = ''PUT'' then Some (static_put be s req)
         else if meth req = ''DELETE'' then Some (static_delete be s req) else None)
      else if url_path req = ''/api/routes/static/expected_response'' then
        (if meth req = ''GET'' then Some (static_expected_response be s req) else None)
      else if url_path req = ''/api/routes/dynamic'' then
        (if meth req = ''GET'' then Some (dynamic_list be s)
         else if meth req = ''POST'' then Some (dynamic_post be sys fs now s req)
         else if meth req = ''PUT'' then Some (dynamic_put be sys fs s req)
         else if meth req = ''DELETE'' then Some (dynamic_delete be s req) else None)
      else if url_path req = ''/api/routes/dynamic/code'' then
        (if meth req = ''GET'' then Some (dynamic_code be sys fs s req) else None)
      else if url_path req = ''/api/routes/proxy'' then
        (if meth req = ''GET'' then Some (proxy_list be s)
         else if meth req = ''POST'' then Some (proxy_post be parse_uri s req)
         else if meth req = ''PUT'' then Some (proxy_put be parse_uri s req)
         else if meth req = ''DELETE'' then Some (proxy_delete be s req) else None)
      else if url_path req = ''/api/routes/proxy/proxy_url'' then
        (if meth req = ''GET'' then Some (proxy_url be s req) else None)
      else None)"

text \<open>\<open>gin.Recovery\<close> is around every handler.\<close>

definition routes_api :: "('c, 'h, Route) backend \<Rightarrow> (string \<Rightarrow> go_error option) \<Rightarrow> os \<Rightarrow> FileStorage \<Rightarrow> string
    \<Rightarrow> ('c, 'h) routes_srv \<Rightarrow> request \<Rightarrow> ('c, 'h) routes_step option" where
  "routes_api be parse_uri sys fs now s req = map_option Recovery (routes_handler be parse_uri sys fs now s req)"

section \<open>What the API promises\<close>

text \<open>
  The command a request stands for: a request that is refused (a body that does not bind, an empty
  parameter, a URL that does not parse) is \<open>Refuse\<close> with the text it is refused with.
\<close>

datatype api_cmd = Refuse string | ListOf string | Show string string | Code string
  | Create string endpoint | Deploy string string string | Replace string endpoint | Rewrite string string
  | Discard string

definition path_cmd :: "(string \<Rightarrow> api_cmd) \<Rightarrow> request \<Rightarrow> api_cmd" where
  "path_cmd f req = (if query req ''path'' = '''' then Refuse ''specify path param'' else f (query req ''path''))"

definition bound :: "('a \<Rightarrow> api_cmd) \<Rightarrow> go_error + 'a \<Rightarrow> api_cmd" where
  "bound f x = (case x of Inl err \<Rightarrow> Refuse (Error err) | Inr ep \<Rightarrow> f ep)"

definition parsed :: "(string \<Rightarrow> go_error option) \<Rightarrow> (string \<Rightarrow> endpoint \<Rightarrow> api_cmd) \<Rightarrow> ProxyEndpoint \<Rightarrow> api_cmd" where
  "parsed parse_uri f ep = (case parse_uri (px_url ep) of
     Some err \<Rightarrow> Refuse (Error err) | None \<Rightarrow> f (px_path ep) (Proxy (px_url ep)))"

definition cmd_of :: "(string \<Rightarrow> go_error option) \<Rightarrow> string \<Rightarrow> request \<Rightarrow> api_cmd" where
  "cmd_of parse_uri now req =
     (if url_path req = ''/api/routes/static/expected_response'' then path_cmd (Show STATIC_ENDPOINT_TYPE) req
      else if url_path req = ''/api/routes/proxy/proxy_url'' then path_cmd (Show PROXY_ENDPOINT_TYPE) req
      else if url_path req = ''/api/routes/dynamic/code'' then path_cmd Code req
      else if meth req = ''DELETE'' then path_cmd Discard req
      else if url_path req = ''/api/routes/static'' then
        (if meth req = ''GET'' then ListOf STATIC_ENDPOINT_TYPE
         else if meth req = ''POST'' then bound (\<lambda>ep. Create (se_path ep) (Static (se_response ep))) (BindStatic req)
         else bound (\<lambda>ep. Replace (se_path ep) (Static (se_response ep))) (BindStatic req))
      else if url_path req = ''/api/routes/proxy'' then
        (if meth req = ''GET'' then ListOf PROXY_ENDPOINT_TYPE
         else if meth req = ''POST'' then bound (parsed parse_uri Create) (BindProxy req)
         else bound (parsed parse_uri Replace) (BindProxy req))
      else
        (if meth req = ''GET'' then ListOf DYNAMIC_ENDPOINT_TYPE
         else if meth req = ''POST''
           then bound (\<lambda>ep. Deploy (dy_path ep) (GenUniqueFilename now ''py'') (dy_code ep)) (BindDynamic req)
         else bound (\<lambda>ep. Rewrite (dy_path ep) (dy_code ep)) (BindDynamic req)))"

text \<open>
  The abstract state is the map of stored endpoints, the map of those a read shows, and the disk.
\<close>

type_synonym api_view = "(string \<Rightarrow> endpoint option) \<times> (string \<Rightarrow> endpoint option) \<times> fsys"

definition created :: "bool \<Rightarrow> string \<Rightarrow> endpoint \<Rightarrow> api_view \<Rightarrow> reply list \<Rightarrow> api_view \<Rightarrow> bool" where
  "created live p e a rs a' \<longleftrightarrow> (case (a, a') of ((m, v, d), (m', v', d')) \<Rightarrow> d' = d \<and>
     (if m p = None \<and> status (hd rs) = 200
      then (\<exists>x. rs = [text_json 200 x]) \<and> m' = m(p \<mapsto> e) \<and> evicts m' (v(p \<mapsto> e)) v'
      else m' = m \<and> v' = v \<and> ((\<exists>x. rs = [err_json 409 x]) \<and> m p \<noteq> None \<or> failed live rs)))"

definition read_reply :: "bool \<Rightarrow> string \<Rightarrow> endpoint option \<Rightarrow> reply list \<Rightarrow> bool" where
  "read_reply live t x rs \<longleftrightarrow> (\<exists>e. x = Some e \<and> Type (route_of '''' e) = t \<and> rs = [text_json 200 (text_of e)]) \<or>
     (\<not> has_type t x \<and> (\<exists>y. rs = [err_json 404 y])) \<or> failed live rs"

fun api_effect :: "bool \<Rightarrow> os \<Rightarrow> FileStorage \<Rightarrow> api_view \<Rightarrow> api_cmd \<Rightarrow> reply list \<Rightarrow> api_view \<Rightarrow> bool" where
  "api_effect live sys fs a (Refuse msg) rs a' \<longleftrightarrow> a' = a \<and> rs = [err_json 400 msg]"
| "api_effect live sys fs (m, v, d) (ListOf t) rs a' \<longleftrightarrow> a' = (m, v, d) \<and>
     ((\<exists>ps. rs = [JSON 200 (JObj [(''endpoints'', JArr (map JStr ps))])] \<and> distinct ps \<and>
         set ps = {p. has_type t (m p)}) \<or> failed live rs)"
| "api_effect live sys fs (m, v, d) (Show t p) rs (m', v', d') \<longleftrightarrow> m' = m \<and> evicts m v v' \<and> d' = d \<and>
     read_reply live t (v p) rs"
| "api_effect live sys fs (m, v, d) (Code p) rs (m', v', d') \<longleftrightarrow> m' = m \<and> evicts m v v' \<and> d' = d \<and>
     (case m p of
        Some (Dynamic n) \<Rightarrow> failed live rs \<or> (case fs_Read sys fs d FS_DYN_HANDLE_DIR n of
          Inl err \<Rightarrow> rs = [err_json 500 (Error err)]
        | Inr file \<Rightarrow> (case UnwrapCodeForDynHandle file of
            Panic _ \<Rightarrow> rs = [Abort 500] | Return code \<Rightarrow> rs = [text_json 200 code]))
      | _ \<Rightarrow> (\<exists>y. rs = [err_json 404 y]) \<or> failed live rs)"
| "api_effect live sys fs a (Create p e) rs a' \<longleftrightarrow> created live p e a rs a'"
| "api_effect live sys fs (m, v, d) (Deploy p n code) rs a' \<longleftrightarrow>
     (case fs_Write sys fs d FS_DYN_HANDLE_DIR n (WrapCodeForDynHandle code) of
        (d1, Some err) \<Rightarrow> a' = (m, v, d1) \<and> rs = [err_json 500 (Error err)]
      | (d1, None) \<Rightarrow> created live p (Dynamic n) (m, v, d1) rs a')"
| "api_effect live sys fs (m, v, d) (Replace p e) rs (m', v', d') \<longleftrightarrow> d' = d \<and>
     (if status (hd rs) = 204
      then (\<exists>x. rs = [text_json 204 x]) \<and> (\<exists>old. m p = Some old \<and> same_kind old e \<and> m' = m(p \<mapsto> stored old e)) \<and>
        v' p = Some e \<and> evicts m' (v(p \<mapsto> e)) v'
      else m' = m \<and> v' = v \<and> ((\<exists>x. rs = [err_json 404 x]) \<and> \<not> (\<exists>old. m p = Some old \<and> same_kind old e) \<or>
        failed live rs \<or> \<not> live \<and> rs = [Abort 500]))"
| "api_effect live sys fs (m, v, d) (Rewrite p code) rs (m', v', d') \<longleftrightarrow> m' = m \<and> evicts m v v' \<and>
     (if status (hd rs) = 204
      then (\<exists>n x. m p = Some (Dynamic n) \<and>
        (case fs_Write sys fs d FS_DYN_HANDLE_DIR n (WrapCodeForDynHandle code) of (d1, err) \<Rightarrow> d' = d1 \<and>
          rs = text_json 204 x # (case err of None \<Rightarrow> [] | Some e \<Rightarrow> [err_json 500 (Error e)])))
      else d' = d \<and> ((\<exists>y. rs = [err_json 404 y]) \<and> \<not> (\<exists>n. m p = Some (Dynamic n)) \<or> failed live rs))"
| "api_effect live sys fs (m, v, d) (Discard p) rs (m', v', d') \<longleftrightarrow> d' = d \<and>
     (if status (hd rs) = 204
      then (\<exists>x. rs = [text_json 204 x]) \<and> m' = m(p := None) \<and> evicts m' (v(p := None)) v'
      else m' = m \<and> v' = v \<and> failed live rs)"

definition api_view :: "('c \<Rightarrow> Route list) \<Rightarrow> ('h \<Rightarrow> string \<Rightarrow> Route option) \<Rightarrow> ('c, 'h) routes_srv \<Rightarrow> api_view" where
  "api_view docs entry s = (endpoints docs (rts s), shown docs entry (rts s), disk s)"

fun told_code :: "handled \<Rightarrow> nat" where
  "told_code (Replies (r # rs)) = status r"
| "told_code _ = 0"

lemma Add_route_of:
  "AddStaticEndpoint be r p x = addRoute be r (route_of p (Static x))"
  "AddProxyEndpoint be r p x = addRoute be r (route_of p (Proxy x))"
  "AddDynamicEndpoint be r p x = addRoute be r (route_of p (Dynamic x))"
  by (simp_all add: endpoint_calls)

lemma Update_route_of:
  "UpdateStaticEndpoint be r p x = updateRoute be r (route_of p (Static x))"
  "UpdateProxyEndpoint be r p x = updateRoute be r (route_of p (Proxy x))"
  by (simp_all add: endpoint_calls)

lemma Remove_route:
  "RemoveStaticEndpoint be r p = removeRoute be r p" "RemoveProxyEndpoint be r p = removeRoute be r p"
  "RemoveDynamicEndpoint be r p = removeRoute be r p"
  by (simp_all add: endpoint_calls)

text \<open>The relation every handler has to establish.\<close>

definition refines :: "('c, 'h, Route) backend \<Rightarrow> ('c \<Rightarrow> Route list) \<Rightarrow> ('h \<Rightarrow> string \<Rightarrow> Route option) \<Rightarrow> os
    \<Rightarrow> FileStorage \<Rightarrow> api_cmd \<Rightarrow> ('c, 'h) routes_srv \<Rightarrow> ('c, 'h) routes_srv \<times> handled \<Rightarrow> bool" where
  "refines be docs entry sys fs cmd s out \<longleftrightarrow> (case Recovery out of (s', h) \<Rightarrow>
     endpoints_inv be docs entry (rts s') \<and> (\<exists>r rs. h = Replies (r # rs) \<and>
     api_effect (backend_live be (same_key Path) docs) sys fs (api_view docs entry s) cmd (r # rs) (api_view docs entry s')))"

lemma refines_reply:
  "refines be docs entry sys fs cmd s (s', Replies (r # rs)) \<longleftrightarrow> endpoints_inv be docs entry (rts s') \<and>
     api_effect (backend_live be (same_key Path) docs) sys fs (api_view docs entry s) cmd (r # rs) (api_view docs entry s')"
  by (simp add: refines_def)

lemma refines_panic:
  "refines be docs entry sys fs cmd s (s', Panics m) \<longleftrightarrow> endpoints_inv be docs entry (rts s') \<and>
     api_effect (backend_live be (same_key Path) docs) sys fs (api_view docs entry s) cmd [Abort 500] (api_view docs entry s')"
  by (simp add: refines_def)

lemma refuse_refines:
  "endpoints_inv be docs entry (rts s) \<Longrightarrow> refines be docs entry sys fs (Refuse msg) s (s, Replies [err_json 400 msg])"
  by (simp add: refines_reply)

lemma api_live: "endpoints_inv be docs entry s \<Longrightarrow> backend_live be (same_key Path) docs \<Longrightarrow> endpoints_live be docs entry s"
  by (simp add: endpoints_live_def)

lemma create_refines:
  assumes inv: "endpoints_inv be docs entry (rts s)" and run: "addRoute be (rts s) (route_of p e) = (r, err)"
  shows "endpoints_inv be docs entry r"
    and "created (backend_live be (same_key Path) docs) p e (endpoints docs (rts s), shown docs entry (rts s), d)
      [case err of None \<Rightarrow> text_json 200 x
       | Some e \<Rightarrow> if e = ErrDuplicateKey then err_json 409 y else err_json 500 (Error e)]
      (endpoints docs r, shown docs entry r, d)"
proof -
  note add = addRoute_endpoints [OF inv run] and seen = addRoute_shown [OF inv run]
  show "endpoints_inv be docs entry r" by (rule add(1))
  have live: "err = None \<or> err = Some ErrDuplicateKey" if "backend_live be (same_key Path) docs"
    using addRoute_live [OF api_live [OF inv that], of p e] run by (auto split: if_splits)
  show "created (backend_live be (same_key Path) docs) p e (endpoints docs (rts s), shown docs entry (rts s), d)
      [case err of None \<Rightarrow> text_json 200 x
       | Some e \<Rightarrow> if e = ErrDuplicateKey then err_json 409 y else err_json 500 (Error e)]
      (endpoints docs r, shown docs entry r, d)"
    using add(2-5) seen live by (cases err) (auto simp: created_def failed_def)
qed

lemma replace_refines:
  assumes inv: "endpoints_inv be docs entry (rts s)" and run: "updateRoute be (rts s) (route_of p e) = (r, res)"
  shows "refines be docs entry sys fs (Replace p e) s (s\<lparr>rts := r\<rparr>, case res of
      Panic m \<Rightarrow> Panics m
    | Return err \<Rightarrow> Replies [case err of None \<Rightarrow> text_json 204 x
        | Some e \<Rightarrow> if e = ErrNoSuchPath then err_json 404 y else err_json 500 (Error e)])"
proof -
  note upd = updateRoute_endpoints [OF inv run] and seen = updateRoute_shown [OF inv run]
  have live: "res = Return None \<or> res = Return (Some ErrNoSuchPath)" if "backend_live be (same_key Path) docs"
    by (rule updateRoute_live [OF api_live [OF inv that] run])
  show ?thesis
  proof (cases res)
    case (Panic m)
    with upd seen(2) live show ?thesis by (auto simp: refines_panic api_view_def)
  next
    case (Return err)
    with upd seen live show ?thesis by (cases err) (auto simp: refines_reply api_view_def failed_def)
  qed
qed

lemma discard_refines:
  assumes inv: "endpoints_inv be docs entry (rts s)" and run: "removeRoute be (rts s) p = (r, err)"
  shows "refines be docs entry sys fs (Discard p) s (s\<lparr>rts := r\<rparr>, Replies [case err of
      None \<Rightarrow> text_json 204 x
    | Some e \<Rightarrow> if e = ErrNoSuchPath then err_json 404 y else err_json 500 (Error e)])"
proof -
  have "err = None" if "backend_live be (same_key Path) docs"
    using removeRoute_live [OF api_live [OF inv that], of p] run by simp
  then show ?thesis
    using removeRoute_endpoints [OF inv run] removeRoute_shown [OF inv run]
    by (cases err) (auto simp: refines_reply api_view_def failed_def)
qed

lemma list_refines:
  assumes inv: "endpoints_inv be docs entry (rts s)"
  shows "refines be docs entry sys fs (ListOf t) s (s, Replies [case listAllRoutesPathsWithType be (rts s) t of
     Inl err \<Rightarrow> err_json 500 (Error err)
   | Inr paths \<Rightarrow> JSON 200 (JObj [(''endpoints'', JArr (map JStr paths))])])"
proof (cases "listAllRoutesPathsWithType be (rts s) t")
  case (Inl err)
  then have "\<not> backend_live be (same_key Path) docs"
    using FindAll_live [of be _ docs "coll (rts s)" "\<lambda>d. Type d = t"]
    by (auto simp: listAllRoutesPathsWithType_def split: sum.splits)
  with inv Inl show ?thesis by (auto simp: refines_reply api_view_def failed_def)
next
  case (Inr ps)
  have "has_type t x \<longleftrightarrow> (\<exists>e. x = Some e \<and> Type (route_of p e) = t)" for p x
    by (simp add: Type_route_any [of p])
  with inv Inr list_paths [OF inv Inr] show ?thesis by (simp add: refines_reply api_view_def) blast
qed

text \<open>A typed read and its reply.\<close>

lemma read_refines:
  assumes inv: "endpoints_inv be docs entry (rts s)" and run: "getRoute be (rts s) p = (r, res)"
    and x: "x = (case res of Inl err \<Rightarrow> Inl err | Inr route \<Rightarrow>
      if Type route \<noteq> t then Inl ErrBadRouteType else Inr (sel route))"
    and sel: "\<forall>q e. Type (route_of q e) = t \<longrightarrow> sel (route_of q e) = text_of e"
  shows "refines be docs entry sys fs (Show t p) s (s\<lparr>rts := r\<rparr>, Replies [case x of Inr y \<Rightarrow> text_json 200 y
     | Inl err \<Rightarrow> if err = ErrNoSuchPath \<or> err = ErrBadRouteType then err_json 404 z else err_json 500 (Error err)])"
proof -
  note get = typed_read [OF inv run x sel]
  show ?thesis
  proof (cases x)
    case (Inl err)
    with get(5) get(6) [of err] have "read_reply (backend_live be (same_key Path) docs) t (shown docs entry (rts s) p)
      [if err = ErrNoSuchPath \<or> err = ErrBadRouteType then err_json 404 z else err_json 500 (Error err)]"
      by (auto simp: read_reply_def failed_def)
    with get(1-3) Inl show ?thesis by (simp add: refines_reply api_view_def)
  next
    case (Inr y)
    with get(4) [of y] have "read_reply (backend_live be (same_key Path) docs) t (shown docs entry (rts s) p) [text_json 200 y]"
      by (auto simp: read_reply_def)
    with get(1-3) Inr show ?thesis by (simp add: refines_reply api_view_def)
  qed
qed

text \<open>The script a dynamic route names.\<close>

lemma script_read:
  assumes inv: "endpoints_inv be docs entry s" and run: "GetDynamicEndpointScriptName be s p = (r, x)"
  shows "endpoints_inv be docs entry r" and "endpoints docs r = endpoints docs s"
    and "evicts (endpoints docs s) (shown docs entry s) (shown docs entry r)"
    and "x = Inr n \<Longrightarrow> endpoints docs s p = Some (Dynamic n)"
    and "x = Inl ErrNoSuchPath \<or> x = Inl ErrBadRouteType \<Longrightarrow> endpoints docs s p \<noteq> Some (Dynamic n)"
    and "backend_live be (same_key Path) docs \<Longrightarrow> x = Inl err \<Longrightarrow> err = ErrNoSuchPath \<or> err = ErrBadRouteType"
proof -
  obtain t res where g: "getRoute be s p = (t, res)" by force
  have r: "r = t" and x: "x = (case res of Inl err \<Rightarrow> Inl err | Inr route \<Rightarrow>
      if Type route \<noteq> DYNAMIC_ENDPOINT_TYPE then Inl ErrBadRouteType else Inr (ScriptName route))"
    using run g by (auto simp: GetDynamicEndpointScriptName_def Let_def split: sum.splits if_splits)
  note get = typed_read [OF inv g x field_text(3)]
  have dyn: "Type (route_of '''' e) = DYNAMIC_ENDPOINT_TYPE \<longleftrightarrow> (\<exists>n. e = Dynamic n)" for e
    by (cases e) (simp_all add: endpoint_types)
  note seen = shows_storedD(3) [OF shown_stored [OF inv], of p]
  show "endpoints_inv be docs entry r" "endpoints docs r = endpoints docs s"
    "evicts (endpoints docs s) (shown docs entry s) (shown docs entry r)" using get(1-3) r by simp_all
  show "endpoints docs s p = Some (Dynamic n)" if "x = Inr n"
  proof -
    have "shown docs entry s p = Some (Dynamic n)" using get(4) [OF that] dyn by auto
    then show ?thesis using seen by blast
  qed
  show "endpoints docs s p \<noteq> Some (Dynamic n)" if "x = Inl ErrNoSuchPath \<or> x = Inl ErrBadRouteType"
    using get(5) [OF that] seen dyn by auto
  show "err = ErrNoSuchPath \<or> err = ErrBadRouteType" if "backend_live be (same_key Path) docs" "x = Inl err"
    by (rule get(6) [OF that])
qed

lemma static_refines:
  assumes inv: "endpoints_inv be docs entry (rts s)"
  shows "refines be docs entry sys fs (ListOf STATIC_ENDPOINT_TYPE) s (static_list be s)"
    and "refines be docs entry sys fs (path_cmd (Show STATIC_ENDPOINT_TYPE) req) s (static_expected_response be s req)"
    and "refines be docs entry sys fs (bound (\<lambda>ep. Create (se_path ep) (Static (se_response ep))) (BindStatic req)) s
      (static_post be s req)"
    and "refines be docs entry sys fs (bound (\<lambda>ep. Replace (se_path ep) (Static (se_response ep))) (BindStatic req)) s
      (static_put be s req)"
    and "refines be docs entry sys fs (path_cmd Discard req) s (static_delete be s req)"
proof -
  note refuse = refuse_refines [OF inv]
  show "refines be docs entry sys fs (ListOf STATIC_ENDPOINT_TYPE) s (static_list be s)"
    using list_refines [OF inv] by (simp add: static_list_def ListAllStaticEndpointPaths_def)
  show "refines be docs entry sys fs (path_cmd (Show STATIC_ENDPOINT_TYPE) req) s (static_expected_response be s req)"
  proof (cases "query req ''path'' = ''''")
    case False
    obtain r res where g: "getRoute be (rts s) (query req ''path'') = (r, res)" by force
    have sel: "\<forall>q e. Type (route_of q e) = STATIC_ENDPOINT_TYPE \<longrightarrow> Response (route_of q e) = text_of e"
      using field_text by simp
    from read_refines [OF inv g refl sel, of sys fs "''Received path was not created before''"] g False show ?thesis
      by (cases res) (simp_all add: static_expected_response_def GetStaticEndpointResponse_def path_cmd_def Let_def split: if_splits)
  qed (simp add: static_expected_response_def path_cmd_def refuse)
  show "refines be docs entry sys fs (bound (\<lambda>ep. Create (se_path ep) (Static (se_response ep))) (BindStatic req)) s
      (static_post be s req)"
    using create_refines [OF inv]
    by (auto simp: static_post_def Add_route_of Let_def bound_def inv refines_reply api_view_def
        simp del: route_of.simps split: sum.split prod.split)
  show "refines be docs entry sys fs (bound (\<lambda>ep. Replace (se_path ep) (Static (se_response ep))) (BindStatic req)) s
      (static_put be s req)"
    using replace_refines [OF inv]
    by (auto simp: static_put_def Update_route_of Let_def bound_def refuse simp del: route_of.simps split: sum.split prod.split)
  show "refines be docs entry sys fs (path_cmd Discard req) s (static_delete be s req)"
    using discard_refines [OF inv]
    by (auto simp: static_delete_def Remove_route Let_def path_cmd_def refuse split: prod.split)
qed

lemma proxy_refines:
  assumes inv: "endpoints_inv be docs entry (rts s)"
  shows "refines be docs entry sys fs (ListOf PROXY_ENDPOINT_TYPE) s (proxy_list be s)"
    and "refines be docs entry sys fs (path_cmd (Show PROXY_ENDPOINT_TYPE) req) s (proxy_url be s req)"
    and "refines be docs entry sys fs (bound (parsed parse_uri Create) (BindProxy req)) s (proxy_post be parse_uri s req)"
    and "refines be docs entry sys fs (bound (parsed parse_uri Replace) (BindProxy req)) s (proxy_put be parse_uri s req)"
    and "refines be docs entry sys fs (path_cmd Discard req) s (proxy_delete be s req)"
proof -
  note refuse = refuse_refines [OF inv]
  show "refines be docs entry sys fs (ListOf PROXY_ENDPOINT_TYPE) s (proxy_list be s)"
    using list_refines [OF inv] by (simp add: proxy_list_def ListAllProxyEndpointPaths_def)
  show "refines be docs entry sys fs (path_cmd (Show PROXY_ENDPOINT_TYPE) req) s (proxy_url be s req)"
  proof (cases "query req ''path'' = ''''")
    case False
    obtain r res where g: "getRoute be (rts s) (query req ''path'') = (r, res)" by force
    have sel: "\<forall>q e. Type (route_of q e) = PROXY_ENDPOINT_TYPE \<longrightarrow> ProxyURL (route_of q e) = text_of e"
      using field_text by simp
    from read_refines [OF inv g refl sel, of sys fs "''Received path was not created before''"] g False show ?thesis
      by (cases res) (simp_all add: proxy_url_def GetProxyEndpointProxyUrl_def path_cmd_def Let_def split: if_splits)
  qed (simp add: proxy_url_def path_cmd_def refuse)
  show "refines be docs entry sys fs (bound (parsed parse_uri Create) (BindProxy req)) s (proxy_post be parse_uri s req)"
    using create_refines [OF inv]
    by (auto simp: proxy_post_def Add_route_of Let_def bound_def parsed_def inv refines_reply api_view_def
        simp del: route_of.simps split: sum.split prod.split option.split)
  show "refines be docs entry sys fs (bound (parsed parse_uri Replace) (BindProxy req)) s (proxy_put be parse_uri s req)"
    using replace_refines [OF inv]
    by (auto simp: proxy_put_def Update_route_of Let_def bound_def parsed_def refuse simp del: route_of.simps
        split: sum.split prod.split option.split)
  show "refines be docs entry sys fs (path_cmd Discard req) s (proxy_delete be s req)"
    using discard_refines [OF inv]
    by (auto simp: proxy_delete_def Remove_route Let_def path_cmd_def refuse split: prod.split)
qed

lemma dynamic_code_refines:
  assumes inv: "endpoints_inv be docs entry (rts s)"
  shows "refines be docs entry sys fs (path_cmd Code req) s (dynamic_code be sys fs s req)"
proof (cases "query req ''path'' = ''''")
  case False
  let ?p = "query req ''path''"
  obtain r x where g: "GetDynamicEndpointScriptName be (rts s) ?p = (r, x)" by force
  note get = script_read [OF inv g]
  show ?thesis
  proof (cases x)
    case (Inl err)
    have "\<not> (\<exists>n. endpoints docs (rts s) ?p = Some (Dynamic n))" if "err = ErrNoSuchPath \<or> err = ErrBadRouteType"
      using get(5) Inl that by blast
    with get(1-3) get(6) [of err] Inl g False show ?thesis
      by (auto simp: dynamic_code_def path_cmd_def refines_reply api_view_def failed_def Let_def
          split: option.split endpoint.split)
  next
    case (Inr n)
    with get(1-3) get(4) [of n] g False show ?thesis
      by (auto simp: dynamic_code_def path_cmd_def refines_reply refines_panic api_view_def Let_def
          split: sum.split outcome.split)
  qed
qed (simp add: dynamic_code_def path_cmd_def refuse_refines [OF inv])

lemma dynamic_post_refines:
  assumes inv: "endpoints_inv be docs entry (rts s)"
  shows "refines be docs entry sys fs (bound (\<lambda>ep. Deploy (dy_path ep) (GenUniqueFilename now ''py'') (dy_code ep))
    (BindDynamic req)) s (dynamic_post be sys fs now s req)"
proof (cases "BindDynamic req")
  case (Inr ep)
  let ?n = "GenUniqueFilename now ''py''"
  obtain d err where w: "fs_Write sys fs (disk s) FS_DYN_HANDLE_DIR ?n (WrapCodeForDynHandle (dy_code ep)) = (d, err)"
    by force
  obtain r e where a: "addRoute be (rts s) (route_of (dy_path ep) (Dynamic ?n)) = (r, e)" by force
  show ?thesis
    using create_refines(1) [OF inv a] create_refines(2) [OF inv a, of d] inv Inr w a
    by (cases err) (simp_all add: dynamic_post_def Add_route_of bound_def refines_reply api_view_def del: route_of.simps)
qed (simp add: dynamic_post_def bound_def refuse_refines [OF inv])

lemma dynamic_put_refines:
  assumes inv: "endpoints_inv be docs entry (rts s)"
  shows "refines be docs entry sys fs (bound (\<lambda>ep. Rewrite (dy_path ep) (dy_code ep)) (BindDynamic req)) s
    (dynamic_put be sys fs s req)"
proof (cases "BindDynamic req")
  case (Inr ep)
  obtain r x where g: "GetDynamicEndpointScriptName be (rts s) (dy_path ep) = (r, x)" by force
  note get = script_read [OF inv g]
  show ?thesis
  proof (cases x)
    case (Inl err)
    have "\<not> (\<exists>n. endpoints docs (rts s) (dy_path ep) = Some (Dynamic n))" if "err = ErrNoSuchPath \<or> err = ErrBadRouteType"
      using get(5) Inl that by blast
    with get(1-3) get(6) [of err] Inl g Inr show ?thesis
      by (auto simp: dynamic_put_def bound_def refines_reply api_view_def failed_def Let_def)
  next
    case (Inr n)
    obtain d e where w: "fs_Write sys fs (disk s) FS_DYN_HANDLE_DIR n (WrapCodeForDynHandle (dy_code ep)) = (d, e)" by force
    from get(1-3) get(4) [of n] g \<open>BindDynamic req = Inr ep\<close> w Inr show ?thesis
      by (cases e) (auto simp: dynamic_put_def bound_def refines_reply api_view_def Let_def)
  qed
qed (simp add: dynamic_put_def bound_def refuse_refines [OF inv])

lemma dynamic_delete_refines:
  assumes inv: "endpoints_inv be docs entry (rts s)"
  shows "refines be docs entry sys fs (path_cmd Discard req) s (dynamic_delete be s req)"
proof (cases "query req ''path'' = ''''")
  case False
  obtain r err where run: "removeRoute be (rts s) (query req ''path'') = (r, err)" by force
  have "err \<noteq> Some ErrNoSuchPath" by (rule removeRoute_endpoints(4) [OF inv run])
  with discard_refines [OF inv run, of sys fs "''Dynamic endpoint successfully removed''"] run False show ?thesis
    by (cases err) (auto simp: dynamic_delete_def Remove_route path_cmd_def)
qed (simp add: dynamic_delete_def path_cmd_def refuse_refines [OF inv])

lemma dynamic_list_refines:
  "endpoints_inv be docs entry (rts s) \<Longrightarrow>
   refines be docs entry sys fs (ListOf DYNAMIC_ENDPOINT_TYPE) s (dynamic_list be s)"
  using list_refines by (simp add: dynamic_list_def ListAllDynamicEndpointPaths_def)

lemmas dynamic_refines = dynamic_list_refines dynamic_code_refines dynamic_post_refines dynamic_put_refines
  dynamic_delete_refines

lemma refinesD:
  assumes "refines be docs entry sys fs cmd s out" and "Recovery out = (s', h)"
  shows "endpoints_inv be docs entry (rts s') \<and> (\<exists>r rs. h = Replies (r # rs) \<and>
    api_effect (backend_live be (same_key Path) docs) sys fs (api_view docs entry s) cmd (r # rs) (api_view docs entry s'))"
  using assms by (auto simp: refines_def)

text \<open>A dynamic endpoint as long as the database answers.\<close>

lemma script_name_live:
  assumes "endpoints_live be docs entry s" and "endpoints docs s p = Some (Dynamic n)"
  shows "\<exists>r. GetDynamicEndpointScriptName be s p = (r, Inr n)"
proof -
  obtain t x where g: "getRoute be s p = (t, x)" by force
  from getRoute_live [OF assms(1), of p] assms(2) g have "x = Inr (route_of p (Dynamic n))"
    by (metis endpoint.distinct(5) option.distinct(1) option.inject snd_conv)
  with g show ?thesis by (simp add: GetDynamicEndpointScriptName_def Let_def endpoint_types)
qed

text \<open>What a successful \<open>POST\<close> leaves behind.\<close>

lemma dynamic_post_done:
  assumes live: "endpoints_live be docs entry (rts s)" and bind: "BindDynamic req = Inr ep"
    and run: "dynamic_post be sys fs now s req = (s', Replies [r])" and ok: "status r = 200"
  shows "endpoints_live be docs entry (rts s')"
    and "endpoints docs (rts s') = (endpoints docs (rts s))(dy_path ep \<mapsto> Dynamic (GenUniqueFilename now ''py''))"
    and "fs_Read sys fs (disk s') FS_DYN_HANDLE_DIR (GenUniqueFilename now ''py'') = Inr (WrapCodeForDynHandle (dy_code ep))"
proof -
  let ?n = "GenUniqueFilename now ''py''"
  obtain d err where w: "fs_Write sys fs (disk s) FS_DYN_HANDLE_DIR ?n (WrapCodeForDynHandle (dy_code ep)) = (d, err)"
    by force
  obtain t e where a: "addRoute be (rts s) (route_of (dy_path ep) (Dynamic ?n)) = (t, e)" by force
  from run bind w a ok have "err = None" and e: "e = None" and s': "s' = s\<lparr>disk := d, rts := t\<rparr>"
    by (auto simp: dynamic_post_def Add_route_of Let_def simp del: route_of.simps split: option.splits if_splits)
  note add = addRoute_endpoints [OF _ a] and wr = fs_Write_ok [OF w [unfolded \<open>err = None\<close>]]
  have inv: "endpoints_inv be docs entry (rts s)" and "backend_live be (same_key Path) docs"
    using live by (simp_all add: endpoints_live_def)
  then show "endpoints_live be docs entry (rts s')"
    and "endpoints docs (rts s') = (endpoints docs (rts s))(dy_path ep \<mapsto> Dynamic ?n)"
    using add(1,3) [OF inv] e by (simp_all add: endpoints_live_def s')
  show "fs_Read sys fs (disk s') FS_DYN_HANDLE_DIR ?n = Inr (WrapCodeForDynHandle (dy_code ep))"
    using wr by (simp add: fs_Read_def s')
qed

lemma dynamic_code_live:
  assumes "endpoints_live be docs entry (rts s)" and "endpoints docs (rts s) (query req ''path'') = Some (Dynamic n)"
    and "fs_Read sys fs (disk s) FS_DYN_HANDLE_DIR n = Inr (WrapCodeForDynHandle code)" and "query req ''path'' \<noteq> ''''"
  shows "snd (dynamic_code be sys fs s req) = Replies [text_json 200 (code @ [newline])]"
  using script_name_live [OF assms(1,2)] assms(3,4) by (auto simp: dynamic_code_def unwrap_dyn)

lemma BindDynamic_path: "BindDynamic req = Inr ep \<Longrightarrow> dy_path ep \<noteq> ''''"
  by (auto simp: BindDynamic_def dynamic_valid_def tags_ok_def dest!: Bind_valid)

lemma routes_handler_refines:
  assumes inv: "endpoints_inv be docs entry (rts s)" and run: "routes_handler be parse_uri sys fs now s req = Some out"
  shows "refines be docs entry sys fs (cmd_of parse_uri now req) s out"
proof -
  note handlers = static_refines [OF inv] proxy_refines [OF inv] dynamic_refines [OF inv]
  show ?thesis
    using run by (auto simp: routes_handler_def cmd_of_def handlers split: if_split_asm split del: if_split)
qed

section \<open>Properties\<close>


text \<open>Requests for the witnesses.\<close>

definition demo_req :: "string \<Rightarrow> string \<Rightarrow> string \<Rightarrow> json \<Rightarrow> request" where
  "demo_req m p qp j = \<lparr>meth = m, uri = p, url_path = p, raw_query = '''', req_headers = [], query = (\<lambda>k. if k = ''path'' then qp else ''''),
     req_body = Inr (json_print j), bind_err = ''invalid''\<rparr>"

lemma demo_static:
  "BindStatic (demo_req m p qp (JObj [(''path'', JStr ''/a''), (''expected_response'', JStr ''x'')]))
    = Inr \<lparr>se_path = ''/a'', se_response = ''x''\<rparr>"
  unfolding BindStatic_def
  by (rule Bind_print [where j = "JObj [(''path'', JStr ''/a''), (''expected_response'', JStr ''x'')]"])
    (simp_all add: demo_req_def ascii_def static_fields_def field_named_def static_valid_def
      tags_ok_def rune_count_def HasPrefix_def)

lemma demo_dynamic:
  "BindDynamic (demo_req m p qp (JObj [(''path'', JStr pa), (''code'', JStr (''def func'' @ c))]))
    = Inr \<lparr>dy_path = pa, dy_code = ''def func'' @ c\<rparr>" if "ascii pa" "ascii c" "HasPrefix pa ''/''" "2 \<le> rune_count pa"
  unfolding BindDynamic_def
  by (rule Bind_print [where j = "JObj [(''path'', JStr pa), (''code'', JStr (''def func'' @ c))]"])
    (use that in \<open>auto simp: demo_req_def ascii_def dynamic_fields_def field_named_def dynamic_valid_def
      tags_ok_def rune_count_def HasPrefix_def\<close>)


text \<open>C33: While the database answers, the code shown for a dynamic endpoint is the code it was posted
  with, and a newline.\<close>
theorem dynamic_code_roundtrip:
  assumes "endpoints_live be docs entry (rts s)" and "BindDynamic req = Inr ep"
    and "dynamic_post be sys fs now s req = (s', Replies [r])" and "status r = 200"
    and "query req' ''path'' = dy_path ep"
  shows "snd (dynamic_code be sys fs s' req') = Replies [text_json 200 (dy_code ep @ [newline])]"
  using dynamic_post_done [OF assms(1-4)] BindDynamic_path [OF assms(2)] assms(5)
  by (intro dynamic_code_live) auto

definition demo_srv :: "(Route list, (string \<times> Route) list) routes_srv" where
  "demo_srv = \<lparr>rts = \<lparr>coll = [], cache = []\<rparr>, disk = \<lparr>files = Map.empty\<rparr>\<rparr>"

abbreviation demo_sys :: os where "demo_sys \<equiv> \<lparr>deny = Map.empty, short = Map.empty\<rparr>"

abbreviation demo_fs :: FileStorage where "demo_fs \<equiv> \<lparr>fs_prefix = [''r'']\<rparr>"

definition demo_code_req :: "string \<Rightarrow> string \<Rightarrow> request" where
  "demo_code_req p c = demo_req ''POST'' ''/api/routes/dynamic'' p (JObj [(''path'', JStr p), (''code'', JStr (''def func'' @ c))])"

lemma demo_srv_live: "endpoints_live (mem_backend (same_key Path) 0) mem_docs map_of (rts demo_srv)"
  using mem_endpoints_live by (simp add: demo_srv_def)

lemma demo_post:
  "BindDynamic (demo_code_req ''/a'' ''A'') = Inr \<lparr>dy_path = ''/a'', dy_code = ''def funcA''\<rparr>"
  "BindDynamic (demo_code_req ''/b'' ''B'') = Inr \<lparr>dy_path = ''/b'', dy_code = ''def funcB''\<rparr>"
  using demo_dynamic [of "''/a''" "''A''"] demo_dynamic [of "''/b''" "''B''"]
  by (simp_all add: demo_code_req_def ascii_def HasPrefix_def rune_count_def)

lemma demo_posts:
  "\<exists>s1 s2. dynamic_post (mem_backend (same_key Path) 0) demo_sys demo_fs ''1'' demo_srv (demo_code_req ''/a'' ''A'')
      = (s1, Replies [text_json 200 ''Dynamic endpoint successfully added'']) \<and>
    dynamic_post (mem_backend (same_key Path) 0) demo_sys demo_fs ''1'' s1 (demo_code_req ''/b'' ''B'')
      = (s2, Replies [text_json 200 ''Dynamic endpoint successfully added''])"
  by (simp add: dynamic_post_def demo_post fs_Write_def WrapCodeForDynHandle_def AddDynamicEndpoint_def addRoute_def
      mem_simps demo_srv_def Let_def)

lemma demo_query: "query (demo_code_req p c) ''path'' = p"
  by (simp add: demo_code_req_def demo_req_def)

lemma dynamic_code_roundtrip_witness:
  "\<exists>s1 r. dynamic_post (mem_backend (same_key Path) 0) demo_sys demo_fs ''1'' demo_srv (demo_code_req ''/a'' ''A'')
      = (s1, Replies [r]) \<and> snd (dynamic_code (mem_backend (same_key Path) 0) demo_sys demo_fs s1 (demo_code_req ''/a'' ''A''))
        = Replies [text_json 200 (''def funcA'' @ [newline])]"
proof -
  obtain s1 where run: "dynamic_post (mem_backend (same_key Path) 0) demo_sys demo_fs ''1'' demo_srv (demo_code_req ''/a'' ''A'')
      = (s1, Replies [text_json 200 ''Dynamic endpoint successfully added''])" using demo_posts by blast
  from dynamic_code_roundtrip [OF demo_srv_live demo_post(1) run] run show ?thesis by (simp add: demo_query)
qed

text \<open>C34: Two dynamic endpoints created within the same second share one script file: the first one
  then shows, and runs, the code of the second.\<close>
theorem same_second_scripts:
  assumes "endpoints_live be docs entry (rts s)"
    and "BindDynamic req1 = Inr ep1" and "dynamic_post be sys fs now s req1 = (s1, Replies [r1])" and "status r1 = 200"
    and "BindDynamic req2 = Inr ep2" and "dynamic_post be sys fs now s1 req2 = (s2, Replies [r2])" and "status r2 = 200"
    and "query req ''path'' = dy_path ep1"
  shows "dy_path ep1 \<noteq> dy_path ep2 \<and> endpoints docs (rts s2) (dy_path ep1) = endpoints docs (rts s2) (dy_path ep2) \<and>
    snd (dynamic_code be sys fs s2 req) = Replies [text_json 200 (dy_code ep2 @ [newline])]"
proof -
  note one = dynamic_post_done [OF assms(1-4)]
  note two = dynamic_post_done [OF one(1) assms(5-7)]
  have "endpoints_inv be docs entry (rts s1)" using one(1) by (simp add: endpoints_live_def)
  have free: "endpoints docs (rts s1) (dy_path ep2) = None"
  proof -
    obtain t e where a: "addRoute be (rts s1) (route_of (dy_path ep2) (Dynamic (GenUniqueFilename now ''py''))) = (t, e)"
      by force
    have "e = None" using a assms(5-7)
      by (auto simp: dynamic_post_def Add_route_of Let_def simp del: route_of.simps
          split: option.splits if_splits prod.splits)
    with addRoute_endpoints(2) [OF \<open>endpoints_inv be docs entry (rts s1)\<close> a] show ?thesis by simp
  qed
  then have diff: "dy_path ep1 \<noteq> dy_path ep2" using one(2) by auto
  then have at1: "endpoints docs (rts s2) (dy_path ep1) = Some (Dynamic (GenUniqueFilename now ''py''))"
    using one(2) two(2) by simp
  have "snd (dynamic_code be sys fs s2 req) = Replies [text_json 200 (dy_code ep2 @ [newline])]"
    by (rule dynamic_code_live [OF two(1) _ two(3)]) (use at1 assms(8) BindDynamic_path [OF assms(2)] in simp_all)
  with diff at1 two(2) show ?thesis by simp
qed

lemma same_second_scripts_witness:
  "\<exists>s1 s2 r1 r2. dynamic_post (mem_backend (same_key Path) 0) demo_sys demo_fs ''1'' demo_srv (demo_code_req ''/a'' ''A'')
      = (s1, Replies [r1]) \<and>
    dynamic_post (mem_backend (same_key Path) 0) demo_sys demo_fs ''1'' s1 (demo_code_req ''/b'' ''B'') = (s2, Replies [r2]) \<and>
    snd (dynamic_code (mem_backend (same_key Path) 0) demo_sys demo_fs s2 (demo_code_req ''/a'' ''A''))
      = Replies [text_json 200 (''def funcB'' @ [newline])]"
proof -
  obtain s1 s2 where runs: "dynamic_post (mem_backend (same_key Path) 0) demo_sys demo_fs ''1'' demo_srv (demo_code_req ''/a'' ''A'')
      = (s1, Replies [text_json 200 ''Dynamic endpoint successfully added''])"
    "dynamic_post (mem_backend (same_key Path) 0) demo_sys demo_fs ''1'' s1 (demo_code_req ''/b'' ''B'')
      = (s2, Replies [text_json 200 ''Dynamic endpoint successfully added''])" using demo_posts by blast
  from same_second_scripts [OF demo_srv_live demo_post(1) runs(1) _ demo_post(2) runs(2)] runs
  show ?thesis by (simp add: demo_query)
qed

text \<open>C35: An update of a script whose write fails has already answered 204: the client sees success,
  and the file may hold a part of the new script or nothing.\<close>
theorem failed_update_looks_done:
  assumes "endpoints_live be docs entry (rts s)" and "BindDynamic req = Inr ep"
    and "endpoints docs (rts s) (dy_path ep) = Some (Dynamic n)"
    and "snd (fs_Write sys fs (disk s) FS_DYN_HANDLE_DIR n (WrapCodeForDynHandle (dy_code ep))) = Some e"
  shows "\<exists>s'. dynamic_put be sys fs s req = (s', Replies [
      text_json 204 ''Dynamic endpoint successfully updated'', err_json 500 (Error e)]) \<and>
    (\<forall>k e'. deny sys (fs_path fs FS_DYN_HANDLE_DIR n) = None \<and> short sys (fs_path fs FS_DYN_HANDLE_DIR n) = Some (k, e') \<and>
       deny sys (filepath_Join (fs_prefix fs @ [FS_DYN_HANDLE_DIR])) = None \<longrightarrow>
       fs_Read sys fs (disk s') FS_DYN_HANDLE_DIR n = Inr (take k (WrapCodeForDynHandle (dy_code ep))))"
proof -
  obtain r where g: "GetDynamicEndpointScriptName be (rts s) (dy_path ep) = (r, Inr n)"
    using script_name_live [OF assms(1,3)] by blast
  obtain d where w: "fs_Write sys fs (disk s) FS_DYN_HANDLE_DIR n (WrapCodeForDynHandle (dy_code ep)) = (d, Some e)"
    using assms(4) by (metis prod.collapse)
  have "WrapCodeForDynHandle (dy_code ep) \<noteq> []" by (simp add: WrapCodeForDynHandle_def)
  then have "fs_Read sys fs d FS_DYN_HANDLE_DIR n = Inr (take k (WrapCodeForDynHandle (dy_code ep)))"
    if "deny sys (fs_path fs FS_DYN_HANDLE_DIR n) = None" "short sys (fs_path fs FS_DYN_HANDLE_DIR n) = Some (k, e')"
      "deny sys (filepath_Join (fs_prefix fs @ [FS_DYN_HANDLE_DIR])) = None" for k e'
    using w that by (auto simp: fs_Write_def fs_Write_path fs_Read_def Let_def)
  with assms(2) g w show ?thesis by (auto simp: dynamic_put_def)
qed


lemma failed_update_looks_done_witness:
  "let sys = \<lparr>deny = Map.empty, short = (\<lambda>_. Some (3, GoError ''no space left on device''))\<rparr>;
       s = \<lparr>rts = \<lparr>coll = [route_of ''/a'' (Dynamic ''f.py'')], cache = [(''/a'', route_of ''/a'' (Dynamic ''f.py''))]\<rparr>,
            disk = \<lparr>files = Map.empty\<rparr>\<rparr>;
       (s', h) = dynamic_put (mem_backend (same_key Path) 0) sys demo_fs s (demo_code_req ''/a'' ''A'')
   in told_code h = 204 \<and> fs_Read sys demo_fs (disk s') FS_DYN_HANDLE_DIR ''f.py'' = Inr (newline # ''im'')"
proof -
  let ?sys = "\<lparr>deny = Map.empty, short = (\<lambda>_. Some (3, GoError ''no space left on device''))\<rparr>"
  let ?s = "\<lparr>rts = \<lparr>coll = [route_of ''/a'' (Dynamic ''f.py'')], cache = [(''/a'', route_of ''/a'' (Dynamic ''f.py''))]\<rparr>,
            disk = \<lparr>files = Map.empty\<rparr>\<rparr>"
  let ?ep = "\<lparr>dy_path = ''/a'', dy_code = ''def funcA''\<rparr>"
  have live: "endpoints_live (mem_backend (same_key Path) 0) mem_docs map_of (rts ?s)"
    using mem_one_live [of 0 "''/a''" "Dynamic ''f.py''"] by simp
  have at: "endpoints mem_docs (rts ?s) (dy_path ?ep) = Some (Dynamic ''f.py'')"
    by (simp add: endpoints_def table_def del: route_of.simps)
  have wrap: "WrapCodeForDynHandle (dy_code ?ep) \<noteq> [] \<and> take 3 (WrapCodeForDynHandle (dy_code ?ep)) = newline # ''im''"
    by (simp add: WrapCodeForDynHandle_def LOAD_ARGS_def)
  have "snd (fs_Write ?sys demo_fs (disk ?s) FS_DYN_HANDLE_DIR ''f.py'' (WrapCodeForDynHandle (dy_code ?ep)))
      = Some (GoError ''no space left on device'')"
    using wrap by (simp add: fs_Write_def Let_def)
  from failed_update_looks_done [OF live demo_post(1) at this] wrap show ?thesis by (auto simp: Let_def)
qed

end
