(* ===== verification/NoRoute.thy ===== *)
theory NoRoute
  imports RoutesApi Worker
begin

text \<open>
  Serving the mock endpoints: \<open>internal/server/noroute_handler.go\<close>, where every request goes that
  no API route matches.  The state is the endpoint store and the watcher of the workers.  The
  reverse proxy of \<open>net/http/httputil\<close> and \<open>net/url\<close> are parameters.
\<close>

record ('c, 'h, 'v) mock_srv =
  mrts :: "('c, 'h) routes"
  crew :: "'v watcher"

section \<open>Static and proxy routes\<close>

definition handleStaticRouteRequest :: "Route \<Rightarrow> handled" where
  "handleStaticRouteRequest route = Replies [text_json 200 (Response route)]"

text \<open>A parsed URL: what the code reads and writes of it, the rest in \<open>url_rest\<close>.\<close>

record url =
  url_host :: string
  url_query :: string
  url_rest :: string

record outreq =
  o_host :: string
  o_url :: url
  o_uri :: string
  o_method :: string
  o_headers :: "(string \<times> string list) list"
  o_body :: "string option"

text \<open>
  \<open>parse\<close> is \<open>url.ParseRequestURI\<close>, \<open>request_uri\<close> the method \<open>RequestURI\<close> of a URL; \<open>debug\<close> says that
  the logger is at its debug level, where the request is dumped and \<open>dumped\<close> is the error of that.
  \<open>forward\<close> sends the request and answers the client with the response.  A body that cannot be read
  is answered and the request is sent all the same; a \<open>GET\<close> keeps the body it came with.
\<close>

record proxy_lib =
  parse :: "string \<Rightarrow> go_error + url"
  request_uri :: "url \<Rightarrow> string"
  debug :: bool
  dumped :: "outreq \<Rightarrow> go_error option"
  forward :: "outreq \<Rightarrow> reply list"

definition Director :: "proxy_lib \<Rightarrow> url \<Rightarrow> request \<Rightarrow> outreq \<times> reply list" where
  "Director lib target req =
     (let target = (if raw_query req = '''' \<or> url_query target = ''''
             then target\<lparr>url_query := raw_query req @ url_query target\<rparr>
             else target\<lparr>url_query := raw_query req @ ''&'' @ url_query target\<rparr>);
          out = \<lparr>o_host = url_host target, o_url = target, o_uri = request_uri lib target,
                 o_method = meth req, o_headers = req_headers req,
                 o_body = (case req_body req of Inl _ \<Rightarrow> None | Inr b \<Rightarrow> Some b)\<rparr> in
      case (if meth req = ''GET'' \<or> meth req = ''HEAD'' then Inr '''' else req_body req) of
        Inl err \<Rightarrow> (out, [err_json 400 (Error err)])
      | Inr _ \<Rightarrow> (out, if debug lib then (case dumped lib out of
            Some err \<Rightarrow> [err_json 400 (Error err)] | None \<Rightarrow> []) else []))"

text \<open>\<open>zlog.Fatal\<close> ends the process before the reply is written.\<close>

definition handleProxyRouteRequest :: "proxy_lib \<Rightarrow> request \<Rightarrow> Route \<Rightarrow> handled" where
  "handleProxyRouteRequest lib req route = (case parse lib (ProxyURL route) of
     Inl err \<Rightarrow> Exits
   | Inr target \<Rightarrow>
       let (out, written) = Director lib target req in Replies (written @ forward lib out))"

section \<open>Dynamic routes\<close>

text \<open>\<open>json.Marshal\<close> of a header: a map from names to lists, its keys sorted.\<close>

definition headers_json :: "(string \<times> string list) list \<Rightarrow> string" where
  "headers_json hs = json_print (JObj (map (\<lambda>(k, vs). (k, JArr (map JStr vs))) (sort_key fst hs)))"

text \<open>\<^term>\<open>None\<close>: blocked for ever on a channel of the watcher.\<close>

definition handleDynamicRouteRequest :: "'v docker \<Rightarrow> http \<Rightarrow> 'v watcher \<Rightarrow> request \<Rightarrow> Route
    \<Rightarrow> ('v watcher \<times> handled) option" where
  "handleDynamicRouteRequest lib http w req route = (case BorrowWorker lib w of
     None \<Rightarrow> None
   | Some (w, Inl err) \<Rightarrow> Some (w, Replies [err_json 500 (Error err)])
   | Some (w, Inr worker) \<Rightarrow>
       map_option (\<lambda>w. (w, case req_body req of
           Inl err \<Rightarrow> Replies [err_json 400 (Error err)]
         | Inr bodyBytes \<Rightarrow>
             (case RunScript http worker FS_DYN_HANDLE_DIR (ScriptName route)
                 (NewDynHandleArgs (headers_json (req_headers req)) bodyBytes) of
                Panic m \<Rightarrow> Panics m
              | Return (output, err) \<Rightarrow> Replies [case err of
                  None \<Rightarrow> text_json 200 output
                | Some e \<Rightarrow> if e = ErrCodeRunFailed then err_json 400 output else err_json 500 output])))
         (Return_worker worker w))"

section \<open>Dispatch\<close>

definition noroute :: "('c, 'h, Route) backend \<Rightarrow> proxy_lib \<Rightarrow> 'v docker \<Rightarrow> http
    \<Rightarrow> ('c, 'h, 'v) mock_srv \<Rightarrow> request \<Rightarrow> (('c, 'h, 'v) mock_srv \<times> handled) option" where
  "noroute be plib lib http s req =
     (let path = uri req; (r, res) = GetRoute be (mrts s) path; s = s\<lparr>mrts := r\<rparr> in
      case res of
        Inl err \<Rightarrow>
          if err = ErrNoSuchPath then Some (s, Replies [err_json 400 (''no such path: '' @ path)])
          else Some (s, Replies [err_json 500 (Error err)])
      | Inr route \<Rightarrow>
          if Type route = STATIC_ENDPOINT_TYPE then Some (s, handleStaticRouteRequest route)
          else if Type route = PROXY_ENDPOINT_TYPE then Some (s, handleProxyRouteRequest plib req route)
          else if Type route = DYNAMIC_ENDPOINT_TYPE then
            map_option (\<lambda>(w, h). (s\<lparr>crew := w\<rparr>, h)) (handleDynamicRouteRequest lib http (crew s) req route)
          else Some (s, Exits))"

section \<open>What is served\<close>

text \<open>A run of a script through the workers: it always comes back, with everybody on the bench unless
  an inspection failed.\<close>

lemma handleDynamic_total:
  assumes "roomy w"
  obtains t rs where "handleDynamicRouteRequest lib http w req route = Some (t, Replies [rs])" and "roomy t"
    and "bench t = bench w \<or> (\<exists>e v. rs = err_json 500 (Error e) \<and> bench w = add_mset v (bench t) \<and>
      InspectWorkerContainer lib (dp w) (cId v) = Inl e)"
proof -
  obtain u r where b: "BorrowWorker lib w = Some (u, r)" and l: "lent_out lib w u r"
    using BorrowWorker_lent [OF assms] by blast
  have smaller: "bench w = add_mset v (bench u) \<Longrightarrow> roomy u" for v
    using l assms by (simp add: roomy_bench lent_out_def)
  have same: "bench u = bench w \<Longrightarrow> roomy u"
    using l assms by (simp add: roomy_bench lent_out_def)
  show thesis
  proof (cases r)
    case (Inl e)
    with b l that [of u "err_json 500 (Error e)"] smaller same show thesis
      by (auto simp: handleDynamicRouteRequest_def lent_out_def)
  next
    case (Inr v)
    with l have bench: "bench w = add_mset v (bench u)" and cnt: "WorkerCnt u = WorkerCnt w"
      by (simp_all add: lent_out_def)
    let ?t = "u\<lparr>workers := workers u @ [v]\<rparr>"
    have ret: "Return_worker v u = Some ?t"
      using bench_room [OF bench assms cnt] by (simp add: Return_worker_def send_workers_def)
    have "\<exists>x. RunScript http v FS_DYN_HANDLE_DIR (ScriptName route)
        (NewDynHandleArgs (headers_json (req_headers req)) b) = Return x" for b
      by (simp add: RunScript_def FS_DYN_HANDLE_DIR_def NewDynHandleArgs_def Let_def)
    note run = this
    have "\<exists>rs. handleDynamicRouteRequest lib http w req route = Some (?t, Replies [rs])"
    proof (cases "req_body req")
      case body: (Inr d)
      obtain out err where "RunScript http v FS_DYN_HANDLE_DIR (ScriptName route)
          (NewDynHandleArgs (headers_json (req_headers req)) d) = Return (out, err)" using run [of d] by auto
      with b Inr ret body show ?thesis by (simp add: handleDynamicRouteRequest_def)
    qed (use b Inr ret in \<open>simp add: handleDynamicRouteRequest_def\<close>)
    then obtain rs where "handleDynamicRouteRequest lib http w req route = Some (?t, Replies [rs])" by blast
    moreover have same_bench: "bench ?t = bench w" using bench by (simp add: bench_def)
    moreover have "roomy ?t" using assms cnt same_bench by (simp add: roomy_bench)
    ultimately show thesis using that by blast
  qed
qed

section \<open>While the database answers\<close>

lemma noroute_live:
  assumes live: "endpoints_live be docs entry (mrts s)"
  shows "case endpoints docs (mrts s) (uri req) of
      None \<Rightarrow> map_option snd (noroute be plib lib http s req) = Some (Replies [err_json 400 (''no such path: '' @ uri req)])
    | Some (Static x) \<Rightarrow> map_option snd (noroute be plib lib http s req) = Some (Replies [text_json 200 x])
    | Some (Proxy _) \<Rightarrow> \<exists>u. map_option snd (noroute be plib lib http s req)
        = Some (handleProxyRouteRequest plib req (route_of (uri req) (Proxy u)))
    | Some (Dynamic n) \<Rightarrow> \<exists>r. noroute be plib lib http s req = map_option (\<lambda>(w, h). (s\<lparr>mrts := r, crew := w\<rparr>, h))
        (handleDynamicRouteRequest lib http (crew s) req (route_of (uri req) (Dynamic n)))"
proof -
  obtain r res where g: "getRoute be (mrts s) (uri req) = (r, res)" by force
  show ?thesis
  proof (rule getRoute_live [OF live, of "uri req"])
    assume "endpoints docs (mrts s) (uri req) = None" and "snd (getRoute be (mrts s) (uri req)) = Inl ErrNoSuchPath"
    with g show ?thesis by (simp add: noroute_def GetRoute_def Let_def)
  next
    fix e e'
    assume e: "endpoints docs (mrts s) (uri req) = Some e" "snd (getRoute be (mrts s) (uri req)) = Inr (route_of (uri req) e')"
      "same_kind e' e" "(\<forall>u. e \<noteq> Proxy u) \<Longrightarrow> e' = e"
    show ?thesis
    proof (cases e)
      case (Static x)
      with e have "e' = e" by simp
      with g e Static show ?thesis
        by (simp add: noroute_def GetRoute_def Let_def endpoint_types handleStaticRouteRequest_def)
    next
      case (Proxy u)
      with e(3) obtain u' where "e' = Proxy u'" by (cases e') auto
      with g e Proxy show ?thesis by (auto simp: noroute_def GetRoute_def Let_def endpoint_types)
    next
      case (Dynamic n)
      with e have "e' = e" by simp
      with g e Dynamic show ?thesis by (auto simp: noroute_def GetRoute_def Let_def endpoint_types)
    qed
  qed
qed

section \<open>Properties\<close>

text \<open>C17: The life of a static endpoint, while the database answers: the \<open>POST\<close> for a free path
  succeeds, a second one conflicts, a request for the path is answered 200 with the expected response,
  the \<open>DELETE\<close> succeeds, and after it the path is unknown.\<close>
theorem static_lifecycle:
  assumes "endpoints_live be docs entry (rts s)" and "BindStatic req = Inr ep"
    and "endpoints docs (rts s) (se_path ep) = None" and "uri g = se_path ep" and "query del ''path'' = se_path ep"
  shows "let (s1, h1) = static_post be s req; (s2, h2) = static_post be s1 req; (s3, h3) = static_delete be s2 del;
      get = (\<lambda>t. map_option snd (noroute be plib lib http \<lparr>mrts = rts t, crew = w\<rparr> g))
    in h1 = Replies [text_json 200 ''Static endpoint successfully added!''] \<and>
      h2 = Replies [err_json 409 ''The same endpoint already exists''] \<and>
      get s2 = Some (Replies [text_json 200 (se_response ep)]) \<and>
      h3 = Replies [text_json 204 ''Static endpoint successfully removed!''] \<and>
      get s3 = Some (Replies [err_json 400 (''no such path: '' @ se_path ep)])"
proof -
  let ?d = "route_of (se_path ep) (Static (se_response ep))"
  have path: "se_path ep \<noteq> ''''"
    using assms(2) by (auto simp: BindStatic_def static_valid_def tags_ok_def dest!: Bind_valid)
  obtain r1 e1 where a1: "addRoute be (rts s) ?d = (r1, e1)" by force
  have e1: "e1 = None" using addRoute_live [OF assms(1)] a1 assms(3) by (metis snd_conv)
  note add1 = addRoute_endpoints [OF endpoints_liveD(1) [OF assms(1)] a1]
  have live1: "endpoints_live be docs entry r1" using endpoints_liveD(3) [OF assms(1) add1(1)] .
  have at1: "endpoints docs r1 (se_path ep) = Some (Static (se_response ep))" using add1(3) e1 by simp
  obtain r2 e2 where a2: "addRoute be r1 ?d = (r2, e2)" by force
  have e2: "e2 = Some ErrDuplicateKey" using addRoute_live [OF live1] a2 at1 by (metis option.distinct(1) snd_conv)
  note add2 = addRoute_endpoints [OF endpoints_liveD(1) [OF live1] a2]
  have live2: "endpoints_live be docs entry r2" using endpoints_liveD(3) [OF live1 add2(1)] .
  have at2: "endpoints docs r2 (se_path ep) = Some (Static (se_response ep))" using add2(4) e2 at1 by simp
  obtain r3 e3 where a3: "removeRoute be r2 (se_path ep) = (r3, e3)" by force
  have e3: "e3 = None" using removeRoute_live [OF live2] a3 by (metis snd_conv)
  note rem = removeRoute_endpoints [OF endpoints_liveD(1) [OF live2] a3]
  have live3: "endpoints_live be docs entry r3" using endpoints_liveD(3) [OF live2 rem(1)] .
  have at3: "endpoints docs r3 (se_path ep) = None" using rem(2) e3 by simp
  have "map_option snd (noroute be plib lib http \<lparr>mrts = r2, crew = w\<rparr> g) = Some (Replies [text_json 200 (se_response ep)])"
    using noroute_live [of be docs entry "\<lparr>mrts = r2, crew = w\<rparr>", where req = g] live2 at2 assms(4) by simp
  moreover have "map_option snd (noroute be plib lib http \<lparr>mrts = r3, crew = w\<rparr> g)
      = Some (Replies [err_json 400 (''no such path: '' @ se_path ep)])"
    using noroute_live [of be docs entry "\<lparr>mrts = r3, crew = w\<rparr>", where req = g] live3 at3 assms(4) by simp
  ultimately show ?thesis
    using assms(2,5) path a1 e1 a2 e2 a3 e3
    by (simp add: static_post_def static_delete_def Add_route_of Remove_route del: route_of.simps map_option_eq_Some)
qed

abbreviation demo_plib :: proxy_lib where
  "demo_plib \<equiv> \<lparr>parse = (\<lambda>u. Inl (GoError ''invalid URI'')), request_uri = url_rest, debug = False,
     dumped = (\<lambda>_. None), forward = (\<lambda>_. [])\<rparr>"

abbreviation no_http :: http where "no_http \<equiv> (\<lambda>_ _ _. Inl (GoError ''connection refused''))"

definition demo_get :: "string \<Rightarrow> string \<Rightarrow> request" where
  "demo_get p q = \<lparr>meth = ''GET'', uri = (if q = '''' then p else p @ ''?'' @ q), url_path = p, raw_query = q,
     req_headers = [], query = (\<lambda>_. ''''), req_body = Inr '''', bind_err = ''EOF''\<rparr>"

lemma static_lifecycle_witness:
  "let be = mem_backend (same_key Path) 1;
     req = demo_req ''POST'' ''/api/routes/static'' '''' (JObj [(''path'', JStr ''/a''), (''expected_response'', JStr ''x'')]);
     (s1, h1) = static_post be demo_srv req
   in h1 = Replies [text_json 200 ''Static endpoint successfully added!''] \<and>
     map_option snd (noroute be demo_plib mem_docker no_http \<lparr>mrts = rts (fst (static_post be s1 req)), crew = blank_watcher\<rparr>
       (demo_get ''/a'' '''')) = Some (Replies [text_json 200 ''x''])"
proof -
  let ?be = "mem_backend (same_key Path) 1"
  let ?req = "demo_req ''POST'' ''/api/routes/static'' '''' (JObj [(''path'', JStr ''/a''), (''expected_response'', JStr ''x'')])"
  have live: "endpoints_live ?be mem_docs map_of (rts demo_srv)"
    using mem_endpoints_live by (simp add: demo_srv_def)
  have "endpoints mem_docs (rts demo_srv) ''/a'' = None" by (simp add: endpoints_def table_def demo_srv_def)
  with static_lifecycle [OF live demo_static [of "''POST''" "''/api/routes/static''" "''''"],
      where g = "demo_get ''/a'' ''''" and del = "demo_req ''DELETE'' '''' ''/a'' JNull"
      and plib = demo_plib and lib = mem_docker and http = no_http and w = blank_watcher]
  show ?thesis by (simp add: demo_get_def demo_req_def split_beta Let_def del: map_option_eq_Some)
qed

text \<open>An endpoint is found by the whole request URI: a request with a query string gets 400 for an
  endpoint registered without it, so the query of a request never reaches a proxy that was registered by
  its path alone.\<close>
lemma query_hides_endpoint:
  assumes "endpoints_live be docs entry (mrts s)" and "uri req = p @ ''?'' @ raw_query req"
    and "endpoints docs (mrts s) (p @ ''?'' @ raw_query req) = None"
  shows "map_option snd (noroute be plib lib http s req)
    = Some (Replies [err_json 400 (''no such path: '' @ p @ ''?'' @ raw_query req)])"
  using noroute_live [OF assms(1), where req = req] assms(2,3) by simp

lemma query_hides_endpoint_witness:
  "let s = \<lparr>mrts = \<lparr>coll = [route_of ''/p'' (Proxy ''http://h'')], cache = [(''/p'', route_of ''/p'' (Proxy ''http://h''))]\<rparr>,
            crew = blank_watcher\<rparr>
   in map_option snd (noroute (mem_backend (same_key Path) 1) demo_plib mem_docker no_http s (demo_get ''/p'' ''k=1''))
     = Some (Replies [err_json 400 ''no such path: /p?k=1''])"
proof -
  let ?s = "\<lparr>mrts = \<lparr>coll = [route_of ''/p'' (Proxy ''http://h'')], cache = [(''/p'', route_of ''/p'' (Proxy ''http://h''))]\<rparr>,
            crew = blank_watcher\<rparr>"
  have live: "endpoints_live (mem_backend (same_key Path) 1) mem_docs map_of (mrts ?s)"
    using mem_one_live [of 1 "''/p''" "Proxy ''http://h''"] by simp
  have "endpoints mem_docs (mrts ?s) (''/p'' @ ''?'' @ ''k=1'') = None"
    by (simp add: endpoints_def table_def)
  with query_hides_endpoint [OF live, where req = "demo_get ''/p'' ''k=1''" and p = "''/p''"]
  show ?thesis by (simp add: demo_get_def Let_def)
qed

text \<open>C18: A request for a dynamic endpoint, from the router to the interpreter and back.  While the
  database answers, the first idle worker's container runs, the channels have room, the body can be read
  and the container has its storage and can write the arguments to a file: the script gets the headers and the
  body of the request, its output comes back with 200, its failure (or a missing script) with 400, and the worker
  goes to the end of the queue.\<close>
theorem dynamic_served:
  assumes "endpoints_live be docs entry (mrts s)" and "endpoints docs (mrts s) (uri req) = Some (Dynamic n)"
    and "workers (crew s) = v # vs" and "roomy (crew s)"
    and "InspectWorkerContainer lib (dp (crew s)) (cId v) = Inr info" and "isRunning info"
    and "req_body req = Inr b" and "coderun_root (at (port v)) = Inr root"
  defines "args \<equiv> WrapArgsForDynHandle (headers_json (req_headers req)) b"
    and "path \<equiv> filepath_Join [root, ''dyn_handle'', n]"
  assumes "dump (at (port v)) args = None"
  shows "\<exists>t. noroute be plib lib (container_http at) s req = Some (t, Replies [
      if exists_file (at (port v)) path then
        (case told (python (at (port v)) path args) of
           (out, None) \<Rightarrow> text_json 200 out
         | (out, Some _) \<Rightarrow> err_json 400 out)
      else err_json 400 ('': script: '' @ path @ '' not exists'' @ [newline])]) \<and>
    workers (crew t) = vs @ [v] \<and> repair (crew t) = repair (crew s)"
proof -
  have room: "length vs < WorkerCnt (crew s)" using assms(3,4) by (simp add: roomy_def)
  have borrow: "BorrowWorker lib (crew s) = Some ((crew s)\<lparr>workers := vs\<rparr>, Inr v)"
    using assms(3,5,6) by (simp add: BorrowWorker_def BorrowWorker_loop.simps borrowCheck_def)
  have ret: "Return_worker v ((crew s)\<lparr>workers := vs\<rparr>) = Some ((crew s)\<lparr>workers := vs @ [v]\<rparr>)"
    using room by (simp add: Return_worker_def send_workers_def)
  have run: "RunScript (container_http at) v ''dyn_handle'' n (NewDynHandleArgs (headers_json (req_headers req)) b)
    = Return (case RunPythonScript (at (port v)) \<lparr>RunType = ''dyn_handle'', Script = n, ReqArgs = args\<rparr> of
        (out, None) \<Rightarrow> (out, None)
      | (out, Some e) \<Rightarrow> (out @ '': '' @ Error e @ [newline], Some ErrCodeRunFailed))"
    by (rule RunScript_container) (simp add: NewDynHandleArgs_def args_def)
  have "args \<noteq> []" by (simp add: args_def WrapArgs_not_empty)
  then have python: "RunPythonScript (at (port v)) \<lparr>RunType = ''dyn_handle'', Script = n, ReqArgs = args\<rparr>
    = (if exists_file (at (port v)) path then (case python (at (port v)) path args of (stdout, stderr, err) \<Rightarrow>
         if err \<noteq> None then (stderr, err) else (ReplaceQuotes (TrimSpace stdout), None))
       else ('''', Some (GoError (''script: '' @ path @ '' not exists''))))"
    using assms(8,11) by (simp add: RunPythonScript_def path_def Let_def)
  obtain r where "noroute be plib lib (container_http at) s req = map_option (\<lambda>(w, h). (s\<lparr>mrts := r, crew := w\<rparr>, h))
      (handleDynamicRouteRequest lib (container_http at) (crew s) req (route_of (uri req) (Dynamic n)))"
    using noroute_live [OF assms(1), where req = req] assms(2) by fastforce
  then show ?thesis
    using borrow ret run assms(7) python
    by (auto simp: handleDynamicRouteRequest_def FS_DYN_HANDLE_DIR_def told_def split: prod.splits option.splits)
qed

lemma dynamic_served_witness:
  "let c = \<lparr>coderun_root = Inr ''/opt'', exists_file = (\<lambda>_. True), dump = (\<lambda>_. None),
       python = (\<lambda>p args. (''hello'' @ [newline], '''', None))\<rparr> :: unit container;
     s = \<lparr>mrts = \<lparr>coll = [route_of ''/d'' (Dynamic ''f.py'')], cache = [(''/d'', route_of ''/d'' (Dynamic ''f.py''))]\<rparr>,
          crew = blank_watcher\<lparr>WorkerCnt := 1, workers := [\<lparr>port = ''1'', cId = ''''\<rparr>]\<rparr>\<rparr>
   in map_option snd (noroute (mem_backend (same_key Path) 1) demo_plib mem_docker (container_http (\<lambda>_. c)) s (demo_get ''/d'' ''''))
     = Some (Replies [text_json 200 ''hello''])"
proof -
  let ?c = "\<lparr>coderun_root = Inr ''/opt'', exists_file = (\<lambda>_. True), dump = (\<lambda>_. None),
       python = (\<lambda>p args. (''hello'' @ [newline], '''', None))\<rparr> :: unit container"
  let ?s = "\<lparr>mrts = \<lparr>coll = [route_of ''/d'' (Dynamic ''f.py'')], cache = [(''/d'', route_of ''/d'' (Dynamic ''f.py''))]\<rparr>,
          crew = blank_watcher\<lparr>WorkerCnt := 1, workers := [\<lparr>port = ''1'', cId = ''''\<rparr>]\<rparr>\<rparr>"
  let ?g = "demo_get ''/d'' ''''"
  have live: "endpoints_live (mem_backend (same_key Path) 1) mem_docs map_of (mrts ?s)"
    using mem_one_live [of 1 "''/d''" "Dynamic ''f.py''"] by simp
  have at: "endpoints mem_docs (mrts ?s) (uri ?g) = Some (Dynamic ''f.py'')"
    by (simp add: endpoints_def table_def demo_get_def del: route_of.simps)
  have told: "told (''hello'' @ [newline], '''', None) = (''hello'', None)" by code_simp
  obtain info where info: "InspectWorkerContainer mem_docker (dp (crew ?s)) '''' = Inr info" "isRunning info"
    by (simp add: mem_docker_def)
  have run: "\<exists>t. noroute (mem_backend (same_key Path) 1) demo_plib mem_docker (container_http (\<lambda>_. ?c)) ?s ?g
      = Some (t, Replies [text_json 200 ''hello''])"
    using dynamic_served [OF live at, where v = "\<lparr>port = ''1'', cId = ''''\<rparr>" and vs = "[]" and lib = mem_docker and info = info
        and b = "''''" and at = "\<lambda>_. ?c" and root = "''/opt''" and plib = demo_plib] info told
    by (auto simp: roomy_def blank_watcher_def demo_get_def)
  then show ?thesis by (auto simp: Let_def)
qed

end
