(* ===== verification/BrokersApi.thy ===== *)
theory BrokersApi
  imports Esb Http
begin

text \<open>
  The handlers of \<open>pool_brokers_api.go\<close> and \<open>esb_brokers_api.go\<close> in \<open>internal/server\<close>, and their
  place in the router.  \<open>Schedule\<close> hands a task to the scheduler: the state keeps the tasks in the
  order they were handed over.
\<close>

datatype scheduled = ReadTask pool | WriteTask pool "string list"

record ('w, 'c, 'h, 'e, 'g, 'm) brokers_srv =
  breg :: "('w, 'c, 'h) registry"
  besb :: "('e, 'g) esbRecords"
  bdisk :: fsys
  tlog :: 'm
  handed :: "scheduled list"

text \<open>What lies around the handlers: the two stores, the log of the tasks, the brokers, the environment
  and the disk.\<close>

record ('w, 'c, 'h, 'e, 'g, 'm) brokers_env =
  pool_be :: "('c, 'h, MessagePool) backend"
  esb_be :: "('e, 'g, ESBRecord) backend"
  task_db :: "('m, TaskMessage) coll_driver"
  blib :: "'w broker_lib"
  benv :: env
  bsys :: os
  bfs :: FileStorage

type_synonym ('w, 'c, 'h, 'e, 'g, 'm) brokers_step = "('w, 'c, 'h, 'e, 'g, 'm) brokers_srv \<times> handled"

section \<open>Pools\<close>

text \<open>The JSON of \<open>protocol.MessagePool\<close>, empty queue and topic left out.\<close>

definition poolreq_json :: "PoolRequest \<Rightarrow> json" where
  "poolreq_json p = JObj ((''pool_name'', JStr (pr_name p)) #
     (if pr_queue p = '''' then [] else [(''queue_name'', JStr (pr_queue p))]) @
     (if pr_topic p = '''' then [] else [(''topic_name'', JStr (pr_topic p))]) @
     [(''broker'', JStr (pr_broker p))])"

text \<open>The loop over the rows; a row of another broker is answered at once and the loop goes on.\<close>

fun list_pools :: "MessagePool list \<Rightarrow> reply list \<times> PoolRequest list" where
  "list_pools [] = ([], [])"
| "list_pools (pool # rest) = (case list_pools rest of (rs, ps) \<Rightarrow>
     if dbBroker pool = ''rabbitmq'' then
       (rs, \<lparr>pr_name = dbName pool, pr_queue = dbQueue pool, pr_topic = '''', pr_broker = ''rabbitmq''\<rparr> # ps)
     else if dbBroker pool = ''kafka'' then
       (rs, \<lparr>pr_name = dbName pool, pr_queue = '''', pr_topic = dbQueue pool, pr_broker = ''kafka''\<rparr> # ps)
     else (err_json 500 ''Database inconsistency found'' # rs, ps))"

definition pool_list :: "('w, 'c, 'h, 'e, 'g, 'm) brokers_env \<Rightarrow> ('w, 'c, 'h, 'e, 'g, 'm) brokers_srv
    \<Rightarrow> ('w, 'c, 'h, 'e, 'g, 'm) brokers_step" where
  "pool_list E s = (s, Replies (case listMessagePools (pool_be E) (pools (breg s)) of
     Inl err \<Rightarrow> [err_json 500 (Error err)]
   | Inr ps \<Rightarrow> (case list_pools ps of (rs, respPools) \<Rightarrow>
       rs @ [JSON 200 (JObj [(''pools'', JArr (map poolreq_json respPools))])])))"

text \<open>The answer to an error of \<open>GetMessagePool\<close>.\<close>

definition no_pool_reply :: "go_error \<Rightarrow> reply" where
  "no_pool_reply err = (if err = ErrNoSuchPool then err_json 404 ''No such pool'' else err_json 500 (Error err))"

definition pool_config :: "('w, 'c, 'h, 'e, 'g, 'm) brokers_env \<Rightarrow> ('w, 'c, 'h, 'e, 'g, 'm) brokers_srv
    \<Rightarrow> request \<Rightarrow> ('w, 'c, 'h, 'e, 'g, 'm) brokers_step" where
  "pool_config E s req =
     (let poolName = query req ''pool'' in
      if poolName = '''' then (s, Replies [err_json 400 ''specify pool param''])
      else
        let (r, res) = GetMessagePool (pool_be E) (breg s) poolName; s = s\<lparr>breg := r\<rparr> in
        (s, Replies [case res of
           Inl err \<Rightarrow> no_pool_reply err
         | Inr p \<Rightarrow> JSON 200 (config_json p)]))"

definition pool_read_messages :: "('w, 'c, 'h, 'e, 'g, 'm) brokers_env \<Rightarrow> ('w, 'c, 'h, 'e, 'g, 'm) brokers_srv
    \<Rightarrow> request \<Rightarrow> ('w, 'c, 'h, 'e, 'g, 'm) brokers_step" where
  "pool_read_messages E s req =
     (let poolName = query req ''pool'' in
      if poolName = '''' then (s, Replies [err_json 400 ''specify pool param''])
      else
        let (p, res) = getMessagePool (pool_be E) (pools (breg s)) poolName;
            s = s\<lparr>breg := (breg s)\<lparr>pools := p\<rparr>\<rparr> in
        (s, Replies [case res of
           Inl err \<Rightarrow> no_pool_reply err
         | Inr row \<Rightarrow> (case GetMessagePoolReadMessages (task_db E) (tlog s) row of
             Inl err \<Rightarrow> err_json 500 (Error err)
           | Inr ms \<Rightarrow> JSON 200 (JObj [(''messages'', JArr (map JStr ms))]))]))"

definition pool_write_messages :: "('w, 'c, 'h, 'e, 'g, 'm) brokers_env \<Rightarrow> ('w, 'c, 'h, 'e, 'g, 'm) brokers_srv
    \<Rightarrow> request \<Rightarrow> ('w, 'c, 'h, 'e, 'g, 'm) brokers_step" where
  "pool_write_messages E s req =
     (let poolName = query req ''pool'' in
      if poolName = '''' then (s, Replies [err_json 400 ''specify pool param''])
      else
        let (p, res) = getMessagePool (pool_be E) (pools (breg s)) poolName;
            s = s\<lparr>breg := (breg s)\<lparr>pools := p\<rparr>\<rparr> in
        (s, Replies [case res of
           Inl err \<Rightarrow> no_pool_reply err
         | Inr row \<Rightarrow> (case GetMessagePoolWriteMessages (task_db E) (tlog s) row of
             Inl err \<Rightarrow> err_json 500 (Error err)
           | Inr ms \<Rightarrow> JSON 200 (JObj [(''messages'', JArr (map JStr ms))]))]))"

definition pool_start_read :: "('w, 'c, 'h, 'e, 'g, 'm) brokers_env \<Rightarrow> ('w, 'c, 'h, 'e, 'g, 'm) brokers_srv
    \<Rightarrow> request \<Rightarrow> ('w, 'c, 'h, 'e, 'g, 'm) brokers_step" where
  "pool_start_read E s req =
     (let poolName = query req ''pool'' in
      if poolName = '''' then (s, Replies [err_json 400 ''specify pool param''])
      else
        let (r, res) = GetMessagePool (pool_be E) (breg s) poolName; s = s\<lparr>breg := r\<rparr> in
        case res of
          Inl err \<Rightarrow> (s, Replies [no_pool_reply err])
        | Inr p \<Rightarrow> (s\<lparr>handed := handed s @ [ReadTask p]\<rparr>,
            Replies [text_json 204 ''Read tasks successfully scheduled'']))"

definition pool_start_write :: "('w, 'c, 'h, 'e, 'g, 'm) brokers_env \<Rightarrow> ('w, 'c, 'h, 'e, 'g, 'm) brokers_srv
    \<Rightarrow> request \<Rightarrow> ('w, 'c, 'h, 'e, 'g, 'm) brokers_step" where
  "pool_start_write E s req = (case BindTask req of
     Inl err \<Rightarrow> (s, Replies [err_json 400 (Error err)])
   | Inr task \<Rightarrow>
       let (r, res) = GetMessagePool (pool_be E) (breg s) (bt_pool task); s = s\<lparr>breg := r\<rparr> in
       case res of
         Inl err \<Rightarrow> (s, Replies [no_pool_reply err])
       | Inr p \<Rightarrow> (s\<lparr>handed := handed s @ [WriteTask p (the (bt_msgs task))]\<rparr>,
           Replies [text_json 204 ''Write tasks successfully scheduled'']))"

definition pool_post :: "('w, 'c, 'h, 'e, 'g, 'm) brokers_env \<Rightarrow> ('w, 'c, 'h, 'e, 'g, 'm) brokers_srv
    \<Rightarrow> request \<Rightarrow> ('w, 'c, 'h, 'e, 'g, 'm) brokers_step" where
  "pool_post E s req = (case BindPool req of
     Inl err \<Rightarrow> (s, Replies [err_json 400 (Error err)])
   | Inr mp \<Rightarrow>
       let checked = (if pr_broker mp = ''rabbitmq'' then
             (if pr_queue mp = '''' then Inl (err_json 400 ''queue_name field required for rabbitmq pool'')
              else Inr (RabbitMQPool (NewRabbitMQMessagePool (pr_name mp) (pr_queue mp))))
           else if pr_broker mp = ''kafka'' then
             (if pr_topic mp = '''' then Inl (err_json 400 ''topic_name field required for kafka pool'')
              else Inr (KafkaPool (NewKafkaMessagePool (pr_name mp) (pr_topic mp))))
           else Inl (err_json 400 ''Such pool is unsupported'')) in
       case checked of
         Inl reply \<Rightarrow> (s, Replies [reply])
       | Inr p \<Rightarrow>
           let (r, _, err) = AddMessagePool (pool_be E) (blib E) (benv E) (breg s) p; s = s\<lparr>breg := r\<rparr> in
           (s, Replies [case err of
              None \<Rightarrow> text_json 200 ''Message pool successfully created!''
            | Some e \<Rightarrow> if e = ErrDuplicateKey then err_json 409 ''The same message pool already exists''
                else err_json 500 (Error e)]))"

definition pool_delete :: "('w, 'c, 'h, 'e, 'g, 'm) brokers_env \<Rightarrow> ('w, 'c, 'h, 'e, 'g, 'm) brokers_srv
    \<Rightarrow> request \<Rightarrow> ('w, 'c, 'h, 'e, 'g, 'm) brokers_step" where
  "pool_delete E s req =
     (let poolName = query req ''pool'' in
      if poolName = '''' then (s, Replies [err_json 400 ''specify pool param''])
      else
        let (r, err) = RemoveMessagePool (pool_be E) (blib E) (benv E) (breg s) poolName; s = s\<lparr>breg := r\<rparr> in
        (s, Replies [case err of
           Some err \<Rightarrow> err_json 500 (Error err)
         | None \<Rightarrow> text_json 204 ''Message pool successfully removed'']))"

section \<open>Records between pools\<close>

definition esbrec_json :: "ESBRecord \<Rightarrow> json" where
  "esbrec_json r = JObj [(''pool_name_in'', JStr (PoolNameIn r)), (''pool_name_out'', JStr (PoolNameOut r))]"

definition esb_list :: "('w, 'c, 'h, 'e, 'g, 'm) brokers_env \<Rightarrow> ('w, 'c, 'h, 'e, 'g, 'm) brokers_srv
    \<Rightarrow> ('w, 'c, 'h, 'e, 'g, 'm) brokers_step" where
  "esb_list E s = (s, Replies [case listESBRecords (esb_be E) (besb s) of
     Inl err \<Rightarrow> err_json 500 (Error err)
   | Inr esbRecords \<Rightarrow> JSON 200 (JObj [(''records'', JArr (map esbrec_json esbRecords))])])"

definition esb_code :: "('w, 'c, 'h, 'e, 'g, 'm) brokers_env \<Rightarrow> ('w, 'c, 'h, 'e, 'g, 'm) brokers_srv
    \<Rightarrow> request \<Rightarrow> ('w, 'c, 'h, 'e, 'g, 'm) brokers_step" where
  "esb_code E s req =
     (let poolInName = query req ''pool_in'' in
      if poolInName = '''' then (s, Replies [err_json 400 ''specify pool param''])
      else
        let (b, res) = GetEsbRecord (esb_be E) (besb s) poolInName; s = s\<lparr>besb := b\<rparr> in
        case res of
          Inl err \<Rightarrow> (s, Replies [if err = ErrNoSuchRecord then err_json 404 ''Such record was not created before''
             else err_json 500 (Error err)])
        | Inr esbRecord \<Rightarrow>
            if MapperScriptName esbRecord = EMPTY_MAPPER
            then (s, Replies [err_json 400 ''Such record does not have mapper code''])
            else (case fs_Read (bsys E) (bfs E) (bdisk s) FS_ESB_DIR (MapperScriptName esbRecord) of
                Inl err \<Rightarrow> (s, Replies [err_json 500 (Error err)])
              | Inr code \<Rightarrow> (case UnwrapCodeForEsb code of
                  Panic m \<Rightarrow> (s, Panics m)
                | Return code \<Rightarrow> (s, Replies [text_json 200 code]))))"

text \<open>The reply to the outcome of \<open>AddEsbRecord\<close>, with or without a mapper.\<close>

definition esb_added :: "go_error option \<Rightarrow> reply" where
  "esb_added err = (case err of
     None \<Rightarrow> text_json 200 ''Esb record successfully added!''
   | Some e \<Rightarrow> if e = ErrDuplicateKey then err_json 409 ''Esb record with the same in-pool already exists''
       else err_json 500 (Error e))"

definition esb_post :: "('w, 'c, 'h, 'e, 'g, 'm) brokers_env \<Rightarrow> string \<Rightarrow> ('w, 'c, 'h, 'e, 'g, 'm) brokers_srv
    \<Rightarrow> request \<Rightarrow> ('w, 'c, 'h, 'e, 'g, 'm) brokers_step" where
  "esb_post E now s req = (case BindEsb req of
     Inl err \<Rightarrow> (s, Replies [err_json 400 (Error err)])
   | Inr rec \<Rightarrow>
       if er_code rec = '''' then
         let (b, err) = AddEsbRecord (esb_be E) (besb s) (er_in rec) (er_out rec) in
         (s\<lparr>besb := b\<rparr>, Replies [esb_added err])
       else
         let scriptName = GenUniqueFilename now ''py'';
             (d, err) = fs_Write (bsys E) (bfs E) (bdisk s) FS_ESB_DIR scriptName (WrapCodeForEsb (er_code rec));
             s = s\<lparr>bdisk := d\<rparr> in
         case err of
           Some err \<Rightarrow> (s, Replies [err_json 500 (Error err)])
         | None \<Rightarrow>
             let (b, err) = AddEsbRecordWithMapper (esb_be E) (besb s) (er_in rec) (er_out rec) scriptName in
             (s\<lparr>besb := b\<rparr>, Replies [esb_added err]))"

definition esb_start :: "('w, 'c, 'h, 'e, 'g, 'm) brokers_env \<Rightarrow> ('w, 'c, 'h, 'e, 'g, 'm) brokers_srv
    \<Rightarrow> request \<Rightarrow> ('w, 'c, 'h, 'e, 'g, 'm) brokers_step" where
  "esb_start E s req = (case BindTask req of
     Inl err \<Rightarrow> (s, Replies [err_json 400 (Error err)])
   | Inr task \<Rightarrow>
       let (r, res) = GetMessagePool (pool_be E) (breg s) (bt_pool task); s = s\<lparr>breg := r\<rparr> in
       case res of
         Inl err \<Rightarrow> (s, Replies [no_pool_reply err])
       | Inr p \<Rightarrow> (s\<lparr>handed := handed s @ [WriteTask p (the (bt_msgs task)), ReadTask p]\<rparr>,
           Replies [text_json 204 ''Task successfully submited to esb pair in-pool'']))"

definition esb_delete :: "('w, 'c, 'h, 'e, 'g, 'm) brokers_env \<Rightarrow> ('w, 'c, 'h, 'e, 'g, 'm) brokers_srv
    \<Rightarrow> request \<Rightarrow> ('w, 'c, 'h, 'e, 'g, 'm) brokers_step" where
  "esb_delete E s req =
     (let poolInName = query req ''pool_in'' in
      if poolInName = '''' then (s, Replies [err_json 400 ''specify pool param''])
      else
        let (b, err) = RemoveEsbRecord (esb_be E) (besb s) poolInName; s = s\<lparr>besb := b\<rparr> in
        (s, Replies [case err of
           None \<Rightarrow> text_json 204 ''Esb record successfully removed''
         | Some e \<Rightarrow> if e = ErrNoSuchRecord then text_json 404 ''No such esb record was created before''
             else err_json 500 (Error e)]))"

section \<open>The router\<close>

definition brokers_handler :: "('w, 'c, 'h, 'e, 'g, 'm) brokers_env \<Rightarrow> string \<Rightarrow> ('w, 'c, 'h, 'e, 'g, 'm) brokers_srv
    \<Rightarrow> request \<Rightarrow> ('w, 'c, 'h, 'e, 'g, 'm) brokers_step option" where
  "brokers_handler E now s req =
     (if url_path req = ''/api/brokers/pool'' then
        (if meth req = ''GET'' then Some (pool_list E s)
         else if meth req = ''POST'' then Some (pool_post E s req)
         else if meth req = ''DELETE'' then Some (pool_delete E s req) else None)
      else if url_path req = ''/api/brokers/pool/config'' then
        (if meth req = ''GET'' then Some (pool_config E s req) else None)
      else if url_path req = ''/api/brokers/pool/read'' then
        (if meth req = ''GET'' then Some (pool_read_messages E s req)
         else if meth req = ''POST'' then Some (pool_start_read E s req) else None)
      else if url_path req = ''/api/brokers/pool/write'' then
        (if meth req = ''GET'' then Some (pool_write_messages E s req)
         else if meth req = ''POST'' then Some (pool_start_write E s req) else None)
      else if url_path req = ''/api/brokers/esb'' then
        (if meth req = ''GET'' then Some (esb_list E s)
         else if meth req = ''POST'' then Some (esb_post E now s req)
         else if meth req = ''DELETE'' then Some (esb_delete E s req) else None)
      else if url_path req = ''/api/brokers/esb/code'' then
        (if meth req = ''GET'' then Some (esb_code E s req) else None)
      else if url_path req = ''/api/brokers/esb/task'' then
        (if meth req = ''POST'' then Some (esb_start E s req) else None)
      else None)"

definition brokers_api :: "('w, 'c, 'h, 'e, 'g, 'm) brokers_env \<Rightarrow> string \<Rightarrow> ('w, 'c, 'h, 'e, 'g, 'm) brokers_srv
    \<Rightarrow> request \<Rightarrow> ('w, 'c, 'h, 'e, 'g, 'm) brokers_step option" where
  "brokers_api E now s req = map_option Recovery (brokers_handler E now s req)"

section \<open>What the API promises\<close>

text \<open>
  The command a request stands for; a request that is refused (a body that does not bind, a field or a
  parameter that is missing) is \<open>Refused\<close> with the text it is refused with.
\<close>

datatype brokers_cmd = Refused string | Pools | Config string | ReadLog string | WriteLog string
  | AddPool pool | DropPool string | Links | Mapper string | Link ESBRecord string | Unlink string
  | StartRead string | StartWrite string "string list" | StartBoth string "string list"

definition pool_cmd :: "request \<Rightarrow> brokers_cmd" where
  "pool_cmd req = (case BindPool req of
     Inl err \<Rightarrow> Refused (Error err)
   | Inr mp \<Rightarrow>
       if pr_broker mp = ''rabbitmq'' then
         (if pr_queue mp = '''' then Refused ''queue_name field required for rabbitmq pool''
          else AddPool (RabbitMQPool (NewRabbitMQMessagePool (pr_name mp) (pr_queue mp))))
       else if pr_broker mp = ''kafka'' then
         (if pr_topic mp = '''' then Refused ''topic_name field required for kafka pool''
          else AddPool (KafkaPool (NewKafkaMessagePool (pr_name mp) (pr_topic mp))))
       else Refused ''Such pool is unsupported'')"

definition link_cmd :: "string \<Rightarrow> request \<Rightarrow> brokers_cmd" where
  "link_cmd now req = (case BindEsb req of
     Inl err \<Rightarrow> Refused (Error err)
   | Inr rec \<Rightarrow> Link \<lparr>PoolNameIn = er_in rec, PoolNameOut = er_out rec,
       MapperScriptName = (if er_code rec = '''' then EMPTY_MAPPER else GenUniqueFilename now ''py'')\<rparr> (er_code rec))"

definition task_cmd :: "(string \<Rightarrow> string list \<Rightarrow> brokers_cmd) \<Rightarrow> request \<Rightarrow> brokers_cmd" where
  "task_cmd start req = (case BindTask req of
     Inl err \<Rightarrow> Refused (Error err)
   | Inr task \<Rightarrow> start (bt_pool task) (the (bt_msgs task)))"

definition named :: "(string \<Rightarrow> brokers_cmd) \<Rightarrow> string \<Rightarrow> brokers_cmd" where
  "named c name = (if name = '''' then Refused ''specify pool param'' else c name)"

definition brokers_cmd_of :: "string \<Rightarrow> request \<Rightarrow> brokers_cmd" where
  "brokers_cmd_of now req =
     (if url_path req = ''/api/brokers/pool'' then
        (if meth req = ''POST'' then pool_cmd req
         else if meth req = ''DELETE'' then named DropPool (query req ''pool'') else Pools)
      else if url_path req = ''/api/brokers/pool/config'' then named Config (query req ''pool'')
      else if url_path req = ''/api/brokers/pool/read'' then
        (if meth req = ''POST'' then named StartRead (query req ''pool'') else named ReadLog (query req ''pool''))
      else if url_path req = ''/api/brokers/pool/write'' then
        (if meth req = ''POST'' then task_cmd StartWrite req else named WriteLog (query req ''pool''))
      else if url_path req = ''/api/brokers/esb'' then
        (if meth req = ''POST'' then link_cmd now req
         else if meth req = ''DELETE'' then named Unlink (query req ''pool_in'') else Links)
      else if url_path req = ''/api/brokers/esb/code'' then named Mapper (query req ''pool_in'')
      else task_cmd StartBoth req)"

text \<open>
  The abstract state: the rows of the pools, the records between pools, the tasks handed to the scheduler
  and the disk.  A listing has every row once; a pool is shown with its queue or its topic.
\<close>

type_synonym brokers_view = "(string \<Rightarrow> MessagePool option) \<times> (string \<Rightarrow> ESBRecord option) \<times> scheduled list \<times> fsys"

definition lists_all :: "('d \<Rightarrow> string) \<Rightarrow> (string \<Rightarrow> 'd option) \<Rightarrow> 'd list \<Rightarrow> bool" where
  "lists_all key P ds \<longleftrightarrow> distinct (map key ds) \<and> (\<forall>d. d \<in> set ds \<longleftrightarrow> P (key d) = Some d)"

definition known_row :: "MessagePool \<Rightarrow> bool" where
  "known_row row \<longleftrightarrow> dbBroker row = ''rabbitmq'' \<or> dbBroker row = ''kafka''"

definition row_json :: "MessagePool \<Rightarrow> json" where
  "row_json row = JObj ((''pool_name'', JStr (dbName row)) #
     (if dbQueue row = '''' then []
      else [(if dbBroker row = ''kafka'' then ''topic_name'' else ''queue_name'', JStr (dbQueue row))]) @
     [(''broker'', JStr (dbBroker row))])"

text \<open>Creating the endpoint of a pool fills in how to reach the broker, and nothing else.\<close>

fun same_pool :: "pool \<Rightarrow> pool \<Rightarrow> bool" where
  "same_pool (RabbitMQPool p) p2 \<longleftrightarrow> p2 = RabbitMQPool p"
| "same_pool (KafkaPool p) p2 \<longleftrightarrow> (\<exists>c. p2 = KafkaPool (p\<lparr>ktcfg := c\<rparr>))"

definition linked :: "bool \<Rightarrow> ESBRecord \<Rightarrow> brokers_view \<Rightarrow> reply list \<Rightarrow> brokers_view \<Rightarrow> bool" where
  "linked live r v rs v' \<longleftrightarrow> (case (v, v') of ((P, L, H, D), (P', L', H', D')) \<Rightarrow> P' = P \<and> H' = H \<and> D' = D \<and>
     (if L (PoolNameIn r) = None \<and> status (hd rs) = 200
      then (\<exists>x. rs = [text_json 200 x]) \<and> L' = L(PoolNameIn r \<mapsto> r)
      else L' = L \<and> ((\<exists>x. rs = [err_json 409 x]) \<and> L (PoolNameIn r) \<noteq> None \<or> failed live rs)))"

definition started :: "bool \<Rightarrow> (pool \<Rightarrow> scheduled list) \<Rightarrow> string \<Rightarrow> brokers_view \<Rightarrow> reply list \<Rightarrow> brokers_view \<Rightarrow> bool" where
  "started live ts k v rs v' \<longleftrightarrow> (case (v, v') of ((P, L, H, D), (P', L', H', D')) \<Rightarrow> P' = P \<and> L' = L \<and> D' = D \<and>
     (failed live rs \<and> H' = H \<or> (case Option.bind (P k) (\<lambda>row. Some (createFromDatabase row)) of
        None \<Rightarrow> H' = H \<and> (\<exists>x. rs = [err_json 404 x])
      | Some (Inl err) \<Rightarrow> H' = H \<and> rs = [no_pool_reply err]
      | Some (Inr p) \<Rightarrow> H' = H @ ts p \<and> (\<exists>x. rs = [text_json 204 x]))))"

fun brokers_effect :: "bool \<Rightarrow> bool \<Rightarrow> ('w, 'c, 'h, 'e, 'g, 'm) brokers_env \<Rightarrow> ('w, 'c, 'h, 'e, 'g, 'm) brokers_srv
    \<Rightarrow> brokers_view \<Rightarrow> brokers_cmd \<Rightarrow> reply list \<Rightarrow> brokers_view \<Rightarrow> bool" where
  "brokers_effect plive elive E s v (Refused msg) rs v' \<longleftrightarrow> v' = v \<and> rs = [err_json 400 msg]"
| "brokers_effect plive elive E s (P, L, H, D) Pools rs v' \<longleftrightarrow> v' = (P, L, H, D) \<and> (failed plive rs \<or>
     (\<exists>ms. lists_all dbName P ms \<and> rs = map (\<lambda>_. err_json 500 ''Database inconsistency found'') (filter (\<lambda>r. \<not> known_row r) ms) @
        [JSON 200 (JObj [(''pools'', JArr (map row_json (filter known_row ms)))])]))"
| "brokers_effect plive elive E s (P, L, H, D) (Config k) rs v' \<longleftrightarrow> v' = (P, L, H, D) \<and> (failed plive rs \<or>
     rs = [case P k of None \<Rightarrow> err_json 404 ''No such pool'' | Some row \<Rightarrow> (case createFromDatabase row of
        Inl err \<Rightarrow> no_pool_reply err | Inr p \<Rightarrow> JSON 200 (config_json p))])"
| "brokers_effect plive elive E s (P, L, H, D) (ReadLog k) rs v' \<longleftrightarrow> v' = (P, L, H, D) \<and> (failed plive rs \<or>
     rs = [case P k of None \<Rightarrow> err_json 404 ''No such pool'' | Some row \<Rightarrow>
        (case GetMessagePoolReadMessages (task_db E) (tlog s) row of
           Inl err \<Rightarrow> err_json 500 (Error err) | Inr ms \<Rightarrow> JSON 200 (JObj [(''messages'', JArr (map JStr ms))]))])"
| "brokers_effect plive elive E s (P, L, H, D) (WriteLog k) rs v' \<longleftrightarrow> v' = (P, L, H, D) \<and> (failed plive rs \<or>
     rs = [case P k of None \<Rightarrow> err_json 404 ''No such pool'' | Some row \<Rightarrow>
        (case GetMessagePoolWriteMessages (task_db E) (tlog s) row of
           Inl err \<Rightarrow> err_json 500 (Error err) | Inr ms \<Rightarrow> JSON 200 (JObj [(''messages'', JArr (map JStr ms))]))])"
| "brokers_effect plive elive E s (P, L, H, D) (AddPool p) rs (P', L', H', D') \<longleftrightarrow> L' = L \<and> H' = H \<and> D' = D \<and>
     (case CreateBrokerEndpoint (blib E) (benv E) (breg s) p of
        (_, _, Some err) \<Rightarrow> P' = P \<and> (\<exists>x. rs = [err_json 409 x] \<or> rs = [err_json 500 x])
      | (_, p', None) \<Rightarrow> same_pool p p' \<and>
          (if P (GetName p) = None \<and> status (hd rs) = 200
           then (\<exists>x. rs = [text_json 200 x]) \<and> P' = P(GetName p \<mapsto> row_of p')
           else P' = P \<and> ((\<exists>x. rs = [err_json 409 x]) \<and> P (GetName p) \<noteq> None \<or> failed plive rs)))"
| "brokers_effect plive elive E s (P, L, H, D) (DropPool k) rs (P', L', H', D') \<longleftrightarrow> L' = L \<and> H' = H \<and> D' = D \<and>
     (if status (hd rs) = 204 then (\<exists>x. rs = [text_json 204 x]) \<and> P k \<noteq> None \<and> P' = P(k := None)
      else P' = P \<and> (\<exists>x. rs = [err_json 500 x]) \<and> \<not> (plive \<and> (\<exists>row p. P k = Some row \<and> createFromDatabase row = Inr p \<and>
        snd (RemoveBrokerEndpoint (blib E) (benv E) (breg s) p) = None)))"
| "brokers_effect plive elive E s (P, L, H, D) Links rs v' \<longleftrightarrow> v' = (P, L, H, D) \<and> (failed elive rs \<or>
     (\<exists>ls. lists_all PoolNameIn L ls \<and> rs = [JSON 200 (JObj [(''records'', JArr (map esbrec_json ls))])]))"
| "brokers_effect plive elive E s (P, L, H, D) (Mapper k) rs v' \<longleftrightarrow> v' = (P, L, H, D) \<and> (failed elive rs \<or>
     (case L k of None \<Rightarrow> (\<exists>x. rs = [err_json 404 x]) | Some r \<Rightarrow>
        if MapperScriptName r = EMPTY_MAPPER then \<exists>x. rs = [err_json 400 x]
        else case fs_Read (bsys E) (bfs E) D FS_ESB_DIR (MapperScriptName r) of
          Inl err \<Rightarrow> rs = [err_json 500 (Error err)]
        | Inr file \<Rightarrow> (case UnwrapCodeForEsb file of
            Panic _ \<Rightarrow> rs = [Abort 500] | Return code \<Rightarrow> rs = [text_json 200 code])))"
| "brokers_effect plive elive E s (P, L, H, D) (Link r code) rs v' \<longleftrightarrow>
     (if code = '''' then linked elive r (P, L, H, D) rs v'
      else case fs_Write (bsys E) (bfs E) D FS_ESB_DIR (MapperScriptName r) (WrapCodeForEsb code) of
        (d, Some err) \<Rightarrow> v' = (P, L, H, d) \<and> rs = [err_json 500 (Error err)]
      | (d, None) \<Rightarrow> linked elive r (P, L, H, d) rs v')"
| "brokers_effect plive elive E s (P, L, H, D) (Unlink k) rs (P', L', H', D') \<longleftrightarrow> P' = P \<and> H' = H \<and> D' = D \<and>
     (if status (hd rs) = 204 then (\<exists>x. rs = [text_json 204 x]) \<and> L' = L(k := None) else L' = L \<and> failed elive rs)"
| "brokers_effect plive elive E s v (StartRead k) rs v' \<longleftrightarrow> started plive (\<lambda>p. [ReadTask p]) k v rs v'"
| "brokers_effect plive elive E s v (StartWrite k ms) rs v' \<longleftrightarrow> started plive (\<lambda>p. [WriteTask p ms]) k v rs v'"
| "brokers_effect plive elive E s v (StartBoth k ms) rs v' \<longleftrightarrow> started plive (\<lambda>p. [WriteTask p ms, ReadTask p]) k v rs v'"

text \<open>How the stores are observed.\<close>

record ('c, 'h, 'e, 'g) brokers_obs =
  pool_docs :: "'c \<Rightarrow> MessagePool list"
  pool_entry :: "'h \<Rightarrow> string \<Rightarrow> MessagePool option"
  esb_docs :: "'e \<Rightarrow> ESBRecord list"
  esb_entry :: "'g \<Rightarrow> string \<Rightarrow> ESBRecord option"

definition brokers_inv :: "('w, 'c, 'h, 'e, 'g, 'm) brokers_env \<Rightarrow> ('c, 'h, 'e, 'g) brokers_obs
    \<Rightarrow> ('w, 'c, 'h, 'e, 'g, 'm) brokers_srv \<Rightarrow> bool" where
  "brokers_inv E obs s \<longleftrightarrow> pools_inv (pool_be E) (pool_docs obs) (pool_entry obs) (breg s) \<and>
     cached_inv (esb_be E) (=) PoolNameIn (esb_docs obs) (esb_entry obs) (besb s)"

definition brokers_view :: "('c, 'h, 'e, 'g) brokers_obs \<Rightarrow> ('w, 'c, 'h, 'e, 'g, 'm) brokers_srv \<Rightarrow> brokers_view" where
  "brokers_view obs s = (rows (pool_docs obs) (breg s), table PoolNameIn (esb_docs obs) (besb s), handed s, bdisk s)"

abbreviation pools_up :: "('w, 'c, 'h, 'e, 'g, 'm) brokers_env \<Rightarrow> ('c, 'h, 'e, 'g) brokers_obs \<Rightarrow> bool" where
  "pools_up E obs \<equiv> backend_live (pool_be E) (same_key dbName) (pool_docs obs)"

abbreviation links_up :: "('w, 'c, 'h, 'e, 'g, 'm) brokers_env \<Rightarrow> ('c, 'h, 'e, 'g) brokers_obs \<Rightarrow> bool" where
  "links_up E obs \<equiv> backend_live (esb_be E) (same_key PoolNameIn) (esb_docs obs)"

definition b_refines :: "('w, 'c, 'h, 'e, 'g, 'm) brokers_env \<Rightarrow> ('c, 'h, 'e, 'g) brokers_obs \<Rightarrow> brokers_cmd
    \<Rightarrow> ('w, 'c, 'h, 'e, 'g, 'm) brokers_srv \<Rightarrow> ('w, 'c, 'h, 'e, 'g, 'm) brokers_step \<Rightarrow> bool" where
  "b_refines E obs cmd s out \<longleftrightarrow> (case Recovery out of (s', h) \<Rightarrow> brokers_inv E obs s' \<and> tlog s' = tlog s \<and>
     (\<exists>rs. h = Replies rs \<and> rs \<noteq> [] \<and> brokers_effect (pools_up E obs) (links_up E obs) E s (brokers_view obs s) cmd rs
        (brokers_view obs s')))"

lemma b_refines_replies:
  "b_refines E obs cmd s (s', Replies rs) \<longleftrightarrow> brokers_inv E obs s' \<and> tlog s' = tlog s \<and> rs \<noteq> [] \<and>
     brokers_effect (pools_up E obs) (links_up E obs) E s (brokers_view obs s) cmd rs (brokers_view obs s')"
  by (simp add: b_refines_def)

lemma b_refines_panic:
  "b_refines E obs cmd s (s', Panics m) \<longleftrightarrow> brokers_inv E obs s' \<and> tlog s' = tlog s \<and>
     brokers_effect (pools_up E obs) (links_up E obs) E s (brokers_view obs s) cmd [Abort 500] (brokers_view obs s')"
  by (simp add: b_refines_def)

lemma refused_refines:
  "brokers_inv E obs s \<Longrightarrow> b_refines E obs (Refused msg) s (s, Replies [err_json 400 msg])"
  by (simp add: b_refines_replies)

section \<open>The pools\<close>

text \<open>A look-up of a row and of a pool.\<close>

lemma row_looked:
  assumes inv: "brokers_inv E obs s" and run: "getMessagePool (pool_be E) (pools (breg s)) name = (p, res)"
  shows "brokers_inv E obs (s\<lparr>breg := (breg s)\<lparr>pools := p\<rparr>, handed := hs\<rparr>)"
    and "brokers_view obs (s\<lparr>breg := (breg s)\<lparr>pools := p\<rparr>, handed := hs\<rparr>) =
      (rows (pool_docs obs) (breg s), table PoolNameIn (esb_docs obs) (besb s), hs, bdisk s)"
    and "res = (case rows (pool_docs obs) (breg s) name of None \<Rightarrow> Inl ErrNoSuchPool | Some row \<Rightarrow> Inr row) \<or>
      \<not> pools_up E obs \<and> (\<exists>err. res = Inl err \<and> err \<noteq> ErrNoSuchPool)"
proof -
  have c: "cached_inv (pool_be E) (=) dbName (pool_docs obs) (pool_entry obs) (pools (breg s))"
    using inv by (simp add: brokers_inv_def pools_inv_def)
  show "brokers_inv E obs (s\<lparr>breg := (breg s)\<lparr>pools := p\<rparr>, handed := hs\<rparr>)"
    using pool_store.get_inv [OF c run] inv by (simp add: brokers_inv_def pools_inv_def)
  show "brokers_view obs (s\<lparr>breg := (breg s)\<lparr>pools := p\<rparr>, handed := hs\<rparr>) =
      (rows (pool_docs obs) (breg s), table PoolNameIn (esb_docs obs) (besb s), hs, bdisk s)"
    using pool_store.get_tab [OF c run] by (simp add: brokers_view_def)
  show "res = (case rows (pool_docs obs) (breg s) name of None \<Rightarrow> Inl ErrNoSuchPool | Some row \<Rightarrow> Inr row) \<or>
      \<not> pools_up E obs \<and> (\<exists>err. res = Inl err \<and> err \<noteq> ErrNoSuchPool)"
  proof (cases "pools_up E obs")
    case True
    then have "live_inv (pool_be E) (=) dbName (pool_docs obs) (pool_entry obs) (pools (breg s))"
      using c by (simp add: live_inv_def)
    from live_pools.get_live [OF this, of name] run show ?thesis by (auto split: option.splits)
  next
    case False
    with pool_store.get_found [OF c, of name p] pool_store.get_missing [OF c, of name p] run show ?thesis
      by (cases res) auto
  qed
qed

lemma pool_looked:
  assumes inv: "brokers_inv E obs s" and run: "GetMessagePool (pool_be E) (breg s) name = (r, res)"
  shows "brokers_inv E obs (s\<lparr>breg := r, handed := hs\<rparr>)"
    and "brokers_view obs (s\<lparr>breg := r, handed := hs\<rparr>) =
      (rows (pool_docs obs) (breg s), table PoolNameIn (esb_docs obs) (besb s), hs, bdisk s)"
    and "res = (case rows (pool_docs obs) (breg s) name of None \<Rightarrow> Inl ErrNoSuchPool | Some row \<Rightarrow> createFromDatabase row) \<or>
      \<not> pools_up E obs \<and> (\<exists>err. res = Inl err \<and> err \<noteq> ErrNoSuchPool)"
proof -
  obtain p x where g: "getMessagePool (pool_be E) (pools (breg s)) name = (p, x)" by force
  have r: "r = (breg s)\<lparr>pools := p\<rparr>" and res: "res = (case x of Inl err \<Rightarrow> Inl err | Inr row \<Rightarrow> createFromDatabase row)"
    using run g by (auto simp: GetMessagePool_def Let_def split: sum.splits)
  note look = row_looked [OF inv g]
  show "brokers_inv E obs (s\<lparr>breg := r, handed := hs\<rparr>)"
    and "brokers_view obs (s\<lparr>breg := r, handed := hs\<rparr>) =
      (rows (pool_docs obs) (breg s), table PoolNameIn (esb_docs obs) (besb s), hs, bdisk s)"
    using look(1,2) by (simp_all add: r)
  show "res = (case rows (pool_docs obs) (breg s) name of None \<Rightarrow> Inl ErrNoSuchPool | Some row \<Rightarrow> createFromDatabase row) \<or>
      \<not> pools_up E obs \<and> (\<exists>err. res = Inl err \<and> err \<noteq> ErrNoSuchPool)"
    using look(3) by (auto simp: res split: option.splits)
qed

lemma no_pool_reply_simps [simp]:
  "no_pool_reply ErrNoSuchPool = err_json 404 ''No such pool''"
  "err \<noteq> ErrNoSuchPool \<Longrightarrow> no_pool_reply err = err_json 500 (Error err)"
  by (simp_all add: no_pool_reply_def)

lemma view_eq:
  "brokers_view obs s = (rows (pool_docs obs) (breg s), table PoolNameIn (esb_docs obs) (besb s), handed s, bdisk s)"
  by (simp add: brokers_view_def)

text \<open>A row that is there does not read as an unknown pool.\<close>

lemma createFromDatabase_error: "createFromDatabase row \<noteq> Inl ErrNoSuchPool"
  by (auto simp: createFromDatabase_def createKafkaPoolFromDatabase_def createRabbitMQPoolFromDatabase_def
      Unmarshal_def Let_def map_sum_def split: sum.splits option.splits prod.splits if_splits)

lemma started_refines:
  assumes inv: "brokers_inv E obs s" and run: "GetMessagePool (pool_be E) (breg s) k = (r, res)"
  shows "res = Inl err \<Longrightarrow> started (pools_up E obs) ts k (brokers_view obs s) [no_pool_reply err] (brokers_view obs (s\<lparr>breg := r\<rparr>))"
    and "res = Inr p \<Longrightarrow> started (pools_up E obs) ts k (brokers_view obs s) [text_json 204 x]
      (brokers_view obs (s\<lparr>breg := r, handed := handed s @ ts p\<rparr>))"
proof -
  note look = pool_looked [OF inv run]
  have same: "s\<lparr>breg := r, handed := handed s\<rparr> = s\<lparr>breg := r\<rparr>" by simp
  show "started (pools_up E obs) ts k (brokers_view obs s) [no_pool_reply err] (brokers_view obs (s\<lparr>breg := r\<rparr>))"
    if "res = Inl err"
    using look(2) [of "handed s"] look(3) that
    by (cases "rows (pool_docs obs) (breg s) k") (auto simp: same view_eq [of obs s] started_def failed_def
        eq_commute [of "Inl err" "createFromDatabase _"])
  show "started (pools_up E obs) ts k (brokers_view obs s) [text_json 204 x]
      (brokers_view obs (s\<lparr>breg := r, handed := handed s @ ts p\<rparr>))" if "res = Inr p"
    using look(2) [of "handed s @ ts p"] look(3) that
    by (cases "rows (pool_docs obs) (breg s) k") (auto simp: view_eq [of obs s] started_def
        eq_commute [of "Inr p" "createFromDatabase _"])
qed

lemma pool_start_refines:
  assumes inv: "brokers_inv E obs s"
  shows "b_refines E obs (named StartRead (query req ''pool'')) s (pool_start_read E s req)"
    and "b_refines E obs (task_cmd StartWrite req) s (pool_start_write E s req)"
    and "b_refines E obs (task_cmd StartBoth req) s (esb_start E s req)"
proof -
  note refused = refused_refines [OF inv]
  have keep: "brokers_inv E obs (s\<lparr>breg := r\<rparr>)" if "GetMessagePool (pool_be E) (breg s) k = (r, res)" for k r res
    using pool_looked(1) [OF inv that, of "handed s"] by simp
  show "b_refines E obs (named StartRead (query req ''pool'')) s (pool_start_read E s req)"
    using started_refines [OF inv, where ts = "\<lambda>p. [ReadTask p]"] pool_looked(1) [OF inv] keep refused
    by (auto simp: pool_start_read_def named_def b_refines_replies Let_def split: prod.split sum.split)
  show "b_refines E obs (task_cmd StartWrite req) s (pool_start_write E s req)"
    using started_refines [OF inv, where ts = "\<lambda>p. [WriteTask p ms]" for ms] pool_looked(1) [OF inv] keep refused
    by (auto simp: pool_start_write_def task_cmd_def b_refines_replies Let_def split: prod.split sum.split)
  show "b_refines E obs (task_cmd StartBoth req) s (esb_start E s req)"
    using started_refines [OF inv, where ts = "\<lambda>p. [WriteTask p ms, ReadTask p]" for ms] pool_looked(1) [OF inv] keep refused
    by (auto simp: esb_start_def task_cmd_def b_refines_replies Let_def split: prod.split sum.split)
qed

text \<open>The listing and the reads of one pool.\<close>

lemma list_pools_json:
  "list_pools ms = (rs, ps) \<Longrightarrow> rs = map (\<lambda>_. err_json 500 ''Database inconsistency found'') (filter (\<lambda>r. \<not> known_row r) ms) \<and>
     map poolreq_json ps = map row_json (filter known_row ms)"
  by (induction ms arbitrary: rs ps rule: list_pools.induct)
    (auto simp: known_row_def poolreq_json_def row_json_def split: prod.splits if_splits)

lemma lists_all_docs:
  assumes "cached_inv be (=) key docs entry st" and "FindAll (mdb be) (coll st) (\<lambda>_. True) = Inr ds"
  shows "lists_all key (table key docs st) ds"
proof -
  note laws = backend_okD [OF cached_invD(1) [OF assms(1)]] and uniq = cached_invD(2) [OF assms(1)]
  have "mset ds = mset (docs (coll st))" using FindAll_ok [OF laws(5) assms(2)] by simp
  then have "mset (map key ds) = mset (map key (docs (coll st)))" and "set ds = set (docs (coll st))"
    by (metis mset_map, metis set_mset_mset)
  with uniq show ?thesis
    unfolding lists_all_def table_def by (metis lookup_by_Some mset_eq_imp_distinct_iff)
qed

lemma pool_look_refines:
  assumes inv: "brokers_inv E obs s"
  shows "b_refines E obs Pools s (pool_list E s)"
    and "b_refines E obs (named Config (query req ''pool'')) s (pool_config E s req)"
    and "b_refines E obs (named ReadLog (query req ''pool'')) s (pool_read_messages E s req)"
    and "b_refines E obs (named WriteLog (query req ''pool'')) s (pool_write_messages E s req)"
proof -
  note refused = refused_refines [OF inv]
  have c: "cached_inv (pool_be E) (=) dbName (pool_docs obs) (pool_entry obs) (pools (breg s))"
    using inv by (simp add: brokers_inv_def pools_inv_def)
  show "b_refines E obs Pools s (pool_list E s)"
  proof (cases "listMessagePools (pool_be E) (pools (breg s))")
    case (Inl err)
    then have "\<not> pools_up E obs" using FindAll_live [of "pool_be E"] by (auto simp: listMessagePools_def) (metis isl_def)
    with inv Inl show ?thesis by (auto simp: pool_list_def b_refines_replies view_eq failed_def)
  next
    case (Inr ms)
    obtain rs ps where l: "list_pools ms = (rs, ps)" by force
    have "lists_all dbName (rows (pool_docs obs) (breg s)) ms"
      using lists_all_docs [OF c] Inr by (simp add: listMessagePools_def)
    with inv Inr l list_pools_json [OF l] show ?thesis
      by (auto simp: pool_list_def b_refines_replies view_eq)
  qed
  show "b_refines E obs (named Config (query req ''pool'')) s (pool_config E s req)"
  proof (cases "query req ''pool'' = ''''")
    case False
    obtain r res where g: "GetMessagePool (pool_be E) (breg s) (query req ''pool'') = (r, res)" by force
    note look = pool_looked(1,2) [OF inv g, where hs = "handed s"] pool_looked(3) [OF inv g]
    from look g False show ?thesis
      by (cases "rows (pool_docs obs) (breg s) (query req ''pool'')")
        (auto simp: pool_config_def named_def b_refines_replies view_eq [of obs s] failed_def split: sum.split)
  qed (simp add: pool_config_def named_def refused)
  obtain p res where g: "getMessagePool (pool_be E) (pools (breg s)) (query req ''pool'') = (p, res)" by force
  note look = row_looked(1,2) [OF inv g, where hs = "handed s"] row_looked(3) [OF inv g]
  show "b_refines E obs (named ReadLog (query req ''pool'')) s (pool_read_messages E s req)"
    using look g refused
    by (cases "rows (pool_docs obs) (breg s) (query req ''pool'')")
      (auto simp: pool_read_messages_def named_def b_refines_replies view_eq [of obs s] failed_def Let_def)
  show "b_refines E obs (named WriteLog (query req ''pool'')) s (pool_write_messages E s req)"
    using look g refused
    by (cases "rows (pool_docs obs) (breg s) (query req ''pool'')")
      (auto simp: pool_write_messages_def named_def b_refines_replies view_eq [of obs s] failed_def Let_def)
qed


text \<open>Adding and removing a pool.\<close>

lemma CreateBrokerEndpoint_same: "CreateBrokerEndpoint lib env r p = (r', p', None) \<Longrightarrow> same_pool p p'"
  by (cases p) (auto simp: kCreateBrokerEndpoint_def Let_def split: prod.splits sum.splits option.splits)

lemma add_pool_refines:
  assumes inv: "brokers_inv E obs s"
    and run: "AddMessagePool (pool_be E) (blib E) (benv E) (breg s) p = (r, mp, err)"
  shows "b_refines E obs (AddPool p) s (s\<lparr>breg := r\<rparr>, Replies [case err of
      None \<Rightarrow> text_json 200 x
    | Some e \<Rightarrow> if e = ErrDuplicateKey then err_json 409 y else err_json 500 (Error e)])"
proof -
  have pinv: "pools_inv (pool_be E) (pool_docs obs) (pool_entry obs) (breg s)"
    using inv by (simp add: brokers_inv_def)
  then have c: "cached_inv (pool_be E) (=) dbName (pool_docs obs) (pool_entry obs) (pools (breg s))"
    by (simp add: pools_inv_def)
  note add = AddMessagePool_rows [OF pinv run]
  have keep: "brokers_inv E obs (s\<lparr>breg := r\<rparr>)" using inv add(1) by (simp add: brokers_inv_def)
  obtain s1 p' e where cr: "CreateBrokerEndpoint (blib E) (benv E) (breg s) p = (s1, p', e)" by (rule prod_cases3)
  note ends = CreateBrokerEndpoint_pools [OF cr]
  show ?thesis
  proof (cases e)
    case (Some x)
    with run cr have "err = Some x" by (simp add: AddMessagePool_def)
    with Some cr add(3) keep show ?thesis by (auto simp: b_refines_replies view_eq)
  next
    case None
    obtain t e2 where a: "addMessagePool (pool_be E) (pools (breg s)) (row_of p') = (t, e2)" by force
    have err: "err = e2" and r: "r = s1\<lparr>pools := t\<rparr>"
      using run cr None a ends(1) by (auto simp: AddMessagePool_def row_of_def Let_def)
    have same: "same_pool p p'" by (rule CreateBrokerEndpoint_same [OF cr [unfolded None]])
    have name: "dbName (row_of p') = GetName p" using ends(2) by (simp add: row_of_def)
    have live: "e2 = None \<or> e2 = Some ErrDuplicateKey" if "pools_up E obs"
    proof -
      have "live_inv (pool_be E) (=) dbName (pool_docs obs) (pool_entry obs) (pools (breg s))"
        using c that by (simp add: live_inv_def)
      from live_pools.add_live [OF this, of "row_of p'"] a show ?thesis by (auto split: if_splits)
    qed
    show ?thesis
    proof (cases e2)
      case None
      with pool_store.add_done [OF c, of "row_of p'" t] a name keep cr same \<open>e = None\<close> show ?thesis
        by (auto simp: b_refines_replies view_eq err r)
    next
      case (Some z)
      with pool_store.add_fails [OF c, of "row_of p'" t z] a name keep cr same \<open>e = None\<close> live show ?thesis
        by (auto simp: b_refines_replies view_eq err r failed_def)
    qed
  qed
qed

lemma RemoveBrokerEndpoint_snd:
  "snd (RemoveBrokerEndpoint lib env (s\<lparr>pools := p\<rparr>) mp) = snd (RemoveBrokerEndpoint lib env s mp)"
  by (cases mp) (simp_all add: kRemoveBrokerEndpoint_def rRemoveBrokerEndpoint_def Let_def split_beta
      split: sum.split option.split prod.split)

lemma drop_pool_live:
  assumes live: "pools_live be docs entry r" and row: "rows docs r k = Some row" "createFromDatabase row = Inr p"
    and gone: "snd (RemoveBrokerEndpoint lib env r p) = None"
  shows "snd (RemoveMessagePool be lib env r k) = None"
proof -
  obtain t res where g: "getMessagePool be (pools r) k = (t, res)" by force
  have res: "res = Inr row" using live_pools.get_live [OF pools_liveD(2) [OF live], of k] row(1) g by simp
  obtain s2 e where rb: "RemoveBrokerEndpoint lib env (r\<lparr>pools := t\<rparr>) p = (s2, e)" by force
  have "e = None" using gone rb RemoveBrokerEndpoint_snd [of lib env t r p] by simp
  have "live_inv be (=) dbName docs entry (pools s2)"
    using RemoveBrokerEndpoint_pools [OF rb] live_pools.get_inv [OF pools_liveD(2) [OF live] g] by simp
  from live_pools.remove_live [OF this, of k] show ?thesis
    using g res row(2) rb \<open>e = None\<close>
    by (auto simp: RemoveMessagePool_def GetMessagePool_def Let_def split: prod.split)
qed

lemma pool_change_refines:
  assumes inv: "brokers_inv E obs s"
  shows "b_refines E obs (pool_cmd req) s (pool_post E s req)"
    and "b_refines E obs (named DropPool (query req ''pool'')) s (pool_delete E s req)"
proof -
  note refused = refused_refines [OF inv]
  have pinv: "pools_inv (pool_be E) (pool_docs obs) (pool_entry obs) (breg s)"
    using inv by (simp add: brokers_inv_def)
  show "b_refines E obs (pool_cmd req) s (pool_post E s req)"
    using add_pool_refines [OF inv] refused
    by (auto simp: pool_post_def pool_cmd_def Let_def split: prod.split sum.split)
  let ?k = "query req ''pool''"
  obtain r err where run: "RemoveMessagePool (pool_be E) (blib E) (benv E) (breg s) ?k = (r, err)" by force
  note rem = RemoveMessagePool_rows [OF pinv run]
  have keep: "brokers_inv E obs (s\<lparr>breg := r\<rparr>)" using inv rem(1) by (simp add: brokers_inv_def)
  have gone: "err = None" if "pools_up E obs" "rows (pool_docs obs) (breg s) ?k = Some row" "createFromDatabase row = Inr p"
      "snd (RemoveBrokerEndpoint (blib E) (benv E) (breg s) p) = None" for row p
    using drop_pool_live [of "pool_be E" "pool_docs obs" "pool_entry obs" "breg s", OF _ that(2-4)] pinv that(1) run
    by (simp add: pools_live_def)
  show "b_refines E obs (named DropPool ?k) s (pool_delete E s req)"
    using refused rem(2,3) keep run gone
    by (cases err) (auto simp: pool_delete_def named_def b_refines_replies view_eq)
qed

section \<open>The records\<close>

lemma esb_looked:
  assumes inv: "brokers_inv E obs s" and run: "getESBRecord (esb_be E) (besb s) k = (b, res)"
  shows "brokers_inv E obs (s\<lparr>besb := b\<rparr>)" and "brokers_view obs (s\<lparr>besb := b\<rparr>) = brokers_view obs s"
    and "res = (case table PoolNameIn (esb_docs obs) (besb s) k of None \<Rightarrow> Inl ErrNoSuchRecord | Some r \<Rightarrow> Inr r) \<or>
      \<not> links_up E obs \<and> (\<exists>err. res = Inl err \<and> err \<noteq> ErrNoSuchRecord)"
proof -
  have e: "cached_inv (esb_be E) (=) PoolNameIn (esb_docs obs) (esb_entry obs) (besb s)"
    using inv by (simp add: brokers_inv_def)
  show "brokers_inv E obs (s\<lparr>besb := b\<rparr>)"
    using esb_store.get_inv [OF e run] inv by (simp add: brokers_inv_def)
  show "brokers_view obs (s\<lparr>besb := b\<rparr>) = brokers_view obs s"
    using esb_store.get_tab [OF e run] by (simp add: brokers_view_def)
  show "res = (case table PoolNameIn (esb_docs obs) (besb s) k of None \<Rightarrow> Inl ErrNoSuchRecord | Some r \<Rightarrow> Inr r) \<or>
      \<not> links_up E obs \<and> (\<exists>err. res = Inl err \<and> err \<noteq> ErrNoSuchRecord)"
  proof (cases "links_up E obs")
    case True
    then have "live_inv (esb_be E) (=) PoolNameIn (esb_docs obs) (esb_entry obs) (besb s)"
      using e by (simp add: live_inv_def)
    from live_esb.get_live [OF this, of k] run show ?thesis by (auto split: option.splits)
  next
    case False
    with esb_store.get_found [OF e, of k b] esb_store.get_missing [OF e, of k b] run show ?thesis
      by (cases res) auto
  qed
qed

lemma link_refines:
  assumes inv: "brokers_inv E obs s" and run: "addESBRecord (esb_be E) (besb s) rc = (b, err)"
  shows "brokers_inv E obs (s\<lparr>bdisk := d, besb := b\<rparr>)"
    and "linked (links_up E obs) rc (rows (pool_docs obs) (breg s), table PoolNameIn (esb_docs obs) (besb s), handed s, d)
      [esb_added err] (brokers_view obs (s\<lparr>bdisk := d, besb := b\<rparr>))"
proof -
  have e: "cached_inv (esb_be E) (=) PoolNameIn (esb_docs obs) (esb_entry obs) (besb s)"
    using inv by (simp add: brokers_inv_def)
  show "brokers_inv E obs (s\<lparr>bdisk := d, besb := b\<rparr>)"
    using esb_store.add_inv [OF e run] inv by (simp add: brokers_inv_def)
  have live: "err = None \<or> err = Some ErrDuplicateKey" if "links_up E obs"
  proof -
    have "live_inv (esb_be E) (=) PoolNameIn (esb_docs obs) (esb_entry obs) (besb s)"
      using e that by (simp add: live_inv_def)
    from live_esb.add_live [OF this, of rc] run show ?thesis by (auto split: if_splits)
  qed
  show "linked (links_up E obs) rc (rows (pool_docs obs) (breg s), table PoolNameIn (esb_docs obs) (besb s), handed s, d)
      [esb_added err] (brokers_view obs (s\<lparr>bdisk := d, besb := b\<rparr>))"
    using esb_store.add_done [OF e, of rc b] esb_store.add_fails [OF e, of rc b] run live
    by (cases err) (auto simp: linked_def view_eq esb_added_def failed_def)
qed

lemma esb_post_refines:
  assumes inv: "brokers_inv E obs s"
  shows "b_refines E obs (link_cmd now req) s (esb_post E now s req)"
proof (cases "BindEsb req")
  case (Inl err)
  then show ?thesis by (simp add: esb_post_def link_cmd_def refused_refines [OF inv])
next
  case (Inr rc)
  let ?n = "GenUniqueFilename now ''py''"
  let ?r = "\<lambda>m. \<lparr>PoolNameIn = er_in rc, PoolNameOut = er_out rc, MapperScriptName = m\<rparr>"
  show ?thesis
  proof (cases "er_code rc = ''''")
    case True
    obtain b err where a: "addESBRecord (esb_be E) (besb s) (?r EMPTY_MAPPER) = (b, err)" by force
    from link_refines [OF inv a, of "bdisk s"] True Inr a show ?thesis
      by (simp add: esb_post_def link_cmd_def AddEsbRecord_def b_refines_replies view_eq [of obs s])
  next
    case False
    obtain d e where w: "fs_Write (bsys E) (bfs E) (bdisk s) FS_ESB_DIR ?n (WrapCodeForEsb (er_code rc)) = (d, e)" by force
    obtain b err where a: "addESBRecord (esb_be E) (besb s) (?r ?n) = (b, err)" by force
    from link_refines [OF inv a, of d] inv False Inr a w show ?thesis
      by (cases e) (simp_all add: esb_post_def link_cmd_def AddEsbRecordWithMapper_def b_refines_replies
          view_eq [of obs s] view_eq [of obs "s\<lparr>bdisk := d\<rparr>"] brokers_inv_def)
  qed
qed

lemma esb_delete_refines:
  assumes inv: "brokers_inv E obs s"
  shows "b_refines E obs (named Unlink (query req ''pool_in'')) s (esb_delete E s req)"
proof -
  have e: "cached_inv (esb_be E) (=) PoolNameIn (esb_docs obs) (esb_entry obs) (besb s)"
    using inv by (simp add: brokers_inv_def)
  obtain b err where run: "removeESBRecord (esb_be E) (besb s) (query req ''pool_in'') = (b, err)" by force
  have keep: "brokers_inv E obs (s\<lparr>besb := b\<rparr>)"
    using esb_store.remove_inv [OF e run] inv by (simp add: brokers_inv_def)
  have known: "err \<noteq> Some ErrNoSuchRecord"
  proof
    assume "err = Some ErrNoSuchRecord"
    with run have "cached_remove (esb_be E) PoolNameIn no_such_record (besb s) (query req ''pool_in'') = (b, Some ErrNoSuchRecord)"
      by (simp add: removeESBRecord_cached)
    from cached_remove_err(3) [OF e this] show False by (auto simp: no_such_record_def foreign_def split: if_splits)
  qed
  have live: "err = None" if "links_up E obs"
  proof -
    have "live_inv (esb_be E) (=) PoolNameIn (esb_docs obs) (esb_entry obs) (besb s)"
      using e that by (simp add: live_inv_def)
    from live_esb.remove_live [OF this, of "query req ''pool_in''"] run show ?thesis by simp
  qed
  show ?thesis
    using esb_store.remove_done [OF e, of _ b] esb_store.remove_fails [OF e, of _ b] run keep known live
      refused_refines [OF inv]
    by (cases err) (auto simp: esb_delete_def named_def RemoveEsbRecord_def b_refines_replies view_eq failed_def)
qed

lemma esb_look_refines:
  assumes inv: "brokers_inv E obs s"
  shows "b_refines E obs Links s (esb_list E s)"
    and "b_refines E obs (named Mapper (query req ''pool_in'')) s (esb_code E s req)"
proof -
  have e: "cached_inv (esb_be E) (=) PoolNameIn (esb_docs obs) (esb_entry obs) (besb s)"
    using inv by (simp add: brokers_inv_def)
  show "b_refines E obs Links s (esb_list E s)"
  proof (cases "listESBRecords (esb_be E) (besb s)")
    case (Inl err)
    then have "\<not> links_up E obs" using FindAll_live [of "esb_be E"] by (auto simp: listESBRecords_def) (metis isl_def)
    with inv Inl show ?thesis by (auto simp: esb_list_def b_refines_replies view_eq failed_def)
  next
    case (Inr ls)
    have "lists_all PoolNameIn (table PoolNameIn (esb_docs obs) (besb s)) ls"
      using lists_all_docs [OF e] Inr by (simp add: listESBRecords_def)
    with inv Inr show ?thesis by (auto simp: esb_list_def b_refines_replies view_eq)
  qed
  show "b_refines E obs (named Mapper (query req ''pool_in'')) s (esb_code E s req)"
  proof (cases "query req ''pool_in'' = ''''")
    case False
    obtain b res where g: "getESBRecord (esb_be E) (besb s) (query req ''pool_in'') = (b, res)" by force
    from esb_looked [OF inv g] g False show ?thesis
      by (cases "table PoolNameIn (esb_docs obs) (besb s) (query req ''pool_in'')")
        (auto simp: esb_code_def GetEsbRecord_def named_def b_refines_replies b_refines_panic view_eq [of obs s] failed_def Let_def
          split: sum.split outcome.split)
  qed (simp add: esb_code_def named_def refused_refines [OF inv])
qed

lemma brokers_handler_refines:
  assumes inv: "brokers_inv E obs s" and run: "brokers_handler E now s req = Some out"
  shows "b_refines E obs (brokers_cmd_of now req) s out"
proof -
  note handlers = pool_look_refines [OF inv] pool_start_refines [OF inv] pool_change_refines [OF inv]
    esb_post_refines [OF inv] esb_delete_refines [OF inv] esb_look_refines [OF inv]
  show ?thesis
    using run by (auto simp: brokers_handler_def brokers_cmd_of_def handlers split: if_split_asm split del: if_split)
qed

lemma b_refinesD:
  assumes "b_refines E obs cmd s out" and "Recovery out = (s', h)"
  shows "brokers_inv E obs s' \<and> tlog s' = tlog s \<and> (\<exists>rs. h = Replies rs \<and> rs \<noteq> [] \<and>
    brokers_effect (pools_up E obs) (links_up E obs) E s (brokers_view obs s) cmd rs (brokers_view obs s'))"
  using assms by (auto simp: b_refines_def)

text \<open>Names nobody uses, while the database answers.\<close>

lemma GetMessagePool_none:
  assumes "pools_live be docs entry r" and "rows docs r k = None"
  shows "\<exists>r'. GetMessagePool be r k = (r', Inl ErrNoSuchPool)"
  using GetMessagePool_live [OF assms(1), of k] assms(2) by (metis prod.collapse option.simps(4))

section \<open>Properties\<close>


text \<open>Servers for the witnesses: memory behind both stores, a broker that refuses nothing.\<close>

definition demo_brokers :: "TaskMessage list \<Rightarrow> (unit, MessagePool list, (string \<times> MessagePool) list, ESBRecord list,
    (string \<times> ESBRecord) list, TaskMessage list) brokers_srv" where
  "demo_brokers l = \<lparr>breg = empty_registry (), besb = \<lparr>coll = [], cache = []\<rparr>, bdisk = \<lparr>files = Map.empty\<rparr>,
     tlog = l, handed = []\<rparr>"

definition demo_benv :: "(unit, MessagePool list, (string \<times> MessagePool) list, ESBRecord list,
    (string \<times> ESBRecord) list, TaskMessage list) brokers_env" where
  "demo_benv = \<lparr>pool_be = mem_backend (same_key dbName) 0, esb_be = mem_backend (same_key PoolNameIn) 0,
     task_db = mem_coll (\<lambda>_ _. False), blib = quiet_lib, benv = Map.empty,
     bsys = \<lparr>deny = Map.empty, short = Map.empty\<rparr>, bfs = \<lparr>fs_prefix = [''r'']\<rparr>\<rparr>"

definition demo_obs :: "(MessagePool list, (string \<times> MessagePool) list, ESBRecord list, (string \<times> ESBRecord) list)
    brokers_obs" where
  "demo_obs = \<lparr>pool_docs = mem_docs, pool_entry = map_of, esb_docs = mem_docs, esb_entry = map_of\<rparr>"

lemma demo_brokers_inv: "brokers_inv demo_benv demo_obs (demo_brokers l)"
  using empty_registry_live [of 0 "()"]
  by (simp add: brokers_inv_def demo_benv_def demo_obs_def demo_brokers_def pools_live_def cached_inv_def
      mem_backend_ok coherent_def backed_def table_def reflp_def)

definition demo_breq :: "string \<Rightarrow> string \<Rightarrow> (string \<Rightarrow> string) \<Rightarrow> json \<Rightarrow> request" where
  "demo_breq m p qs j = \<lparr>meth = m, uri = p, url_path = p, raw_query = '''', req_headers = [], query = qs,
     req_body = Inr (json_print j), bind_err = ''invalid''\<rparr>"

abbreviation demo_pool_body :: json where
  "demo_pool_body \<equiv> JObj [(''pool_name'', JStr ''p''), (''queue_name'', JStr ''q''), (''broker'', JStr ''rabbitmq'')]"

lemma demo_bind_pool: "BindPool (demo_breq m p qs demo_pool_body)
    = Inr \<lparr>pr_name = ''p'', pr_queue = ''q'', pr_topic = '''', pr_broker = ''rabbitmq''\<rparr>"
  unfolding BindPool_def
  by (rule Bind_print [where j = demo_pool_body])
    (simp_all add: demo_breq_def ascii_def poolreq_fields_def field_named_def poolreq_valid_def tags_ok_def rune_count_def)


text \<open>C24: What a RabbitMQ write task logged is what the server shows: after a task that wrote all its
  messages from a fresh log, a \<open>GET\<close> of its pool's written messages shows each as often as it was written,
  and no other, as long as the database and the log answer.  (The order is the database's: the sort
  key is a field no document has.)\<close>
theorem written_messages_shown:
  assumes "log_ok (task_db E) docs" and "\<forall>P. \<not> isl (FindAll (task_db E) (tlog s) P)"
    and "task_log docs c (writeTaskId mp) = []"
    and "rabbit_write (task_db E) publish (writeTaskId mp) (w, c) ms = ((w', tlog s), None)"
    and "pools_live (pool_be E) pdocs entry (breg s)" and "rows pdocs (breg s) (GetName mp) = Some (row_of mp)"
    and "query req ''pool'' = GetName mp" and "GetName mp \<noteq> ''''"
  shows "\<exists>xs. mset xs = mset ms \<and>
    snd (pool_write_messages E s req) = Replies [JSON 200 (JObj [(''messages'', JArr (map JStr xs))])]"
proof -
  obtain k where "task_log docs (tlog s) (writeTaskId mp) = take k ms" "k = length ms"
    using rabbit_write_log [OF assms(1,4)] assms(3) by auto
  then have log: "task_log docs (tlog s) (writeTaskId mp) = ms" by simp
  obtain p where row: "getMessagePool (pool_be E) (pools (breg s)) (GetName mp) = (p, Inr (row_of mp))"
    using live_pools.get_live [OF pools_liveD(2) [OF assms(5)], of "GetName mp"] assms(6)
    by (metis option.simps(5) prod.collapse)
  obtain xs where xs: "getTaskMessages (task_db E) (tlog s) (writeTaskId mp) = Inr xs"
    using assms(2) by (cases "FindAll (task_db E) (tlog s) (\<lambda>d. TaskId d = writeTaskId mp)")
      (auto simp: getTaskMessages_def isl_def)
  from getTaskMessages_bag [OF assms(1) this] log have "mset xs = mset ms" by simp
  moreover have "snd (pool_write_messages E s req) = Replies [JSON 200 (JObj [(''messages'', JArr (map JStr xs))])]"
    using row xs assms(7,8) by (simp add: pool_write_messages_def pool_messages_ids(2) Let_def)
  ultimately show ?thesis by blast
qed

text \<open>A pool with a row, and a server that holds it.\<close>

definition demo_mp :: pool where "demo_mp = RabbitMQPool (NewRabbitMQMessagePool ''p'' ''q'')"

definition demo_written :: "(unit, MessagePool list, (string \<times> MessagePool) list, ESBRecord list,
    (string \<times> ESBRecord) list, TaskMessage list) brokers_srv" where
  "demo_written = (demo_brokers [\<lparr>TaskId = writeTaskId demo_mp, Message = ''a''\<rparr>, \<lparr>TaskId = writeTaskId demo_mp, Message = ''b''\<rparr>])
     \<lparr>breg := (empty_registry ())\<lparr>pools := \<lparr>coll = [row_of demo_mp], cache = []\<rparr>\<rparr>\<rparr>"

lemma demo_written_live: "pools_live (pool_be demo_benv) mem_docs map_of (breg demo_written)"
  by (simp add: pools_live_def pools_inv_def cached_inv_def mem_backend_ok mem_backend_live coherent_def
      backed_def demo_written_def demo_benv_def table_def reflp_def)

lemma written_messages_shown_witness:
  "\<exists>xs. mset xs = mset [''a'', ''b''] \<and>
    snd (pool_write_messages demo_benv demo_written (demo_breq ''GET'' ''/api/brokers/pool/write'' (\<lambda>_. ''p'') JNull))
    = Replies [JSON 200 (JObj [(''messages'', JArr (map JStr xs))])]"
proof -
  let ?req = "demo_breq ''GET'' ''/api/brokers/pool/write'' (\<lambda>_. ''p'') JNull"
  have name: "GetName demo_mp = ''p''" "query ?req ''pool'' = ''p''"
    by (simp_all add: demo_mp_def NewRabbitMQMessagePool_def demo_breq_def)
  have row: "rows mem_docs (breg demo_written) ''p'' = Some (row_of demo_mp)"
    using name(1) by (simp add: demo_written_def table_def row_of_def)
  have run: "rabbit_write (task_db demo_benv) (\<lambda>w x. (w, None)) (writeTaskId demo_mp) ((), []) [''a'', ''b'']
      = (((), tlog demo_written), None)"
    by (simp add: demo_benv_def demo_written_def demo_brokers_def addTaskMessage_def mem_coll_def)
  have db: "log_ok (task_db demo_benv) mem_docs" "\<forall>P. \<not> isl (FindAll (task_db demo_benv) (tlog demo_written) P)"
    by (simp add: demo_benv_def mem_log_ok, simp add: demo_benv_def mem_coll_def)
  have "task_log mem_docs [] (writeTaskId demo_mp) = []" by (simp add: task_log_def)
  from written_messages_shown [OF db this run demo_written_live] row name show ?thesis by simp
qed

text \<open>While the database answers, a name nobody uses is answered in three ways: its configuration is
  not found (404), its deletion is the server's failure (500), and deleting a record between pools that is not
  there is a success (204).\<close>
theorem unknown_names:
  assumes "pools_live (pool_be E) pdocs entry (breg s)" and "live_inv (esb_be E) (=) PoolNameIn edocs eentry (besb s)"
    and "rows pdocs (breg s) (query req ''pool'') = None" and "query req ''pool'' \<noteq> ''''"
    and "table PoolNameIn edocs (besb s) (query req ''pool_in'') = None" and "query req ''pool_in'' \<noteq> ''''"
  shows "snd (pool_config E s req) = Replies [err_json 404 ''No such pool''] \<and>
    snd (pool_delete E s req) = Replies [err_json 500 (Error ErrNoSuchPool)] \<and>
    snd (esb_delete E s req) = Replies [text_json 204 ''Esb record successfully removed'']"
proof -
  obtain r where get: "GetMessagePool (pool_be E) (breg s) (query req ''pool'') = (r, Inl ErrNoSuchPool)"
    using GetMessagePool_none [OF assms(1,3)] by blast
  obtain b where "removeESBRecord (esb_be E) (besb s) (query req ''pool_in'') = (b, None)"
    using live_esb.remove_live [OF assms(2)] by (metis prod.collapse)
  then show ?thesis
    using get assms(4,6) by (simp add: pool_config_def pool_delete_def esb_delete_def RemoveMessagePool_def
        RemoveEsbRecord_def no_pool_reply_def Let_def)
qed

lemma unknown_names_witness:
  "snd (pool_delete demo_benv (demo_brokers []) (demo_breq ''DELETE'' ''/api/brokers/pool'' (\<lambda>_. ''x'') JNull))
    = Replies [err_json 500 (Error ErrNoSuchPool)]"
proof -
  have "live_inv (esb_be demo_benv) (=) PoolNameIn mem_docs map_of (besb (demo_brokers []))"
    using demo_brokers_inv [of "[]"]
    by (simp add: live_inv_def brokers_inv_def demo_obs_def demo_benv_def mem_backend_live)
  moreover have "pools_live (pool_be demo_benv) mem_docs map_of (breg (demo_brokers []))"
    using empty_registry_live by (simp add: demo_benv_def demo_brokers_def)
  ultimately show ?thesis
    using unknown_names [of demo_benv mem_docs map_of "demo_brokers []" mem_docs map_of]
    by (simp add: demo_breq_def demo_brokers_def empty_registry_def table_def)
qed

end
