(* ===== verification/StoredRoutes.thy ===== *)
theory StoredRoutes
  imports RoutesApi
begin

text \<open>
  What the configuration API lets into the store: a condition \<open>P\<close> that every route it adds or updates
  meets holds of every route that is stored or cached.  \<open>Server\<close> uses it for the URLs of proxies,
  whose handlers refuse what \<open>url.ParseRequestURI\<close> refuses.
\<close>

definition all_stored :: "(Route \<Rightarrow> bool) \<Rightarrow> ('c \<Rightarrow> Route list) \<Rightarrow> ('h \<Rightarrow> string \<Rightarrow> Route option)
    \<Rightarrow> ('c, 'h) routes \<Rightarrow> bool" where
  "all_stored P docs entry s \<longleftrightarrow> (\<forall>d \<in> set (docs (coll s)). P d) \<and> (\<forall>k d. entry (cache s) k = Some d \<longrightarrow> P d)"

lemma all_storedD:
  assumes "all_stored P docs entry s"
  shows "d \<in> set (docs (coll s)) \<Longrightarrow> P d" and "entry (cache s) k = Some d \<Longrightarrow> P d"
  using assms by (auto simp: all_stored_def)

lemma all_storedI:
  assumes "\<And>d. d \<in> set (docs (coll s)) \<Longrightarrow> P d" and "\<And>k d. entry (cache s) k = Some d \<Longrightarrow> P d"
  shows "all_stored P docs entry s"
  using assms by (auto simp: all_stored_def)

text \<open>The entries of the cache after a call are entries from before or the one it put in.\<close>

lemma map_le_eqD: "m \<subseteq>\<^sub>m f \<Longrightarrow> m x = Some y \<Longrightarrow> f x = Some y"
  by (metis domI map_le_def)

lemma map_le_updD: "m \<subseteq>\<^sub>m f(k \<mapsto> d) \<Longrightarrow> m x = Some y \<Longrightarrow> y = d \<or> f x = Some y"
  by (drule (1) map_le_eqD) (auto split: if_splits)

lemma map_le_delD: "m \<subseteq>\<^sub>m f(k := None) \<Longrightarrow> m x = Some y \<Longrightarrow> f x = Some y"
  by (drule (1) map_le_eqD) (auto split: if_splits)

section \<open>The operations of the store\<close>

lemma addRoute_stored:
  assumes "backend_ok be clash docs entry" and "all_stored P docs entry s" and "P route"
    and run: "addRoute be s route = (s', err)"
  shows "all_stored P docs entry s'"
proof -
  note laws = backend_okD [OF assms(1)] and old = all_storedD [OF assms(2)]
  obtain c e where ins: "InsertOne (mdb be) (coll s) route = (c, e)" by force
  obtain h r where set: "CacheSet (gca be) (cache s) (Path route) route = (h, r)" by force
  have c: "P d" if "d \<in> set (docs c)" for d
    using laws(1) ins old(1) assms(3) that by (cases "e = None") (auto simp: insert_law_def)
  have h: "P d" if "entry h k = Some d" for k d
    using CacheSet_ok [OF laws(6) set] map_le_updD [of "entry h"] that old(2) assms(3) by metis
  show ?thesis
    using run ins set by (intro all_storedI) (auto simp: addRoute_def Let_def intro: c h old split: if_splits)
qed

lemma removeRoute_stored:
  assumes "cached_inv be R Path docs entry s" and "all_stored P docs entry s" and run: "removeRoute be s p = (s', err)"
  shows "all_stored P docs entry s'"
proof -
  note laws = backend_okD [OF cached_invD(1) [OF assms(1)]] and old = all_storedD [OF assms(2)]
  obtain c e where del: "DeleteOne (mdb be) (coll s) (\<lambda>d. Path d = p) = (c, e)" by force
  have one: "length (filter (\<lambda>d. Path d = p) (docs (coll s))) \<le> 1"
    by (rule unique_filter_length [OF cached_invD(2) [OF assms(1)]])
  have c: "P d" if "d \<in> set (docs c)" for d
    using laws(3) del one old(1) that by (cases "e = None") (auto simp: delete_law_def)
  have h: "P d" if "entry (CacheRemove (gca be) (cache s) p) k = Some d" for k d
    using CacheRemove_ok [OF laws(6)] map_le_delD that old(2) by metis
  show ?thesis
    using run del by (intro all_storedI) (auto simp: removeRoute_def Let_def intro: c h old split: if_splits)
qed

lemma getRoute_stored:
  assumes "backend_ok be clash docs entry" and "all_stored P docs entry s" and run: "getRoute be s p = (s', res)"
  shows "all_stored P docs entry s'" and "res = Inr route \<Longrightarrow> P route"
proof -
  note laws = backend_okD [OF assms(1)] and old = all_storedD [OF assms(2)]
  let ?load = "routes_loader be s"
  obtain h q where get: "CacheGet (gca be) (cache s) p ?load = (h, q)" by force
  have load: "P d" if "?load p = Inr d" for d
    using FindOne_ok [OF laws(2)] that old(1) unfolding routes_loader_def by metis
  have law: "case entry (cache s) p of Some d \<Rightarrow> q = Inr d \<and> entry h \<subseteq>\<^sub>m entry (cache s)
      | None \<Rightarrow> q = ?load p \<and> entry h \<subseteq>\<^sub>m (case q of Inl _ \<Rightarrow> entry (cache s) | Inr d \<Rightarrow> (entry (cache s))(p \<mapsto> d))"
    using laws(6) get unfolding cache_law_def by blast
  have q: "P d" if "q = Inr d" for d
    using law load that old(2) by (auto split: option.splits)
  have h: "P d" if "entry h k = Some d" for k d
    using law q old(2) that map_le_eqD map_le_updD by (fastforce split: option.splits sum.splits)
  show "all_stored P docs entry s'"
    using run get by (intro all_storedI) (auto simp: getRoute_def Let_def intro: old h split: sum.splits if_splits)
  show "P route" if "res = Inr route"
    using run get q that by (auto simp: getRoute_def Let_def split: sum.splits if_splits)
qed

lemma updateRoute_stored:
  assumes "cached_inv be R Path docs entry s" and "all_stored P docs entry s" and "P route"
    and keep: "\<And>d x y. P d \<Longrightarrow> P (d\<lparr>Response := x, ScriptName := y\<rparr>)"
    and run: "updateRoute be s route = (s', out)"
  shows "all_stored P docs entry s'"
proof -
  note laws = backend_okD [OF cached_invD(1) [OF assms(1)]] and old = all_storedD [OF assms(2)]
  let ?P = "\<lambda>d. Path d = Path route \<and> Type d = Type route"
  let ?f = "\<lambda>d. d\<lparr>Response := Response route, ScriptName := ScriptName route\<rparr>"
  obtain c n e where upd: "UpdateOne (mdb be) (coll s) ?P ?f = (c, n, e)" by (rule prod_cases3)
  obtain h r where set: "CacheSet (gca be) (cache s) (Path route) route = (h, r)" by force
  have "length (filter ?P (docs (coll s))) \<le> length (filter (\<lambda>d. Path d = Path route) (docs (coll s)))"
    using length_filter_le [of "\<lambda>d. Type d = Type route" "filter (\<lambda>d. Path d = Path route) (docs (coll s))"]
    by (simp add: conj_commute)
  also have "\<dots> \<le> 1" by (rule unique_filter_length [OF cached_invD(2) [OF assms(1)]])
  finally have one: "length (filter ?P (docs (coll s))) \<le> 1" .
  have c: "P d" if "d \<in> set (docs c)" for d
    using laws(4) upd one old(1) keep that by (cases "e = None") (auto simp: update_law_def split: if_splits)
  have h: "P d" if "entry h k = Some d" for k d
    using CacheSet_ok [OF laws(6) set] map_le_updD [of "entry h"] that old(2) assms(3) by metis
  show ?thesis
    using run upd set by (intro all_storedI) (auto simp: updateRoute_def Let_def intro: c h old split: if_splits option.splits)
qed

section \<open>The handlers\<close>

definition url_ok :: "(string \<Rightarrow> go_error option) \<Rightarrow> Route \<Rightarrow> bool" where
  "url_ok parse_uri r \<longleftrightarrow> (Type r = PROXY_ENDPOINT_TYPE \<longrightarrow> parse_uri (ProxyURL r) = None)"

lemma url_ok_route_of: "url_ok parse_uri (route_of p e) \<longleftrightarrow> (\<forall>u. e = Proxy u \<longrightarrow> parse_uri u = None)"
  by (cases e) (simp_all add: url_ok_def endpoint_types)

text \<open>A step of the store that the URLs survive.\<close>

definition urls_kept :: "(string \<Rightarrow> go_error option) \<Rightarrow> ('c \<Rightarrow> Route list) \<Rightarrow> ('h \<Rightarrow> string \<Rightarrow> Route option)
    \<Rightarrow> ('c, 'h) routes_step \<Rightarrow> bool" where
  "urls_kept parse_uri docs entry out \<longleftrightarrow> all_stored (url_ok parse_uri) docs entry (rts (fst out))"

lemma routes_calls_stored:
  assumes inv: "endpoints_inv be docs entry s" and all: "all_stored (url_ok parse_uri) docs entry s"
  shows "addRoute be s (route_of p e) = (r, err) \<Longrightarrow> (\<And>u. e = Proxy u \<Longrightarrow> parse_uri u = None) \<Longrightarrow>
      all_stored (url_ok parse_uri) docs entry r"
    and "updateRoute be s (route_of p e) = (r, out) \<Longrightarrow> (\<And>u. e = Proxy u \<Longrightarrow> parse_uri u = None) \<Longrightarrow>
      all_stored (url_ok parse_uri) docs entry r"
    and "removeRoute be s p = (r, err) \<Longrightarrow> all_stored (url_ok parse_uri) docs entry r"
    and "GetStaticEndpointResponse be s p = (r, res) \<Longrightarrow> all_stored (url_ok parse_uri) docs entry r"
    and "GetProxyEndpointProxyUrl be s p = (r, res) \<Longrightarrow> all_stored (url_ok parse_uri) docs entry r"
    and "GetDynamicEndpointScriptName be s p = (r, res) \<Longrightarrow> all_stored (url_ok parse_uri) docs entry r"
proof -
  note c = endpoints_invD(1) [OF inv]
  note ok = cached_invD(1) [OF c]
  show "all_stored (url_ok parse_uri) docs entry r"
    if "addRoute be s (route_of p e) = (r, err)" "\<And>u. e = Proxy u \<Longrightarrow> parse_uri u = None"
    by (rule addRoute_stored [OF ok all _ that(1)]) (use that(2) in \<open>simp add: url_ok_route_of\<close>)
  show "all_stored (url_ok parse_uri) docs entry r"
    if "updateRoute be s (route_of p e) = (r, out)" "\<And>u. e = Proxy u \<Longrightarrow> parse_uri u = None"
    by (rule updateRoute_stored [OF c all _ _ that(1)]) (use that(2) in \<open>simp_all add: url_ok_route_of\<close>, simp add: url_ok_def)
  show "removeRoute be s p = (r, err) \<Longrightarrow> all_stored (url_ok parse_uri) docs entry r"
    by (rule removeRoute_stored [OF c all])
  obtain t x where g: "getRoute be s p = (t, x)" by force
  note get = getRoute_stored(1) [OF ok all g]
  show "GetStaticEndpointResponse be s p = (r, res) \<Longrightarrow> all_stored (url_ok parse_uri) docs entry r"
    "GetProxyEndpointProxyUrl be s p = (r, res) \<Longrightarrow> all_stored (url_ok parse_uri) docs entry r"
    "GetDynamicEndpointScriptName be s p = (r, res) \<Longrightarrow> all_stored (url_ok parse_uri) docs entry r"
    using get g
    by (auto simp: GetStaticEndpointResponse_def GetProxyEndpointProxyUrl_def GetDynamicEndpointScriptName_def Let_def
        split: sum.splits if_splits)
qed

lemma handlers_stored:
  assumes inv: "endpoints_inv be docs entry (rts s)" and all: "all_stored (url_ok parse_uri) docs entry (rts s)"
  shows "urls_kept parse_uri docs entry (static_list be s)"
    and "urls_kept parse_uri docs entry (static_expected_response be s req)"
    and "urls_kept parse_uri docs entry (static_post be s req)"
    and "urls_kept parse_uri docs entry (static_put be s req)"
    and "urls_kept parse_uri docs entry (static_delete be s req)"
    and "urls_kept parse_uri docs entry (proxy_list be s)"
    and "urls_kept parse_uri docs entry (proxy_url be s req)"
    and "urls_kept parse_uri docs entry (proxy_post be parse_uri s req)"
    and "urls_kept parse_uri docs entry (proxy_put be parse_uri s req)"
    and "urls_kept parse_uri docs entry (proxy_delete be s req)"
    and "urls_kept parse_uri docs entry (dynamic_list be s)"
    and "urls_kept parse_uri docs entry (dynamic_code be sys fs s req)"
    and "urls_kept parse_uri docs entry (dynamic_post be sys fs now s req)"
    and "urls_kept parse_uri docs entry (dynamic_put be sys fs s req)"
    and "urls_kept parse_uri docs entry (dynamic_delete be s req)"
  using all
  by (auto simp: urls_kept_def static_list_def static_expected_response_def static_post_def static_put_def
      static_delete_def proxy_list_def proxy_url_def proxy_post_def proxy_put_def proxy_delete_def dynamic_list_def
      dynamic_code_def dynamic_post_def dynamic_put_def dynamic_delete_def Let_def Add_route_of Update_route_of
      Remove_route simp del: route_of.simps intro: routes_calls_stored [OF inv all]
      split: prod.split sum.split option.split outcome.split)

lemma routes_handler_stored:
  assumes "endpoints_inv be docs entry (rts s)" and "all_stored (url_ok parse_uri) docs entry (rts s)"
    and run: "routes_handler be parse_uri sys fs now s req = Some out"
  shows "all_stored (url_ok parse_uri) docs entry (rts (fst out))"
proof -
  note handlers = handlers_stored [OF assms(1,2)]
  have "urls_kept parse_uri docs entry out"
    using run by (auto simp: routes_handler_def handlers split: if_split_asm split del: if_split)
  then show ?thesis by (simp add: urls_kept_def)
qed

end
