(* ===== verification/Server.thy ===== *)
theory Server
  imports NoRoute BrokersApi StoredRoutes
begin

text \<open>
  The whole server: \<open>initMainRoutes\<close> of \<open>internal/server/server.go\<close> puts the ping, the API of the
  routes, the API of the brokers and the mock endpoints together over one state.  The router is
  \<open>gin\<close>'s: a handler is found by method and path; a path that only lacks its handler for a slash at
  the end is redirected; everything else goes to \<open>NoRoute\<close>.  Preflight requests, which the CORS middleware
  answers by itself, do not come here.
\<close>

section \<open>The router\<close>

record ('c, 'h, 'v, 'w, 'p, 'q, 'e, 'g, 'm) web =
  store :: "('c, 'h) routes"
  coders :: "'v watcher"
  brk :: "('w, 'p, 'q, 'e, 'g, 'm) brokers_srv"

record ('c, 'h, 'v, 'w, 'p, 'q, 'e, 'g, 'm) web_env =
  route_be :: "('c, 'h, Route) backend"
  proxies :: proxy_lib
  dockers :: "'v docker"
  web_http :: http
  bro :: "('w, 'p, 'q, 'e, 'g, 'm) brokers_env"

text \<open>The error of \<open>url.ParseRequestURI\<close>, as the handlers of the proxies test it.\<close>

definition uri_error :: "proxy_lib \<Rightarrow> string \<Rightarrow> go_error option" where
  "uri_error lib u = (case parse lib u of Inl e \<Rightarrow> Some e | Inr _ \<Rightarrow> None)"

definition api :: "('c, 'h, 'v, 'w, 'p, 'q, 'e, 'g, 'm) web_env \<Rightarrow> string \<Rightarrow> ('c, 'h, 'v, 'w, 'p, 'q, 'e, 'g, 'm) web
    \<Rightarrow> request \<Rightarrow> (('c, 'h, 'v, 'w, 'p, 'q, 'e, 'g, 'm) web \<times> handled) option" where
  "api E now s req =
     (if meth req = ''GET'' \<and> url_path req = ''/api/ping''
      then Some (s, Replies [text_json 200 ''Ping yourself, I have another work!''])
      else case routes_api (route_be E) (uri_error (proxies E)) (bsys (bro E)) (bfs (bro E)) now
          \<lparr>rts = store s, disk = bdisk (brk s)\<rparr> req of
        Some (t, h) \<Rightarrow> Some (s\<lparr>store := rts t, brk := (brk s)\<lparr>bdisk := disk t\<rparr>\<rparr>, h)
      | None \<Rightarrow> map_option (\<lambda>(b, h). (s\<lparr>brk := b\<rparr>, h)) (brokers_api (bro E) now (brk s) req))"

definition slashed :: "request \<Rightarrow> bool" where
  "slashed req \<longleftrightarrow> length (url_path req) > 1 \<and> last (url_path req) = CHR ''/''"

text \<open>\<^term>\<open>None\<close>: the handler is blocked for ever.\<close>

definition serve :: "('c, 'h, 'v, 'w, 'p, 'q, 'e, 'g, 'm) web_env \<Rightarrow> string \<Rightarrow> ('c, 'h, 'v, 'w, 'p, 'q, 'e, 'g, 'm) web
    \<Rightarrow> request \<Rightarrow> (('c, 'h, 'v, 'w, 'p, 'q, 'e, 'g, 'm) web \<times> handled) option" where
  "serve E now s req = (case api E now s req of
     Some out \<Rightarrow> Some out
   | None \<Rightarrow>
       if slashed req \<and> api E now s (req\<lparr>url_path := butlast (url_path req)\<rparr>) \<noteq> None
       then Some (s, Replies [Abort (if meth req = ''GET'' then 301 else 307)])
       else map_option (\<lambda>(t, h). Recovery (s\<lparr>store := mrts t, coders := crew t\<rparr>, h))
         (noroute (route_be E) (proxies E) (dockers E) (web_http E) \<lparr>mrts = store s, crew = coders s\<rparr> req))"

text \<open>Requests one after the other, each at its time.\<close>

fun serve_all :: "('c, 'h, 'v, 'w, 'p, 'q, 'e, 'g, 'm) web_env \<Rightarrow> ('c, 'h, 'v, 'w, 'p, 'q, 'e, 'g, 'm) web
    \<Rightarrow> (string \<times> request) list \<Rightarrow> (('c, 'h, 'v, 'w, 'p, 'q, 'e, 'g, 'm) web \<times> handled list) option" where
  "serve_all E s [] = Some (s, [])"
| "serve_all E s ((now, req) # rest) = (case serve E now s req of
     None \<Rightarrow> None
   | Some (t, h) \<Rightarrow> map_option (\<lambda>(u, hs). (u, h # hs)) (serve_all E t rest))"

section \<open>The invariant of the server\<close>

definition web_ok :: "('c, 'h, 'v, 'w, 'p, 'q, 'e, 'g, 'm) web_env \<Rightarrow> ('c \<Rightarrow> Route list)
    \<Rightarrow> ('h \<Rightarrow> string \<Rightarrow> Route option) \<Rightarrow> ('p, 'q, 'e, 'g) brokers_obs
    \<Rightarrow> ('c, 'h, 'v, 'w, 'p, 'q, 'e, 'g, 'm) web \<Rightarrow> bool" where
  "web_ok E docs entry obs s \<longleftrightarrow> endpoints_inv (route_be E) docs entry (store s) \<and>
     all_stored (url_ok (uri_error (proxies E))) docs entry (store s) \<and>
     roomy (coders s) \<and> brokers_inv (bro E) obs (brk s)"

lemma web_okD:
  assumes "web_ok E docs entry obs s"
  shows "endpoints_inv (route_be E) docs entry (store s)"
    and "all_stored (url_ok (uri_error (proxies E))) docs entry (store s)"
    and "roomy (coders s)" and "brokers_inv (bro E) obs (brk s)"
  using assms by (simp_all add: web_ok_def)

lemma brokers_inv_disk: "brokers_inv E obs b \<Longrightarrow> brokers_inv E obs (b\<lparr>bdisk := d\<rparr>)"
  by (simp add: brokers_inv_def)

text \<open>The API keeps the invariant and answers.\<close>

lemma api_ok:
  assumes ok: "web_ok E docs entry obs s" and run: "api E now s req = Some (t, h)"
  shows "web_ok E docs entry obs t \<and> (\<exists>r rs. h = Replies (r # rs))"
proof (cases "meth req = ''GET'' \<and> url_path req = ''/api/ping''")
  case True
  with ok run show ?thesis by (auto simp: api_def)
next
  case False
  let ?s = "\<lparr>rts = store s, disk = bdisk (brk s)\<rparr>" and ?u = "uri_error (proxies E)"
  show ?thesis
  proof (cases "routes_handler (route_be E) ?u (bsys (bro E)) (bfs (bro E)) now ?s req")
    case None
    then obtain b where b: "brokers_api (bro E) now (brk s) req = Some (b, h)" and t: "t = s\<lparr>brk := b\<rparr>"
      using run False by (auto simp: api_def routes_api_def)
    from b obtain out where "brokers_handler (bro E) now (brk s) req = Some out" "Recovery out = (b, h)"
      by (auto simp: brokers_api_def)
    with b_refinesD [OF brokers_handler_refines [OF web_okD(4) [OF ok]]]
    have "brokers_inv (bro E) obs b" "\<exists>rs. h = Replies rs \<and> rs \<noteq> []" by blast+
    with ok t show ?thesis by (auto simp: web_ok_def neq_Nil_conv)
  next
    case (Some out)
    obtain r h' where out: "Recovery out = (r, h')" by force
    have t: "t = s\<lparr>store := rts r, brk := (brk s)\<lparr>bdisk := disk r\<rparr>\<rparr>" "h' = h"
      using run False Some out by (auto simp: api_def routes_api_def)
    have inv: "endpoints_inv (route_be E) docs entry (rts ?s)" and
      all: "all_stored (url_ok ?u) docs entry (rts ?s)" using web_okD(1,2) [OF ok] by simp_all
    have "fst out = r" using out by (cases out; cases "snd out") auto
    then have "all_stored (url_ok ?u) docs entry (rts r)"
      using routes_handler_stored [OF inv all Some] by simp
    moreover from refinesD [OF routes_handler_refines [OF inv Some] out]
    have "endpoints_inv (route_be E) docs entry (rts r)" "\<exists>x rs. h' = Replies (x # rs)" by blast+
    ultimately show ?thesis using ok t by (auto simp: web_ok_def brokers_inv_disk)
  qed
qed

text \<open>A request for a mock endpoint, whatever fails behind it.\<close>

lemma noroute_ok:
  assumes inv: "endpoints_inv be docs entry (mrts s)" and all: "all_stored (url_ok (uri_error plib)) docs entry (mrts s)"
    and room: "roomy (crew s)" and fwd: "\<And>x. forward plib x \<noteq> []"
  obtains t r rs where "noroute be plib lib http s req = Some (t, Replies (r # rs))"
    and "endpoints_inv be docs entry (mrts t)" and "all_stored (url_ok (uri_error plib)) docs entry (mrts t)"
    and "roomy (crew t)"
proof -
  obtain r res where g: "getRoute be (mrts s) (uri req) = (r, res)" by force
  note get = getRoute_endpoints [OF inv g]
  note kept = getRoute_stored [OF cached_invD(1) [OF endpoints_invD(1) [OF inv]] all g]
  let ?s = "s\<lparr>mrts := r\<rparr>"
  note fin = that [of ?s]
  show thesis
  proof (cases res)
    case (Inl err)
    with g get(1) kept(1) room fin show thesis by (cases "err = ErrNoSuchPath") (simp_all add: noroute_def GetRoute_def)
  next
    case (Inr route)
    from get(3) [OF Inr] obtain e where route: "route = route_of (uri req) e" by blast
    show thesis
    proof (cases e)
      case (Static x)
      with g Inr route get(1) kept(1) room fin show thesis
        by (simp add: noroute_def GetRoute_def handleStaticRouteRequest_def)
    next
      case (Proxy u)
      from kept(2) [OF Inr] route Proxy have "uri_error plib u = None" by (simp add: url_ok_def)
      then obtain target where "parse plib u = Inr target" by (auto simp: uri_error_def split: sum.splits)
      moreover obtain out written where d: "Director plib target req = (out, written)" by force
      moreover obtain x xs where "written @ forward plib out = x # xs" using fwd [of out] by (cases "written @ forward plib out") auto
      ultimately have "noroute be plib lib http s req = Some (?s, Replies (x # xs))"
        using g Inr route Proxy by (simp add: noroute_def GetRoute_def handleProxyRouteRequest_def endpoint_types)
      with get(1) kept(1) room fin show thesis by simp
    next
      case (Dynamic n)
      obtain w y where "handleDynamicRouteRequest lib http (crew s) req route = Some (w, Replies [y])" "roomy w"
        using handleDynamic_total [OF room] by metis
      with g Inr route Dynamic get(1) kept(1) that [of "?s\<lparr>crew := w\<rparr>"] show thesis
        by (simp add: noroute_def GetRoute_def endpoint_types)
    qed
  qed
qed

lemma serve_ok:
  assumes ok: "web_ok E docs entry obs s" and fwd: "\<And>x. forward (proxies E) x \<noteq> []"
  shows "\<exists>t r rs. serve E now s req = Some (t, Replies (r # rs)) \<and> web_ok E docs entry obs t"
proof (cases "api E now s req")
  case (Some out)
  obtain t h where "out = (t, h)" by force
  with api_ok [OF ok, of now req t h] Some show ?thesis by (auto simp: serve_def)
next
  case None
  obtain t r rs where "noroute (route_be E) (proxies E) (dockers E) (web_http E) \<lparr>mrts = store s, crew = coders s\<rparr> req
      = Some (t, Replies (r # rs))"
    and "endpoints_inv (route_be E) docs entry (mrts t)"
    and "all_stored (url_ok (uri_error (proxies E))) docs entry (mrts t)" and "roomy (crew t)"
    using noroute_ok [of "route_be E" docs entry "\<lparr>mrts = store s, crew = coders s\<rparr>" "proxies E" "dockers E" "web_http E" req]
      web_okD [OF ok] fwd by auto
  with None ok show ?thesis by (auto simp: serve_def web_ok_def)
qed

lemma serve_all_ok:
  assumes "web_ok E docs entry obs s" and "\<And>x. forward (proxies E) x \<noteq> []"
  shows "\<exists>t hs. serve_all E s reqs = Some (t, hs) \<and> length hs = length reqs \<and>
    (\<forall>h \<in> set hs. \<exists>r rs. h = Replies (r # rs)) \<and> web_ok E docs entry obs t"
  using assms(1)
proof (induction reqs arbitrary: s)
  case Nil
  then show ?case by simp
next
  case (Cons a reqs)
  obtain now req where a: "a = (now, req)" by force
  obtain t r rs where "serve E now s req = Some (t, Replies (r # rs))" "web_ok E docs entry obs t"
    using serve_ok [OF Cons.prems assms(2)] by blast
  moreover from Cons.IH [OF this(2)] obtain u hs where "serve_all E t reqs = Some (u, hs)" "length hs = length reqs"
    "\<forall>h \<in> set hs. \<exists>r rs. h = Replies (r # rs)" "web_ok E docs entry obs u" by blast
  ultimately show ?case by (simp add: a)
qed

section \<open>Properties\<close>

text \<open>C1: The server stays up: from a state that meets the invariant, whatever requests come in whatever
  order, and whatever the database, the disk, the brokers, Docker and the scripts answer, no request
  blocks, panics out of its handler or ends the process; every one gets a reply, and the invariant holds after the
  last.  In particular the \<open>zlog.Fatal\<close> of the proxy handler is not reached, for no route whose URL does not
  parse gets into the store through the API.\<close>
theorem server_stays_up:
  assumes "web_ok E docs entry obs s" and "\<And>x. forward (proxies E) x \<noteq> []"
  shows "\<exists>t hs. serve_all E s reqs = Some (t, hs) \<and> length hs = length reqs \<and>
    (\<forall>h \<in> set hs. \<exists>r rs. h = Replies (r # rs)) \<and> web_ok E docs entry obs t"
  by (rule serve_all_ok [OF assms])

text \<open>A server over memory, with nothing in it.\<close>

abbreviation demo_web_env where
  "demo_web_env \<equiv> \<lparr>route_be = mem_backend (same_key Path) 1,
     proxies = \<lparr>parse = (\<lambda>u. Inl (GoError ''invalid URI'')), request_uri = url_rest, debug = False, dumped = (\<lambda>_. None),
       forward = (\<lambda>_. [text_json 200 ''up''])\<rparr>,
     dockers = mem_docker, web_http = no_http, bro = demo_benv\<rparr>"

abbreviation demo_web where
  "demo_web \<equiv> \<lparr>store = \<lparr>coll = [], cache = []\<rparr>, coders = blank_watcher, brk = demo_brokers []\<rparr>"

lemma demo_web_ok: "web_ok demo_web_env mem_docs map_of demo_obs demo_web"
  by (simp add: web_ok_def mem_endpoints_inv all_stored_def demo_brokers_inv roomy_def blank_watcher_def)

abbreviation demo_static_req :: request where
  "demo_static_req \<equiv> demo_req ''POST'' ''/api/routes/static'' '''' (JObj [(''path'', JStr ''/a''), (''expected_response'', JStr ''x'')])"

lemma server_stays_up_witness:
  "\<exists>t hs. serve_all demo_web_env demo_web [(''1'', demo_static_req), (''1'', demo_get ''/a'' ''''),
      (''2'', demo_get ''/api/brokers/pool/config'' '''')] = Some (t, hs) \<and>
    length hs = 3 \<and> (\<forall>h \<in> set hs. \<exists>r rs. h = Replies (r # rs))"
  using server_stays_up [OF demo_web_ok, where reqs = "[(''1'', demo_static_req), (''1'', demo_get ''/a'' ''''),
      (''2'', demo_get ''/api/brokers/pool/config'' '''')]"]
  by fastforce

text \<open>Paths outside \<open>/api/\<close> are the mock endpoints' own.\<close>

lemma api_paths:
  assumes "\<not> prefix ''/api/'' (url_path req)"
  shows "api E now s req = None"
proof -
  have "url_path req \<noteq> ''/api/'' @ x" for x using assms by (metis prefixI)
  from this [of "''ping''"] this [of "''routes/static''"] this [of "''routes/static/expected_response''"]
    this [of "''routes/dynamic''"] this [of "''routes/dynamic/code''"] this [of "''routes/proxy''"]
    this [of "''routes/proxy/proxy_url''"] this [of "''brokers/pool''"] this [of "''brokers/pool/config''"]
    this [of "''brokers/pool/read''"] this [of "''brokers/pool/write''"] this [of "''brokers/esb''"]
    this [of "''brokers/esb/code''"] this [of "''brokers/esb/task''"]
  show ?thesis
    by (simp add: api_def routes_api_def routes_handler_def brokers_api_def brokers_handler_def)
qed

lemma serve_mock:
  assumes "\<not> prefix ''/api/'' (url_path req)"
  shows "serve E now s req = map_option (\<lambda>(t, h). Recovery (s\<lparr>store := mrts t, coders := crew t\<rparr>, h))
      (noroute (route_be E) (proxies E) (dockers E) (web_http E) \<lparr>mrts = store s, crew = coders s\<rparr> req)"
proof -
  have "\<not> prefix ''/api/'' (butlast (url_path req))"
    using assms prefix_order.trans [OF _ prefixeq_butlast] by blast
  then have "api E now s (req\<lparr>url_path := butlast (url_path req)\<rparr>) = None" by (intro api_paths) simp
  with assms show ?thesis by (simp add: serve_def api_paths)
qed

text \<open>C14: Through the whole server, while the database answers: a static endpoint posted for a free path
  outside \<open>/api/\<close> answers the next request for that path; posted for \<open>/api/ping\<close> it is accepted just the same, and
  never served.\<close>
theorem posted_static_served:
  assumes "endpoints_live (route_be E) docs entry (store s)" and "meth req = ''POST''"
    and "url_path req = ''/api/routes/static''" and "BindStatic req = Inr ep"
    and "endpoints docs (store s) (se_path ep) = None"
    and "meth g = ''GET''" and "uri g = se_path ep" and "url_path g = se_path ep"
  shows "\<exists>t. serve E now s req = Some (t, Replies [text_json 200 ''Static endpoint successfully added!'']) \<and>
    (\<not> prefix ''/api/'' (se_path ep) \<longrightarrow>
      map_option snd (serve E now' t g) = Some (Replies [text_json 200 (se_response ep)])) \<and>
    (se_path ep = ''/api/ping'' \<longrightarrow>
      map_option snd (serve E now' t g) = Some (Replies [text_json 200 ''Ping yourself, I have another work!'']))"
proof -
  let ?d = "route_of (se_path ep) (Static (se_response ep))"
  obtain r e where a: "addRoute (route_be E) (store s) ?d = (r, e)" by force
  have e: "e = None" using addRoute_live [OF assms(1)] a assms(5) by (metis snd_conv)
  note add = addRoute_endpoints [OF endpoints_liveD(1) [OF assms(1)] a]
  have live: "endpoints_live (route_be E) docs entry r" using endpoints_liveD(3) [OF assms(1) add(1)] .
  let ?t = "s\<lparr>store := r\<rparr>"
  have "serve E now s req = Some (?t, Replies [text_json 200 ''Static endpoint successfully added!''])"
    using a e assms(2-4) by (simp add: serve_def api_def routes_api_def routes_handler_def static_post_def Add_route_of del: route_of.simps)
  moreover have "map_option snd (serve E now' ?t g) = Some (Replies [text_json 200 (se_response ep)])"
    if "\<not> prefix ''/api/'' (se_path ep)"
  proof -
    have "map_option snd (noroute (route_be E) (proxies E) (dockers E) (web_http E) \<lparr>mrts = store ?t, crew = coders ?t\<rparr> g)
        = Some (Replies [text_json 200 (se_response ep)])"
      using noroute_live [of "route_be E" docs entry "\<lparr>mrts = store ?t, crew = coders ?t\<rparr>", where req = g] live add(3) e assms(7)
      by simp
    then obtain u where "noroute (route_be E) (proxies E) (dockers E) (web_http E)
        \<lparr>mrts = store ?t, crew = coders ?t\<rparr> g = Some (u, Replies [text_json 200 (se_response ep)])" by auto
    with serve_mock [of g E now' ?t] that assms(8) show ?thesis by simp
  qed
  moreover have "map_option snd (serve E now' ?t g) = Some (Replies [text_json 200 ''Ping yourself, I have another work!''])"
    if "se_path ep = ''/api/ping''"
    using that assms(6,8) by (simp add: serve_def api_def)
  ultimately show ?thesis by blast
qed

lemma posted_static_served_witness:
  "\<exists>t. serve demo_web_env ''1'' demo_web demo_static_req
      = Some (t, Replies [text_json 200 ''Static endpoint successfully added!'']) \<and>
    map_option snd (serve demo_web_env ''2'' t (demo_get ''/a'' '''')) = Some (Replies [text_json 200 ''x''])"
proof -
  have live: "endpoints_live (route_be demo_web_env) mem_docs map_of (store demo_web)"
    using mem_endpoints_live by simp
  have at: "meth demo_static_req = ''POST''" "url_path demo_static_req = ''/api/routes/static''"
    by (simp_all add: demo_req_def)
  have free: "endpoints mem_docs (store demo_web) ''/a'' = None" by (simp add: endpoints_def table_def)
  have get: "meth (demo_get ''/a'' '''') = ''GET''" "uri (demo_get ''/a'' '''') = ''/a''"
    "url_path (demo_get ''/a'' '''') = ''/a''" by (simp_all add: demo_get_def)
  show ?thesis
    using posted_static_served [OF live at demo_static, where g = "demo_get ''/a'' ''''" and now = "''1''" and now' = "''2''"]
      free get by (auto simp del: map_option_eq_Some)
qed

end
