(* ===== verification/DockerAdapter.thy ===== *)
theory DockerAdapter
  imports Worker
begin

text \<open>
  \<open>internal/coderun/docker-provider/docker_adapter.go\<close> over the Docker client: whether the image of
  the workers is built, what a worker container is created with, and the adapter as the interface
  \<open>docker\<close> the watcher uses.  And \<open>getCoderunRoot\<close> of \<open>scripts/runner.go\<close>, where a container looks
  for the scripts that the server wrote on the host.
\<close>

section \<open>The client\<close>

text \<open>The parts of a container's configuration the adapter sets; the limits as the integers they become.\<close>

record ContainerConfig =
  CPULimit :: int
  MemoryLimitMB :: int

record Mount =
  MSource :: string
  MTarget :: string

record container_config =
  Image :: string
  ExposedPorts :: "string list"
  Env :: "string list"

record host_config =
  NanoCPUs :: int
  Memory :: int
  PortBindings :: "(string \<times> string \<times> string) list"
  Mounts :: "Mount list"

text \<open>
  The calls of the client over the state of Docker, and what becomes of the containers meanwhile
  (\<open>ClientDrift\<close>).  \<open>ImageList\<close> gives the tags of each image;
  \<open>ImageBuild\<close> gives the build log and the error that reading it ends with, if any; \<open>tar_error\<close> is the error
  of archiving the project.
\<close>

record 'w client =
  ImageList :: "'w \<Rightarrow> go_error + string list list"
  ImageRemove :: "'w \<Rightarrow> string \<Rightarrow> 'w \<times> go_error option"
  tar_error :: "string \<Rightarrow> go_error option"
  ImageBuild :: "'w \<Rightarrow> string \<Rightarrow> string list \<Rightarrow> 'w \<times> (go_error + string \<times> go_error option)"
  ContainerCreate :: "'w \<Rightarrow> container_config \<Rightarrow> host_config \<Rightarrow> 'w \<times> (go_error + string)"
  ContainerStart :: "'w \<Rightarrow> string \<Rightarrow> 'w \<times> go_error option"
  ContainerInspect :: "'w \<Rightarrow> string \<Rightarrow> go_error + cinfo"
  ContainerRestart :: "'w \<Rightarrow> string \<Rightarrow> 'w \<times> go_error option"
  ContainerRemove :: "'w \<Rightarrow> string \<Rightarrow> bool \<Rightarrow> 'w \<times> go_error option"
  ClientDrift :: "'w \<Rightarrow> 'w \<Rightarrow> bool"

text \<open>What the adapter reads from its surroundings: the environment, the project and storage roots, the
  configuration.\<close>

record setting =
  getenv :: "string \<Rightarrow> string option"
  project_root :: "go_error + string"
  storage_root :: "go_error + string"
  limits :: ContainerConfig
  log_to_file :: bool
  log_dir :: string

definition TAG_PREFIX :: string where "TAG_PREFIX = ''mock-server-coderun-worker''"

text \<open>\<open>errors.Wrap\<close>.\<close>

definition Wrap :: "go_error \<Rightarrow> string \<Rightarrow> go_error" where
  "Wrap err message = GoError (message @ '': '' @ Error err)"

section \<open>The image\<close>

definition hasWorkerImages :: "'w client \<Rightarrow> 'w \<Rightarrow> go_error + bool" where
  "hasWorkerImages cli w = (case ImageList cli w of
     Inl err \<Rightarrow> Inl err
   | Inr images \<Rightarrow> Inr (list_ex (list_ex (\<lambda>tag. HasPrefix tag TAG_PREFIX)) images))"

definition PruneWorkerImages :: "'w client \<Rightarrow> 'w \<Rightarrow> 'w \<times> go_error option" where
  "PruneWorkerImages cli w = ImageRemove cli w TAG_PREFIX"

text \<open>
  \<open>bufio.Scanner\<close>: the lines of a text without their line ends, nothing after the last newline; a
  line that does not fit the buffer of 64 KiB ends the scan with an error, and so does the error of
  the reader, after what it read.
\<close>

definition drop_cr :: "string \<Rightarrow> string" where
  "drop_cr l = (if l \<noteq> [] \<and> last l = CHR 0x0D then butlast l else l)"

definition scan_lines :: "string \<Rightarrow> go_error option \<Rightarrow> string list \<times> go_error option" where
  "scan_lines data rd_err =
     (let parts = Split newline data; raw = (if last parts = [] then butlast parts else parts);
          short = takeWhile (\<lambda>l. length l < 65536) raw in
      (map drop_cr short,
       if short \<noteq> raw then Some (GoError ''bufio.Scanner: token too long'') else rd_err))"

record errorLine =
  el_Error :: string
  el_Message :: string

definition errorDetail_fields :: "errorLine field list" where
  "errorDetail_fields = [(''message'', \<lambda>x v. map_option (\<lambda>s. x\<lparr>el_Message := s\<rparr>) (dec_string (el_Message x) v))]"

definition errorLine_fields :: "errorLine field list" where
  "errorLine_fields = [(''error'', \<lambda>x v. map_option (\<lambda>s. x\<lparr>el_Error := s\<rparr>) (dec_string (el_Error x) v)),
     (''errorDetail'', \<lambda>x v. dec_struct errorDetail_fields x v)]"

definition parseDockerBuildLogs :: "string \<times> go_error option \<Rightarrow> go_error option" where
  "parseDockerBuildLogs rd =
     (let (lines, scan_err) = scan_lines (fst rd) (snd rd); lastLine = (if lines = [] then '''' else last lines) in
      case Unmarshal errorLine_fields \<lparr>el_Error = '''', el_Message = ''''\<rparr> lastLine of
        Inl err \<Rightarrow> Some err
      | Inr errLine \<Rightarrow> if el_Error errLine \<noteq> '''' then Some (GoError (el_Error errLine)) else scan_err)"

text \<open>From \<open>util.GetProjectRoot\<close> on: the part of \<open>BuildWorkerImage\<close> that builds.\<close>

definition build_image :: "'w client \<Rightarrow> setting \<Rightarrow> 'w \<Rightarrow> 'w \<times> go_error option" where
  "build_image cli st w = (case project_root st of
     Inl err \<Rightarrow> (w, Some err)
   | Inr root \<Rightarrow> (case tar_error cli root of
       Some err \<Rightarrow> (w, Some err)
     | None \<Rightarrow>
         let (w, res) = ImageBuild cli w ''internal/coderun/worker/Dockerfile'' [TAG_PREFIX] in
         (w, case res of Inl err \<Rightarrow> Some err | Inr body \<Rightarrow> parseDockerBuildLogs body)))"

definition adapter_Build :: "'w client \<Rightarrow> setting \<Rightarrow> 'w \<Rightarrow> 'w \<times> go_error option" where
  "adapter_Build cli st w = (case hasWorkerImages cli w of
     Inl err \<Rightarrow> (w, Some err)
   | Inr has_worker_images \<Rightarrow>
       if has_worker_images then
         (if getenv st ''REBUILD_CONTAINER'' \<noteq> None then
            let (w, err) = PruneWorkerImages cli w in
            (case err of
               Some err \<Rightarrow> (w, Some (Wrap err ''prune old images''))
             | None \<Rightarrow> build_image cli st w)
          else (w, None))
       else build_image cli st w)"

section \<open>The containers\<close>

definition getEnvList :: "setting \<Rightarrow> string \<Rightarrow> string list" where
  "getEnvList st p = [''PORT='' @ p,
     ''CONFIG_PATH='' @ (case getenv st ''CONFIG_PATH'' of None \<Rightarrow> '''' | Some c \<Rightarrow> c)]"

definition getMountList :: "setting \<Rightarrow> go_error + Mount list" where
  "getMountList st = (case storage_root st of
     Inl err \<Rightarrow> Inl err
   | Inr root \<Rightarrow> Inr (\<lparr>MSource = root, MTarget = ''/worker_dir/.storage''\<rparr> #
       (if log_to_file st then [\<lparr>MSource = log_dir st, MTarget = log_dir st\<rparr>] else [])))"

definition adapter_Create :: "'w client \<Rightarrow> setting \<Rightarrow> 'w \<Rightarrow> string \<Rightarrow> 'w \<times> (go_error + string)" where
  "adapter_Create cli st w p =
     (let cport = p @ ''/tcp'';
          contConfig = \<lparr>Image = TAG_PREFIX, ExposedPorts = [cport], Env = getEnvList st p\<rparr> in
      case getMountList st of
        Inl err \<Rightarrow> (w, Inl err)
      | Inr mount_list \<Rightarrow>
          let hostConfig = \<lparr>NanoCPUs = CPULimit (limits st), Memory = MemoryLimitMB (limits st),
                PortBindings = [(cport, ''127.0.0.1'', p)], Mounts = mount_list\<rparr>;
              (w, res) = ContainerCreate cli w contConfig hostConfig in
          (w, case res of
             Inl err \<Rightarrow> Inl (Wrap err ''container cannot be created'')
           | Inr i \<Rightarrow> Inr i))"

text \<open>The adapter is the \<open>docker\<close> of the watcher.  \<open>freePort\<close> is \<open>getFreePort\<close>.\<close>

definition adapter :: "'w client \<Rightarrow> setting \<Rightarrow> ('w \<Rightarrow> go_error + string) \<Rightarrow> 'w docker" where
  "adapter cli st freePort = \<lparr>getFreePort = freePort, BuildWorkerImage = adapter_Build cli st,
     CreateWorkerContainer = adapter_Create cli st, StartWorkerContainer = ContainerStart cli,
     InspectWorkerContainer = ContainerInspect cli, RestartWorkerContainer = ContainerRestart cli,
     RemoveWorkerContainer = (\<lambda>w i. ContainerRemove cli w i True), drift = ClientDrift cli\<rparr>"

section \<open>Where a container finds the scripts\<close>

definition getCoderunRoot :: "(string \<Rightarrow> go_error option) \<Rightarrow> go_error + string \<Rightarrow> go_error + string" where
  "getCoderunRoot mkdir root = (case FileStorageRoot mkdir root of
     Inl err \<Rightarrow> Inl err
   | Inr root \<Rightarrow> Inr (filepath_Join [root, ''coderun'']))"

text \<open>The path on the host behind a path in a container with these mounts.\<close>

definition host_path :: "Mount list \<Rightarrow> string \<Rightarrow> string option" where
  "host_path ms p = map_option (\<lambda>m. MSource m @ drop (length (MTarget m)) p)
     (List.find (\<lambda>m. HasPrefix p (MTarget m @ ''/'')) ms)"

lemma coderun_path:
  assumes "plain_name run_type" and "plain_name script"
  shows "filepath_Join [filepath_Join [filepath_Join [r, ''.storage''], ''coderun''], run_type, script]
    = filepath_Join [r, ''.storage''] @ slash # Join [slash] [''coderun'', run_type, script]"
proof -
  have "plain_name ''.storage''" "plain_name ''coderun''" by (simp_all add: plain_name_def slash_def)
  then show ?thesis
    using filepath_Join_append [of "[filepath_Join [r, ''.storage''], ''coderun'']" "[run_type, script]"]
      filepath_Join_plain_end [of "[''coderun'', run_type, script]" "[r, ''.storage'']"] storage_not_root [of "''.storage''" r]
      assms by simp
qed

lemma worker_dir:
  "path_Dir (''/worker_dir/go.mod'' @ [newline]) = ''/worker_dir''"
  "filepath_Join [''/worker_dir'', ''.storage''] = ''/worker_dir/.storage''"
  by code_simp+

section \<open>Failed builds\<close>

lemma scan_last_line:
  assumes "newline \<notin> set l" and "l \<noteq> []" and "length l < 65536" and "last l \<noteq> CHR 0x0D"
    and "\<forall>k \<in> set (Split newline before). length k < 65536"
  shows "\<exists>ls. scan_lines (before @ newline # l @ newline # []) err = (ls @ [l], err)"
    and "scan_lines (l @ newline # []) err = ([l], err)"
proof -
  have short: "takeWhile (\<lambda>k. length k < 65536) (ks @ [l]) = ks @ [l]" if "\<forall>k \<in> set ks. length k < 65536" for ks
    using that assms(3) by (induction ks) auto
  have l: "Split newline (l @ [newline]) = [l, []]"
    using Split_append [of newline l "[]"] Split_free [OF assms(1)] by simp
  have cr: "drop_cr l = l" using assms(4) by (simp add: drop_cr_def)
  show "scan_lines (l @ newline # []) err = ([l], err)"
    using l assms(3) cr by (simp add: scan_lines_def)
  have "Split newline (before @ newline # l @ newline # []) = Split newline before @ [l] @ [[]]"
    using Split_append [of newline before "l @ [newline]"] l by simp
  then show "\<exists>ls. scan_lines (before @ newline # l @ newline # []) err = (ls @ [l], err)"
    using short [OF assms(5)] cr by (simp add: scan_lines_def Let_def butlast_append)
qed

lemma parse_error_line:
  assumes "ascii m" and "ascii d"
  shows "Unmarshal errorLine_fields \<lparr>el_Error = '''', el_Message = ''''\<rparr>
      (json_print (JObj [(''errorDetail'', JObj [(''message'', JStr d)]), (''error'', JStr m)]))
    = Inr \<lparr>el_Error = m, el_Message = d\<rparr>"
proof -
  let ?j = "JObj [(''errorDetail'', JObj [(''message'', JStr d)]), (''error'', JStr m)]"
  have "json_ok ?j" using assms by (simp add: ascii_def)
  then have "json_parse (json_print ?j) = Some ?j" by (rule json_parse_print)
  then show ?thesis
    by (simp add: Unmarshal_def errorLine_fields_def errorDetail_fields_def field_named_def)
qed

text \<open>What \<open>Marshal\<close> prints of a string is on one line.\<close>

lemma hex_digit_not_newline: "n < 16 \<Longrightarrow> hex_digit n \<noteq> newline"
proof
  assume "n < 16" and "hex_digit n = newline"
  then have "hex_val newline = Some n" using hex_val_digit [of n] by simp
  then show False by (simp add: hex_val_def)
qed

lemma print_string_one_line: "newline \<notin> set (print_string s)"
proof -
  have "newline \<notin> set (esc_char c)" for c
  proof -
    have "of_char c < (256 :: nat)" using of_char_mod_256 [of c, where ?'a = nat] by (metis mod_less_divisor zero_less_numeral)
    then have "hex_digit (of_char c div 16) \<noteq> newline" "hex_digit (of_char c mod 16) \<noteq> newline"
      by (simp_all add: hex_digit_not_newline less_mult_imp_div_less)
    then show ?thesis by (auto simp: esc_char_def Let_def)
  qed
  then show ?thesis by (simp add: print_string_def)
qed

section \<open>The adapter meets the watcher's interface\<close>

text \<open>What the watcher relies on follows from the ids of the client: new ones for new containers.\<close>

definition client_ok :: "'w client \<Rightarrow> ('w \<Rightarrow> string set) \<Rightarrow> bool" where
  "client_ok cli known \<longleftrightarrow>
     (\<forall>w c h w' i. ContainerCreate cli w c h = (w', Inr i) \<longrightarrow> i \<notin> known w \<and> known w' = insert i (known w)) \<and>
     (\<forall>w c h w' e. ContainerCreate cli w c h = (w', Inl e) \<longrightarrow> known w' = known w) \<and>
     (\<forall>w i n f ts. known (fst (ContainerStart cli w i)) = known w \<and> known (fst (ContainerRestart cli w i)) = known w \<and>
       known (fst (ContainerRemove cli w i True)) = known w \<and> known (fst (ImageRemove cli w n)) = known w \<and>
       known (fst (ImageBuild cli w f ts)) = known w) \<and>
     (\<forall>w w'. ClientDrift cli w w' \<longrightarrow> known w \<subseteq> known w')"

lemma client_okD:
  assumes "client_ok cli known"
  shows "ContainerCreate cli w c h = (w', Inr i) \<Longrightarrow> i \<notin> known w \<and> known w' = insert i (known w)"
    and "ContainerCreate cli w c h = (w', Inl e) \<Longrightarrow> known w' = known w"
    and "known (fst (ImageRemove cli w n)) = known w" and "known (fst (ImageBuild cli w f ts)) = known w"
proof -
  note laws = assms [unfolded client_ok_def]
  show "ContainerCreate cli w c h = (w', Inr i) \<Longrightarrow> i \<notin> known w \<and> known w' = insert i (known w)"
    using conjunct1 [OF laws] by metis
  show "ContainerCreate cli w c h = (w', Inl e) \<Longrightarrow> known w' = known w"
    using conjunct1 [OF conjunct2 [OF laws]] by metis
  show "known (fst (ImageRemove cli w n)) = known w" "known (fst (ImageBuild cli w f ts)) = known w"
    using conjunct1 [OF conjunct2 [OF conjunct2 [OF laws]]] by metis+
qed

lemma adapter_Build_known:
  assumes "client_ok cli known"
  shows "known (fst (adapter_Build cli st w)) = known w"
proof -
  have build: "known (fst (build_image cli st v)) = known v" for v
    using client_okD(4) [OF assms, of v] by (simp add: build_image_def split_beta split: sum.split option.split)
  obtain v e where p: "PruneWorkerImages cli w = (v, e)" by force
  then have "known v = known w" using client_okD(3) [OF assms, of w TAG_PREFIX] by (simp add: PruneWorkerImages_def)
  then show ?thesis
    using build p by (simp add: adapter_Build_def split: sum.split option.split)
qed

lemma adapter_Create_known:
  assumes "client_ok cli known" and run: "adapter_Create cli st w p = (w', res)"
  shows "(\<forall>i. res = Inr i \<longrightarrow> i \<notin> known w \<and> known w' = insert i (known w)) \<and> (\<forall>e. res = Inl e \<longrightarrow> known w' = known w)"
proof (cases "getMountList st")
  case (Inl e)
  with run show ?thesis by (auto simp: adapter_Create_def)
next
  case (Inr ms)
  obtain v r where c: "ContainerCreate cli w \<lparr>Image = TAG_PREFIX, ExposedPorts = [p @ ''/tcp''], Env = getEnvList st p\<rparr>
      \<lparr>NanoCPUs = CPULimit (limits st), Memory = MemoryLimitMB (limits st),
        PortBindings = [(p @ ''/tcp'', ''127.0.0.1'', p)], Mounts = ms\<rparr> = (v, r)" by force
  with run Inr have "w' = v" "res = (case r of Inl err \<Rightarrow> Inl (Wrap err ''container cannot be created'') | Inr i \<Rightarrow> Inr i)"
    by (auto simp: adapter_Create_def)
  with c client_okD(1,2) [OF assms(1)] show ?thesis by (cases r) simp_all
qed

lemma adapter_ok:
  assumes "client_ok cli known"
  shows "docker_ok (adapter cli st freePort) known"
  using assms adapter_Build_known [OF assms] adapter_Create_known [OF assms]
  by (auto simp: docker_ok_def adapter_def client_ok_def)

section \<open>Properties\<close>

text \<open>C16: A build that fails is reported: when no image exists and the last line of the build log is
  Docker's error line, \<open>BuildWorkerImage\<close> returns the error in it, whatever the lines before it say.  When there
  is an image whose tag merely begins with the name of the workers' image, nothing is built and the call
  succeeds.\<close>
theorem failed_build_reported:
  defines "line m d \<equiv> json_print (JObj [(''errorDetail'', JObj [(''message'', JStr d)]), (''error'', JStr m)])"
  assumes "ImageList cli w = Inr images" and "project_root st = Inr root" and "tar_error cli root = None"
    and "ImageBuild cli w ''internal/coderun/worker/Dockerfile'' [TAG_PREFIX] = (w', Inr (text, rd_err))"
    and "text = before @ newline # line m d @ [newline]" and "\<forall>k \<in> set (Split newline before). length k < 65536"
    and "length (line m d) < 65536" and "ascii m" "ascii d" "m \<noteq> ''''"
  shows "(list_ex (list_ex (prefix TAG_PREFIX)) images \<and> getenv st ''REBUILD_CONTAINER'' = None \<longrightarrow>
      adapter_Build cli st w = (w, None)) \<and>
    (\<not> list_ex (list_ex (prefix TAG_PREFIX)) images \<longrightarrow> adapter_Build cli st w = (w', Some (GoError m)))"
proof -
  have one: "newline \<notin> set (line m d)"
    using print_string_one_line by (auto simp: line_def Join_Cons)
  have ends: "line m d \<noteq> []" "last (line m d) = CHR ''}''"
    by (simp_all add: line_def)
  have "last (line m d) \<noteq> CHR 0x0D" by (simp add: ends(2))
  from scan_last_line(1) [OF one ends(1) assms(8) this assms(7), of rd_err]
  obtain ls where scan: "scan_lines text rd_err = (ls @ [line m d], rd_err)" using assms(6) by blast
  have "parseDockerBuildLogs (text, rd_err) = Some (GoError m)"
    using scan parse_error_line [OF assms(9,10)] assms(11) by (simp add: parseDockerBuildLogs_def line_def)
  then have "build_image cli st w = (w', Some (GoError m))"
    using assms(3-5) by (simp add: build_image_def)
  moreover have "hasWorkerImages cli w = Inr (list_ex (list_ex (prefix TAG_PREFIX)) images)"
    using assms(2) by (simp add: hasWorkerImages_def HasPrefix_prefix)
  ultimately show ?thesis by (auto simp: adapter_Build_def)
qed

text \<open>A client that has no image and whose build fails.\<close>

definition demo_client :: "string \<Rightarrow> nat client" where
  "demo_client text = \<lparr>ImageList = (\<lambda>w. Inr [[''golang:1.19'']]), ImageRemove = (\<lambda>w n. (w, None)), tar_error = (\<lambda>_. None),
     ImageBuild = (\<lambda>w f ts. (Suc w, Inr (text, None))), ContainerCreate = (\<lambda>w c h. (Suc w, Inr (Itoa (int w)))),
     ContainerStart = (\<lambda>w i. (w, None)), ContainerInspect = (\<lambda>w i. Inl (GoError ''no such container'')),
     ContainerRestart = (\<lambda>w i. (w, None)), ContainerRemove = (\<lambda>w i f. (w, None)),
     ClientDrift = (\<lambda>w w'. w' = w)\<rparr>"

definition demo_setting :: setting where
  "demo_setting = \<lparr>getenv = Map.empty, project_root = Inr ''/srv'', storage_root = Inr ''/srv/.storage'',
     limits = \<lparr>CPULimit = 0, MemoryLimitMB = 0\<rparr>, log_to_file = False, log_dir = ''/var/log''\<rparr>"

lemma failed_build_reported_witness:
  "let log = ''Step 1'' @ newline # json_print (JObj [(''errorDetail'', JObj [(''message'', JStr ''x'')]), (''error'', JStr ''x'')])
       @ [newline]
   in adapter_Build (demo_client log) demo_setting 0 = (1, Some (GoError ''x''))"
proof -
  let ?line = "json_print (JObj [(''errorDetail'', JObj [(''message'', JStr ''x'')]), (''error'', JStr ''x'')])"
  let ?log = "''Step 1'' @ newline # ?line @ [newline]"
  have short: "length ?line < 65536" by code_simp
  show ?thesis
    using failed_build_reported [of "demo_client ?log" 0 "[[''golang:1.19'']]" demo_setting "''/srv''" 1 ?log None "''Step 1''"
        "''x''" "''x''"] short
    by (simp add: demo_client_def demo_setting_def TAG_PREFIX_def ascii_def)
qed

text \<open>C15: The script a server wrote is the script a worker runs: through the bind mount of the adapter, the
  path that \<open>RunPythonScript\<close> builds in the container (whose project is in \<open>/worker_dir\<close>) leads to the file
  that \<open>Write\<close> filled on the host, whatever the project root of the host is.\<close>
theorem script_reaches_container:
  assumes "storage_root st = FileStorageRoot mkdir root" and "NewFileStorageDriver mkdir root ''coderun'' = Inr fs"
    and "fs_Write sys fs d run_type script code = (d', None)" and "plain_name run_type" and "plain_name script"
    and "getenv st' ''WORKING_DIRECTORY'' = None"
    and "getCoderunRoot mkdir' (GetProjectRoot (getenv st') (Inr (''/worker_dir/go.mod'' @ [newline]))) = Inr croot"
  shows "\<exists>ms p. getMountList st = Inr ms \<and> host_path ms (filepath_Join [croot, run_type, script]) = Some p \<and>
    files d' p = Some code"
proof -
  let ?tail = "slash # Join [slash] [''coderun'', run_type, script]"
  obtain r where s: "FileStorageRoot mkdir root = Inr (filepath_Join [r, ''.storage''])"
    and fs: "fs_prefix fs = [filepath_Join [filepath_Join [r, ''.storage''], ''coderun'']]"
    using assms(2) by (auto simp: NewFileStorageDriver_def FileStorageRoot_def Let_def split: sum.splits option.splits)
  have "croot = filepath_Join [filepath_Join [''/worker_dir'', ''.storage''], ''coderun'']"
    using assms(6,7) worker_dir
    by (auto simp: getCoderunRoot_def GetProjectRoot_def FileStorageRoot_def Let_def split: sum.splits option.splits)
  then have inside: "filepath_Join [croot, run_type, script] = ''/worker_dir/.storage'' @ ?tail"
    using coderun_path [OF assms(4,5), of "''/worker_dir''"] worker_dir(2) by simp
  have outside: "fs_path fs run_type script = filepath_Join [r, ''.storage''] @ ?tail"
    using coderun_path [OF assms(4,5), of r] by (simp add: fs_path_def fs)
  obtain ms where ms: "getMountList st = Inr (\<lparr>MSource = filepath_Join [r, ''.storage''], MTarget = ''/worker_dir/.storage''\<rparr> # ms)"
    using assms(1) s by (auto simp: getMountList_def)
  then have "host_path (\<lparr>MSource = filepath_Join [r, ''.storage''], MTarget = ''/worker_dir/.storage''\<rparr> # ms)
      (filepath_Join [croot, run_type, script]) = Some (fs_path fs run_type script)"
    by (simp add: host_path_def inside outside HasPrefix_def slash_def)
  with ms fs_Write_ok(1) [OF assms(3)] show ?thesis by auto
qed

lemma script_reaches_container_witness:
  "let mkdir = (\<lambda>_. None); sys = \<lparr>deny = Map.empty, short = Map.empty\<rparr>
   in \<exists>fs d' ms p. NewFileStorageDriver mkdir (Inr ''/srv'') ''coderun'' = Inr fs \<and>
     fs_Write sys fs \<lparr>files = Map.empty\<rparr> ''mapper'' ''m.py'' ''code'' = (d', None) \<and>
     getMountList demo_setting = Inr ms \<and>
     host_path ms ''/worker_dir/.storage/coderun/mapper/m.py'' = Some p \<and> files d' p = Some ''code''"
proof -
  let ?mkdir = "\<lambda>_. None" and ?sys = "\<lparr>deny = Map.empty, short = Map.empty\<rparr>"
  obtain fs where fs: "NewFileStorageDriver ?mkdir (Inr ''/srv'') ''coderun'' = Inr fs"
    by (simp add: NewFileStorageDriver_def FileStorageRoot_def)
  obtain d' where w: "fs_Write ?sys fs \<lparr>files = Map.empty\<rparr> ''mapper'' ''m.py'' ''code'' = (d', None)"
    by (simp add: fs_Write_def Let_def)
  have "filepath_Join [''/srv'', ''.storage''] = ''/srv/.storage''" by code_simp
  then have st: "storage_root demo_setting = FileStorageRoot ?mkdir (Inr ''/srv'')"
    by (simp add: demo_setting_def FileStorageRoot_def)
  have env: "getenv demo_setting ''WORKING_DIRECTORY'' = None" by (simp add: demo_setting_def)
  have "filepath_Join [''/worker_dir/.storage'', ''coderun''] = ''/worker_dir/.storage/coderun''" by code_simp
  then have root: "getCoderunRoot ?mkdir (GetProjectRoot (getenv demo_setting) (Inr (''/worker_dir/go.mod'' @ [newline])))
      = Inr ''/worker_dir/.storage/coderun''"
    using env worker_dir by (simp add: getCoderunRoot_def GetProjectRoot_def FileStorageRoot_def)
  have path: "filepath_Join [''/worker_dir/.storage/coderun'', ''mapper'', ''m.py''] = ''/worker_dir/.storage/coderun/mapper/m.py''"
    by code_simp
  have plain: "plain_name ''mapper''" "plain_name ''m.py''" by (simp_all add: plain_name_def slash_def)
  from script_reaches_container [OF st fs w plain env root] fs w show ?thesis
    by (simp add: path)
qed

end
