(* ===== verification/ConfigFile.thy ===== *)
theory ConfigFile
  imports Configs DockerAdapter "HOL-Library.Word"
begin

text \<open>
  \<open>internal/configs\<close>: the structs of the configuration file, \<open>LoadConfig\<close> and the getters.  A section
  the file may leave out is a pointer, here an option; the decoder of YAML is a parameter.  The package
  variable \<open>config\<close> is the state.  The connections of the brokers, which are read with the environment, are in
  \<open>Configs\<close>; \<open>BrokersConfig\<close> has the scheduler's section besides.
\<close>

section \<open>The structs\<close>

text \<open>Durations in nanoseconds.\<close>

record MPTaskSchedulerConfig =
  R_workers :: "32 word"
  W_workers :: "32 word"
  Read_timeout :: int
  Write_timeout :: int

record BrokersConfig = brokers_config +
  Scheduler :: MPTaskSchedulerConfig

record WorkerConfig =
  Container :: ContainerConfig
  HandleTimeout :: int

record CoderunConfig =
  WorkerSection :: WorkerConfig
  Worker_cnt :: int

record ServerConfig =
  SAddr :: string
  AcceptTimeout :: int
  ResponseTimeout :: int
  DeployProduction :: bool

record LogConfig =
  Level :: "8 word"
  ConsoleLoggingEnabled :: bool
  FileLoggingEnabled :: bool
  Directory :: string
  Filename :: string
  MaxSize :: int
  MaxBackups :: int
  MaxAge :: int

record DatabaseConfig =
  InMemory :: bool
  CacheSize :: int

record ComponentsConfig =
  UseBrokers :: bool
  UseCoderun :: bool
  UseServer :: bool

record ServiceConfig =
  Components :: ComponentsConfig
  Brokers :: "BrokersConfig option"
  Coderun :: "CoderunConfig option"
  ServerSection :: "ServerConfig option"
  Logs :: LogConfig
  Database :: DatabaseConfig

section \<open>The getters\<close>

text \<open>The address of a field of a nil struct panics; a nil pointer itself is handed out.\<close>

definition GetMPTaskSchedulerConfig :: "ServiceConfig \<Rightarrow> MPTaskSchedulerConfig outcome" where
  "GetMPTaskSchedulerConfig c = (case Brokers c of
     None \<Rightarrow> Panic ''nil pointer dereference''
   | Some b \<Rightarrow> Return (Scheduler b))"

definition GetCoderunConfig :: "ServiceConfig \<Rightarrow> CoderunConfig option" where
  "GetCoderunConfig c = Coderun c"

definition GetServerConfig :: "ServiceConfig \<Rightarrow> ServerConfig option" where
  "GetServerConfig c = ServerSection c"

definition GetComponentsConfig :: "ServiceConfig \<Rightarrow> ComponentsConfig" where
  "GetComponentsConfig c = Components c"

definition GetDatabaseConfig :: "ServiceConfig \<Rightarrow> DatabaseConfig" where
  "GetDatabaseConfig c = Database c"

definition GetLogConfig :: "ServiceConfig \<Rightarrow> LogConfig" where
  "GetLogConfig c = Logs c"

section \<open>Loading\<close>

definition DefaultConfigPath :: string where
  "DefaultConfigPath = ''/configs/config.yaml''"

text \<open>
  \<open>root\<close> is the answer of \<open>GetProjectRoot\<close>, \<open>readFile\<close> is \<open>os.ReadFile\<close>, and \<open>yaml\<close> is
  \<open>yaml.Unmarshal\<close>: it fills the variable from what it holds, and may have filled a part of it when it fails.
  A rooted path is absolute, so \<open>filepath.Abs\<close> keeps it.  The hook is there for tests.
\<close>

definition LoadConfig :: "env \<Rightarrow> go_error + string \<Rightarrow> (string \<Rightarrow> go_error + string)
    \<Rightarrow> (string \<Rightarrow> ServiceConfig \<Rightarrow> ServiceConfig \<times> go_error option) \<Rightarrow> (ServiceConfig \<Rightarrow> ServiceConfig) option
    \<Rightarrow> ServiceConfig \<Rightarrow> ServiceConfig \<times> unit outcome" where
  "LoadConfig LookupEnv root readFile yaml configureForTesting config =
     (let cfg_path = (case LookupEnv ''CONFIG_PATH'' of None \<Rightarrow> '''' | Some p \<Rightarrow> p);
          cfg_path = (if cfg_path = '''' then DefaultConfigPath else cfg_path) in
      case root of
        Inl err \<Rightarrow> (config, Panic (Error err))
      | Inr path \<Rightarrow>
          (case readFile (filepath_Join [path, cfg_path]) of
             Inl err \<Rightarrow> (config, Panic (Error err))
           | Inr cfg \<Rightarrow>
               let (config, err) = yaml cfg config in
               (case err of
                  Some err \<Rightarrow> (config, Panic (Error err))
                | None \<Rightarrow> (case configureForTesting of
                    None \<Rightarrow> (config, Return ())
                  | Some f \<Rightarrow> (f config, Return ())))))"

text \<open>The variable before anything is loaded.\<close>

definition zero_config :: ServiceConfig where
  "zero_config = \<lparr>Components = \<lparr>UseBrokers = False, UseCoderun = False, UseServer = False\<rparr>,
     Brokers = None, Coderun = None, ServerSection = None,
     Logs = \<lparr>Level = 0, ConsoleLoggingEnabled = False, FileLoggingEnabled = False, Directory = '''', Filename = '''',
       MaxSize = 0, MaxBackups = 0, MaxAge = 0\<rparr>,
     Database = \<lparr>InMemory = False, CacheSize = 0\<rparr>\<rparr>"

end
