(* ===== verification/Logging.thy ===== *)
theory Logging
  imports ConfigFile Server
begin

text \<open>
  \<open>internal/logger\<close>: what the logger that \<open>Init\<close> sets up writes and where (\<open>init_logger.go\<close>), and the
  middleware \<open>GinLogger\<close> around the handlers of the server (\<open>gin_logger.go\<close>).  The logging library is
  modelled by its threshold and its writers; an entry is its level, its message and the fields the code adds,
  but for the latency, the address of the client and the error of the context.
\<close>

section \<open>The logger\<close>

text \<open>The levels of the library, from -1 (trace) to 7 (disabled).\<close>

definition InfoLevel :: int where "InfoLevel = 1"
definition WarnLevel :: int where "WarnLevel = 2"
definition ErrorLevel :: int where "ErrorLevel = 3"

datatype log_writer = Console | RollingFile string int int int

record zlogger =
  writers :: "log_writer list"
  threshold :: int

text \<open>\<open>path.Join\<close> is \<open>filepath.Join\<close> here; \<open>mkdirAll\<close> is the error of \<open>os.MkdirAll\<close>.\<close>

definition newRollingFile :: "(string \<Rightarrow> go_error option) \<Rightarrow> LogConfig \<Rightarrow> log_writer option" where
  "newRollingFile mkdirAll cfg = (case mkdirAll (Directory cfg) of
     Some err \<Rightarrow> None
   | None \<Rightarrow> Some (RollingFile (filepath_Join [Directory cfg, Filename cfg]) (MaxBackups cfg) (MaxSize cfg) (MaxAge cfg)))"

text \<open>\<open>zerolog.Level\<close> is an \<open>int8\<close>: the conversion of the configured byte wraps.\<close>

definition logger_Init :: "(string \<Rightarrow> go_error option) \<Rightarrow> LogConfig \<Rightarrow> zlogger" where
  "logger_Init mkdirAll cfg =
     (let ws = (if ConsoleLoggingEnabled cfg then [Console] else []);
          ws = (if FileLoggingEnabled cfg then
                  (case newRollingFile mkdirAll cfg of None \<Rightarrow> ws | Some file_logger \<Rightarrow> ws @ [file_logger])
                else ws)
      in \<lparr>writers = ws, threshold = sint (Level cfg)\<rparr>)"

text \<open>Where an event of a level goes: to every writer, when it reaches the threshold of the logger and the
  library's own, which nobody sets: it stays at debug.\<close>

definition GlobalLevel :: int where "GlobalLevel = 0"

definition written_to :: "zlogger \<Rightarrow> int \<Rightarrow> log_writer list" where
  "written_to l level = (if threshold l \<le> level \<and> GlobalLevel \<le> level then writers l else [])"

section \<open>The middleware\<close>

record requestData =
  rd_status :: nat
  rd_path :: string
  rd_method :: string

record log_entry =
  e_level :: int
  e_msg :: string
  e_data :: requestData

definition log_request :: "requestData \<Rightarrow> log_entry" where
  "log_request r =
     (let (level, msg) = (if 500 \<le> rd_status r then (ErrorLevel, ''Internal error'')
            else if 400 \<le> rd_status r then (WarnLevel, ''Client Error'')
            else (InfoLevel, ''Success''))
      in \<lparr>e_level = level, e_msg = msg, e_data = r\<rparr>)"

text \<open>
  The status \<open>gin\<close> reports is the one that was sent: of several replies the first (a handler that replies
  nothing sends 200).  The logger comes before \<open>Recovery\<close> in the chain, so the reply to a panic is the 500 of
  \<open>Recovery\<close>, which \<open>serve\<close> includes.  A handler that ends the process is not logged.
\<close>

fun sent_status :: "handled \<Rightarrow> nat option" where
  "sent_status (Replies []) = Some 200"
| "sent_status (Replies (r # rs)) = Some (status r)"
| "sent_status (Panics m) = None"
| "sent_status Exits = None"

definition GinLogger :: "('s \<Rightarrow> request \<Rightarrow> ('s \<times> handled) option) \<Rightarrow> 's \<Rightarrow> request
    \<Rightarrow> ('s \<times> handled \<times> log_entry list) option" where
  "GinLogger Next s req =
     (let path = url_path req in
      map_option (\<lambda>(s, h). (s, h, case sent_status h of
          None \<Rightarrow> []
        | Some code \<Rightarrow> [log_request \<lparr>rd_status = code, rd_path = path, rd_method = meth req\<rparr>]))
        (Next s req))"

text \<open>The server with its log: requests one after the other, the entries in the order they are written.\<close>

fun serve_logged :: "('c, 'h, 'v, 'w, 'p, 'q, 'e, 'g, 'm) web_env \<Rightarrow> ('c, 'h, 'v, 'w, 'p, 'q, 'e, 'g, 'm) web
    \<Rightarrow> (string \<times> request) list
    \<Rightarrow> (('c, 'h, 'v, 'w, 'p, 'q, 'e, 'g, 'm) web \<times> handled list \<times> log_entry list) option" where
  "serve_logged E s [] = Some (s, [], [])"
| "serve_logged E s ((now, req) # rest) = (case GinLogger (serve E now) s req of
     None \<Rightarrow> None
   | Some (t, h, es) \<Rightarrow> map_option (\<lambda>(u, hs, fs). (u, h # hs, es @ fs)) (serve_logged E t rest))"

text \<open>The middleware changes nothing but the log.\<close>

lemma serve_logged_serves:
  "map_option (\<lambda>(u, hs, es). (u, hs)) (serve_logged E s reqs) = serve_all E s reqs"
proof (induction reqs arbitrary: s)
  case (Cons a reqs)
  obtain now req where a: "a = (now, req)" by force
  show ?case
  proof (cases "serve E now s req")
    case None
    then show ?thesis by (simp add: a GinLogger_def)
  next
    case (Some out)
    obtain t h where "out = (t, h)" by force
    with Some Cons.IH [of t, symmetric] show ?thesis
      by (auto simp: a GinLogger_def option.map_comp comp_def split_beta)
  qed
qed simp

text \<open>One entry of the log tells one request and its answer.\<close>

definition entry_for :: "request \<Rightarrow> handled \<Rightarrow> log_entry \<Rightarrow> bool" where
  "entry_for req h e \<longleftrightarrow> (\<exists>r rs. h = Replies (r # rs) \<and>
     e_data e = \<lparr>rd_status = status r, rd_path = url_path req, rd_method = meth req\<rparr> \<and>
     (e_level e = ErrorLevel \<longleftrightarrow> status r \<ge> 500) \<and>
     (e_level e = WarnLevel \<longleftrightarrow> 400 \<le> status r \<and> status r < 500) \<and>
     (e_level e = InfoLevel \<longleftrightarrow> status r < 400))"

lemma log_request_entry:
  "entry_for req (Replies (r # rs)) (log_request \<lparr>rd_status = status r, rd_path = url_path req, rd_method = meth req\<rparr>)"
  by (auto simp: entry_for_def log_request_def InfoLevel_def WarnLevel_def ErrorLevel_def)

lemma entry_dataD: "entry_for req h e \<Longrightarrow> rd_path (e_data e) = url_path req \<and> rd_method (e_data e) = meth req"
  by (auto simp: entry_for_def)

section \<open>Properties\<close>



text \<open>What the configured level lets through: an event is written exactly when its level is at least the
  configured one read as a signed byte, so a level from 128 on, like 0, writes everything and one from 8 to 127 nothing;
  an event that is written goes to the console and to the rolling file as far as they are enabled, but for a
  file whose directory cannot be made, which is left out.\<close>
lemma logged_above_threshold:
  assumes "0 \<le> level" and "level \<le> 7"
  shows "written_to (logger_Init mkdirAll cfg) level =
      (if 128 \<le> uint (Level cfg) \<or> uint (Level cfg) \<le> level
       then (if ConsoleLoggingEnabled cfg then [Console] else []) @
         (if FileLoggingEnabled cfg \<and> mkdirAll (Directory cfg) = None
          then [RollingFile (filepath_Join [Directory cfg, Filename cfg]) (MaxBackups cfg) (MaxSize cfg) (MaxAge cfg)] else [])
       else [])"
proof -
  let ?k = "uint (Level cfg)"
  have k: "0 \<le> ?k" "?k < 256" using uint_lt2p [of "Level cfg"] by simp_all
  have "sint (Level cfg) = take_bit 8 ?k - 256 * of_bool (bit ?k 7)"
    using signed_take_bit_eq_take_bit_minus [of 7 ?k] by (simp add: sint_uint)
  moreover have "take_bit 8 ?k = ?k" using k by (simp add: take_bit_int_eq_self)
  moreover have "bit ?k 7 \<longleftrightarrow> 128 \<le> ?k"
  proof (cases "128 \<le> ?k")
    case True
    with k have "?k div 128 = 1" by presburger
    with True show ?thesis by (simp add: bit_iff_odd)
  qed (use k in \<open>simp add: bit_iff_odd\<close>)
  ultimately have "sint (Level cfg) = (if 128 \<le> ?k then ?k - 256 else ?k)" by simp
  with assms k show ?thesis
    by (auto simp: written_to_def logger_Init_def newRollingFile_def GlobalLevel_def Let_def split: option.splits)
qed

lemma logged_above_threshold_witness:
  "let cfg = \<lparr>Level = 200, ConsoleLoggingEnabled = True, FileLoggingEnabled = True, Directory = ''/tmp'', Filename = ''log'',
       MaxSize = 500, MaxBackups = 5, MaxAge = 30\<rparr>
   in written_to (logger_Init (\<lambda>_. Some (GoError ''denied'')) cfg) InfoLevel = [Console] \<and>
     written_to (logger_Init (\<lambda>_. None) (cfg\<lparr>Level := 3\<rparr>)) WarnLevel = []"
proof -
  let ?cfg = "\<lparr>Level = 200, ConsoleLoggingEnabled = True, FileLoggingEnabled = True, Directory = ''/tmp'', Filename = ''log'',
       MaxSize = 500, MaxBackups = 5, MaxAge = 30\<rparr>"
  show ?thesis
    using logged_above_threshold [of InfoLevel "\<lambda>_. Some (GoError ''denied'')" ?cfg]
      logged_above_threshold [of WarnLevel "\<lambda>_. None" "?cfg\<lparr>Level := 3\<rparr>"]
    by (simp add: InfoLevel_def WarnLevel_def Let_def)
qed

end
