(* ===== verification/MongoStore.thy ===== *)
theory MongoStore
  imports Endpoints EsbRecords MessagePools TaskMessages ConfigFile
begin

text \<open>
  \<open>internal/database/mongo.go\<close> and \<open>database.go\<close>: how the database is started, what \<open>init\<close> makes of the
  four collections, the calls of the other packages over the whole \<open>MongoStorage\<close>, and \<open>Disconnect\<close>.  The
  fields of the documents have the names of \<open>models.go\<close>; a unique index is on a field by its name.  The driver,
  the server in memory and the cache are parameters.
\<close>

section \<open>Names\<close>

definition ROUTES_COLLECTION :: string where "ROUTES_COLLECTION = ''routes''"
definition TASK_MESSAGES_COLLECTION :: string where "TASK_MESSAGES_COLLECTION = ''task_messages''"
definition ESB_RECORDS_COLLECTION :: string where "ESB_RECORDS_COLLECTION = ''esb_records''"
definition MESSAGE_POOLS_COLLECTION :: string where "MESSAGE_POOLS_COLLECTION = ''message_pools''"

definition ROUTE_PATH_FIELD :: string where "ROUTE_PATH_FIELD = ''path''"
definition POOL_NAME_IN_FIELD :: string where "POOL_NAME_IN_FIELD = ''pool_name_in''"
definition MESSAGE_POOL_NAME :: string where "MESSAGE_POOL_NAME = ''name''"

lemmas collection_names = ROUTES_COLLECTION_def TASK_MESSAGES_COLLECTION_def ESB_RECORDS_COLLECTION_def
  MESSAGE_POOLS_COLLECTION_def

text \<open>The BSON of a document: its fields by the tags of the struct, empty ones left out where the tag says so.\<close>

definition omitempty :: "string \<Rightarrow> string option" where
  "omitempty s = (if s = '''' then None else Some s)"

definition bson_Route :: "Route \<Rightarrow> string \<Rightarrow> string option" where
  "bson_Route d f = (if f = ''path'' then Some (Path d) else if f = ''type'' then Some (Type d)
     else if f = ''script_name'' then omitempty (ScriptName d) else if f = ''response'' then omitempty (Response d)
     else if f = ''proxy_url'' then Some (ProxyURL d) else None)"

definition bson_ESBRecord :: "ESBRecord \<Rightarrow> string \<Rightarrow> string option" where
  "bson_ESBRecord d f = (if f = ''pool_name_in'' then Some (PoolNameIn d)
     else if f = ''pool_name_out'' then Some (PoolNameOut d)
     else if f = ''mapper_script_name'' then Some (MapperScriptName d) else None)"

definition bson_MessagePool :: "MessagePool \<Rightarrow> string \<Rightarrow> string option" where
  "bson_MessagePool d f = (if f = ''name'' then Some (dbName d) else if f = ''queue'' then Some (dbQueue d)
     else if f = ''broker'' then Some (dbBroker d) else if f = ''config'' then Some (dbConfig d) else None)"

text \<open>Two documents that unique indexes on the fields \<open>fs\<close> do not let stand together.\<close>

definition index_clash :: "('d \<Rightarrow> string \<Rightarrow> string option) \<Rightarrow> string list \<Rightarrow> 'd \<Rightarrow> 'd \<Rightarrow> bool" where
  "index_clash bson fs d d' \<longleftrightarrow> list_ex (\<lambda>f. bson d f = bson d' f) fs"

section \<open>The server and its client\<close>

text \<open>
  A client reaches one server: the states of the collections of \<open>mongo_storage\<close>, and the unique
  indexes made so far by collection.
\<close>

record ('r, 't, 'e, 'p) mongo_client =
  of_routes :: 'r
  of_tasks :: 't
  of_records :: 'e
  of_pools :: 'p
  unique_on :: "string \<Rightarrow> string list"

text \<open>
  What a collection does depends on its indexes; a cache on its size.  \<open>index_error\<close> is the error of
  \<open>Indexes().CreateOne\<close>.
\<close>

record ('r, 'rh, 't, 'e, 'eh, 'p, 'ph) mongo_lib =
  index_error :: "('r, 't, 'e, 'p) mongo_client \<Rightarrow> string \<Rightarrow> string \<Rightarrow> go_error option"
  route_coll :: "string list \<Rightarrow> ('r, Route) coll_driver"
  task_coll :: "string list \<Rightarrow> ('t, TaskMessage) coll_driver"
  record_coll :: "string list \<Rightarrow> ('e, ESBRecord) coll_driver"
  pool_coll :: "string list \<Rightarrow> ('p, MessagePool) coll_driver"
  route_cache :: "int \<Rightarrow> 'rh \<times> ('rh, Route) cache_driver"
  record_cache :: "int \<Rightarrow> 'eh \<times> ('eh, ESBRecord) cache_driver"
  pool_cache :: "int \<Rightarrow> 'ph \<times> ('ph, MessagePool) cache_driver"

definition create_index :: "('r, 'rh, 't, 'e, 'eh, 'p, 'ph) mongo_lib \<Rightarrow> ('r, 't, 'e, 'p) mongo_client
    \<Rightarrow> string \<Rightarrow> string \<Rightarrow> ('r, 't, 'e, 'p) mongo_client \<times> go_error option" where
  "create_index lib cl c f = (case index_error lib cl c f of
     Some err \<Rightarrow> (cl, Some err)
   | None \<Rightarrow> (cl\<lparr>unique_on := (unique_on cl)(c := f # unique_on cl c)\<rparr>, None))"

section \<open>Init\<close>

text \<open>A store is nil until its \<open>create\<close> has returned, with or without an error.\<close>

record ('r, 'rh, 't, 'e, 'eh, 'p, 'ph) MongoStorage =
  mclient :: "('r, 't, 'e, 'p) mongo_client option"
  mroutes :: "('r, 'rh) cached option"
  mtasks :: "'t option"
  mrecords :: "('e, 'eh) cached option"
  mpools :: "('p, 'ph) cached option"

definition createRoutes :: "('r, 'rh, 't, 'e, 'eh, 'p, 'ph) mongo_lib \<Rightarrow> ('r, 't, 'e, 'p) mongo_client \<Rightarrow> DatabaseConfig
    \<Rightarrow> ('r, 't, 'e, 'p) mongo_client \<times> ('r, 'rh) cached \<times> go_error option" where
  "createRoutes lib cl cfg =
     (let r = \<lparr>coll = of_routes cl, cache = fst (route_cache lib (CacheSize cfg))\<rparr>;
          (cl, err) = create_index lib cl ROUTES_COLLECTION ROUTE_PATH_FIELD in
      (cl, r, err))"

definition createTaskMessages :: "('r, 't, 'e, 'p) mongo_client \<Rightarrow> 't \<times> go_error option" where
  "createTaskMessages cl = (of_tasks cl, None)"

definition createESBRecords :: "('r, 'rh, 't, 'e, 'eh, 'p, 'ph) mongo_lib \<Rightarrow> ('r, 't, 'e, 'p) mongo_client \<Rightarrow> DatabaseConfig
    \<Rightarrow> ('r, 't, 'e, 'p) mongo_client \<times> ('e, 'eh) cached \<times> go_error option" where
  "createESBRecords lib cl cfg =
     (let esb = \<lparr>coll = of_records cl, cache = fst (record_cache lib (CacheSize cfg))\<rparr>;
          (cl, err) = create_index lib cl ESB_RECORDS_COLLECTION POOL_NAME_IN_FIELD in
      (cl, esb, err))"

definition createMessagePools :: "('r, 'rh, 't, 'e, 'eh, 'p, 'ph) mongo_lib \<Rightarrow> ('r, 't, 'e, 'p) mongo_client \<Rightarrow> DatabaseConfig
    \<Rightarrow> ('r, 't, 'e, 'p) mongo_client \<times> ('p, 'ph) cached \<times> go_error option" where
  "createMessagePools lib cl cfg =
     (let mp = \<lparr>coll = of_pools cl, cache = fst (pool_cache lib (CacheSize cfg))\<rparr>;
          (cl, err) = create_index lib cl MESSAGE_POOLS_COLLECTION MESSAGE_POOL_NAME in
      (cl, mp, err))"

definition db_init :: "('r, 'rh, 't, 'e, 'eh, 'p, 'ph) mongo_lib \<Rightarrow> ('r, 'rh, 't, 'e, 'eh, 'p, 'ph) MongoStorage
    \<Rightarrow> ('r, 't, 'e, 'p) mongo_client \<Rightarrow> DatabaseConfig
    \<Rightarrow> ('r, 'rh, 't, 'e, 'eh, 'p, 'ph) MongoStorage \<times> go_error option" where
  "db_init lib db cl cfg =
     (let (cl, r, err) = createRoutes lib cl cfg; db = db\<lparr>mclient := Some cl, mroutes := Some r\<rparr> in
      if err \<noteq> None then (db, err)
      else
        let (tm, err) = createTaskMessages cl; db = db\<lparr>mtasks := Some tm\<rparr> in
        if err \<noteq> None then (db, err)
        else
          let (cl, esb, err) = createESBRecords lib cl cfg; db = db\<lparr>mclient := Some cl, mrecords := Some esb\<rparr> in
          if err \<noteq> None then (db, err)
          else
            let (cl, mp, err) = createMessagePools lib cl cfg; db = db\<lparr>mclient := Some cl, mpools := Some mp\<rparr> in
            (db, err))"

text \<open>The collections as the stores use them: with the indexes that were made.\<close>

definition route_backend :: "('r, 'rh, 't, 'e, 'eh, 'p, 'ph) mongo_lib \<Rightarrow> ('r, 't, 'e, 'p) mongo_client \<Rightarrow> DatabaseConfig
    \<Rightarrow> ('r, 'rh, Route) backend" where
  "route_backend lib cl cfg =
     \<lparr>mdb = route_coll lib (unique_on cl ROUTES_COLLECTION), gca = snd (route_cache lib (CacheSize cfg))\<rparr>"

definition record_backend :: "('r, 'rh, 't, 'e, 'eh, 'p, 'ph) mongo_lib \<Rightarrow> ('r, 't, 'e, 'p) mongo_client \<Rightarrow> DatabaseConfig
    \<Rightarrow> ('e, 'eh, ESBRecord) backend" where
  "record_backend lib cl cfg =
     \<lparr>mdb = record_coll lib (unique_on cl ESB_RECORDS_COLLECTION), gca = snd (record_cache lib (CacheSize cfg))\<rparr>"

definition pool_backend :: "('r, 'rh, 't, 'e, 'eh, 'p, 'ph) mongo_lib \<Rightarrow> ('r, 't, 'e, 'p) mongo_client \<Rightarrow> DatabaseConfig
    \<Rightarrow> ('p, 'ph, MessagePool) backend" where
  "pool_backend lib cl cfg =
     \<lparr>mdb = pool_coll lib (unique_on cl MESSAGE_POOLS_COLLECTION), gca = snd (pool_cache lib (CacheSize cfg))\<rparr>"

section \<open>Start and end\<close>

text \<open>
  The server in memory: \<open>start\<close> gives a handle, \<open>connect\<close> a client; \<open>stop\<close> is the method \<open>Stop\<close> of
  a handle, \<^term>\<open>None\<close> being the zero \<open>mim.Server\<close>.
\<close>

record ('m, 's, 'r, 't, 'e, 'p) mim =
  start :: "'m \<Rightarrow> 'm \<times> (go_error + 's)"
  connect :: "'m \<Rightarrow> 's \<Rightarrow> go_error + ('r, 't, 'e, 'p) mongo_client"
  disconnect :: "('r, 't, 'e, 'p) mongo_client \<Rightarrow> go_error option"
  stop :: "'m \<Rightarrow> 's option \<Rightarrow> 'm outcome"

record ('m, 's, 'r, 'rh, 't, 'e, 'eh, 'p, 'ph) database =
  mongods :: 'm
  inMemoryServer :: "'s option"
  storage :: "('r, 'rh, 't, 'e, 'eh, 'p, 'ph) MongoStorage"

text \<open>\<open>inMemoryServer, err := mim.Start(..)\<close> declares a variable of its own: the package's stays zero.\<close>

definition initInMemoryDB :: "('m, 's, 'r, 't, 'e, 'p) mim \<Rightarrow> ('r, 'rh, 't, 'e, 'eh, 'p, 'ph) mongo_lib
    \<Rightarrow> DatabaseConfig \<Rightarrow> ('m, 's, 'r, 'rh, 't, 'e, 'eh, 'p, 'ph) database
    \<Rightarrow> ('m, 's, 'r, 'rh, 't, 'e, 'eh, 'p, 'ph) database \<times> go_error option" where
  "initInMemoryDB mim lib cfg d =
     (let (w, res) = start mim (mongods d); d = d\<lparr>mongods := w\<rparr> in
      case res of
        Inl err \<Rightarrow> (d, Some err)
      | Inr server \<Rightarrow>
          (case connect mim (mongods d) server of
             Inl err \<Rightarrow> (d, Some err)
           | Inr client \<Rightarrow> let (s, err) = db_init lib (storage d) client cfg in (d\<lparr>storage := s\<rparr>, err)))"

definition InitDB :: "('m, 's, 'r, 't, 'e, 'p) mim \<Rightarrow> ('r, 'rh, 't, 'e, 'eh, 'p, 'ph) mongo_lib
    \<Rightarrow> DatabaseConfig \<Rightarrow> ('m, 's, 'r, 'rh, 't, 'e, 'eh, 'p, 'ph) database
    \<Rightarrow> ('m, 's, 'r, 'rh, 't, 'e, 'eh, 'p, 'ph) database \<times> go_error option outcome" where
  "InitDB mim lib cfg d =
     (if InMemory cfg then (case initInMemoryDB mim lib cfg d of (d, err) \<Rightarrow> (d, Return err))
      else (d, Panic ''Not implemented''))"

definition Disconnect :: "('m, 's, 'r, 't, 'e, 'p) mim \<Rightarrow> ('m, 's, 'r, 'rh, 't, 'e, 'eh, 'p, 'ph) database
    \<Rightarrow> ('m, 's, 'r, 'rh, 't, 'e, 'eh, 'p, 'ph) database \<times> go_error option outcome" where
  "Disconnect mim d = (case mclient (storage d) of
     None \<Rightarrow> (d, Panic ''nil pointer dereference'')
   | Some client \<Rightarrow>
       (case disconnect mim client of
          Some err \<Rightarrow> (d, Return (Some err))
        | None \<Rightarrow> (case stop mim (mongods d) (inMemoryServer d) of
            Panic m \<Rightarrow> (d, Panic m)
          | Return w \<Rightarrow> (d\<lparr>mongods := w\<rparr>, Return None))))"

definition zero_database :: "'m \<Rightarrow> ('m, 's, 'r, 'rh, 't, 'e, 'eh, 'p, 'ph) database" where
  "zero_database w = \<lparr>mongods = w, inMemoryServer = None,
     storage = \<lparr>mclient = None, mroutes = None, mtasks = None, mrecords = None, mpools = None\<rparr>\<rparr>"

section \<open>What init establishes\<close>

text \<open>
  The laws of the driver for a collection with unique indexes on some fields, and of a new cache, which is empty.
\<close>

definition coll_law :: "(string list \<Rightarrow> ('c, 'd) coll_driver) \<Rightarrow> (int \<Rightarrow> 'h \<times> ('h, 'd) cache_driver)
    \<Rightarrow> ('d \<Rightarrow> string \<Rightarrow> string option) \<Rightarrow> ('c \<Rightarrow> 'd list) \<Rightarrow> ('h \<Rightarrow> string \<Rightarrow> 'd option) \<Rightarrow> bool" where
  "coll_law drv gc bson docs entry \<longleftrightarrow>
     (\<forall>fs n. backend_ok \<lparr>mdb = drv fs, gca = snd (gc n)\<rparr> (index_clash bson fs) docs entry) \<and>
     (\<forall>n. entry (fst (gc n)) = Map.empty)"

lemma coll_lawD:
  assumes "coll_law drv gc bson docs entry"
  shows "backend_ok \<lparr>mdb = drv fs, gca = snd (gc n)\<rparr> (index_clash bson fs) docs entry"
    and "entry (fst (gc n)) = Map.empty"
  using assms by (simp_all add: coll_law_def)

text \<open>A fresh collection with the unique index on the key, behind a new cache, meets the invariant.\<close>

lemma fresh_cached_inv:
  assumes "coll_law drv gc bson docs entry" and "docs c = []" and "reflp R"
    and "index_clash bson fs = same_key key"
  shows "cached_inv \<lparr>mdb = drv fs, gca = snd (gc n)\<rparr> R key docs entry \<lparr>coll = c, cache = fst (gc n)\<rparr>"
  using coll_lawD [OF assms(1)] assms(2-4)
  by (simp add: cached_inv_def coherent_def backed_def flip: assms(4))

lemma key_indexes:
  "index_clash bson_Route [ROUTE_PATH_FIELD] = same_key Path"
  "index_clash bson_ESBRecord [POOL_NAME_IN_FIELD] = same_key PoolNameIn"
  "index_clash bson_MessagePool [MESSAGE_POOL_NAME] = same_key dbName"
  by (simp_all add: fun_eq_iff index_clash_def bson_Route_def bson_ESBRecord_def bson_MessagePool_def
      ROUTE_PATH_FIELD_def POOL_NAME_IN_FIELD_def MESSAGE_POOL_NAME_def)

definition fresh_server :: "('r \<Rightarrow> Route list) \<Rightarrow> ('t \<Rightarrow> TaskMessage list) \<Rightarrow> ('e \<Rightarrow> ESBRecord list)
    \<Rightarrow> ('p \<Rightarrow> MessagePool list) \<Rightarrow> ('r, 't, 'e, 'p) mongo_client \<Rightarrow> bool" where
  "fresh_server rdocs tdocs edocs pdocs cl \<longleftrightarrow> rdocs (of_routes cl) = [] \<and> tdocs (of_tasks cl) = [] \<and>
     edocs (of_records cl) = [] \<and> pdocs (of_pools cl) = [] \<and> unique_on cl = (\<lambda>_. [])"

text \<open>A database that is up: its stores over their collections, with the invariants of the stores.\<close>

definition db_up :: "('r, 'rh, 't, 'e, 'eh, 'p, 'ph) mongo_lib \<Rightarrow> DatabaseConfig
    \<Rightarrow> ('r \<Rightarrow> Route list) \<Rightarrow> ('rh \<Rightarrow> string \<Rightarrow> Route option) \<Rightarrow> ('t \<Rightarrow> TaskMessage list)
    \<Rightarrow> ('e \<Rightarrow> ESBRecord list) \<Rightarrow> ('eh \<Rightarrow> string \<Rightarrow> ESBRecord option)
    \<Rightarrow> ('p \<Rightarrow> MessagePool list) \<Rightarrow> ('ph \<Rightarrow> string \<Rightarrow> MessagePool option)
    \<Rightarrow> ('r, 'rh, 't, 'e, 'eh, 'p, 'ph) MongoStorage \<Rightarrow> bool" where
  "db_up lib cfg rdocs rentry tdocs edocs eentry pdocs pentry db \<longleftrightarrow> (\<exists>cl r t e p.
     mclient db = Some cl \<and> mroutes db = Some r \<and> mtasks db = Some t \<and> mrecords db = Some e \<and> mpools db = Some p \<and>
     endpoints_inv (route_backend lib cl cfg) rdocs rentry r \<and> rdocs (coll r) = [] \<and> rentry (cache r) = Map.empty \<and>
     cached_inv (record_backend lib cl cfg) (=) PoolNameIn edocs eentry e \<and> edocs (coll e) = [] \<and>
     cached_inv (pool_backend lib cl cfg) (=) dbName pdocs pentry p \<and> pdocs (coll p) = [] \<and>
     tdocs t = [] \<and> unique_on cl TASK_MESSAGES_COLLECTION = [] \<and>
     unique_on cl ROUTES_COLLECTION = [ROUTE_PATH_FIELD] \<and> unique_on cl ESB_RECORDS_COLLECTION = [POOL_NAME_IN_FIELD] \<and>
     unique_on cl MESSAGE_POOLS_COLLECTION = [MESSAGE_POOL_NAME])"

lemma create_index_None:
  assumes "create_index lib cl c f = (cl', None)"
  shows "cl' = cl\<lparr>unique_on := (unique_on cl)(c := f # unique_on cl c)\<rparr>"
  using assms by (auto simp: create_index_def split: option.splits)

lemma db_init_up:
  assumes laws: "coll_law (route_coll lib) (route_cache lib) bson_Route rdocs rentry"
      "coll_law (record_coll lib) (record_cache lib) bson_ESBRecord edocs eentry"
      "coll_law (pool_coll lib) (pool_cache lib) bson_MessagePool pdocs pentry"
    and fresh: "fresh_server rdocs tdocs edocs pdocs cl" and run: "db_init lib db0 cl cfg = (db, None)"
  shows "db_up lib cfg rdocs rentry tdocs edocs eentry pdocs pentry db"
proof -
  obtain cl1 e1 where i1: "create_index lib cl ROUTES_COLLECTION ROUTE_PATH_FIELD = (cl1, e1)" by force
  obtain cl2 e2 where i2: "create_index lib cl1 ESB_RECORDS_COLLECTION POOL_NAME_IN_FIELD = (cl2, e2)" by force
  obtain cl3 e3 where i3: "create_index lib cl2 MESSAGE_POOLS_COLLECTION MESSAGE_POOL_NAME = (cl3, e3)" by force
  have ok: "e1 = None" "e2 = None" "e3 = None"
    using run i1 i2 i3
    by (auto simp: db_init_def createRoutes_def createTaskMessages_def createESBRecords_def createMessagePools_def
        Let_def split: if_splits)
  note cl = create_index_None [OF i1 [unfolded ok]] create_index_None [OF i2 [unfolded ok]]
    create_index_None [OF i3 [unfolded ok]]
  let ?r = "\<lparr>coll = of_routes cl, cache = fst (route_cache lib (CacheSize cfg))\<rparr>"
  let ?e = "\<lparr>coll = of_records cl, cache = fst (record_cache lib (CacheSize cfg))\<rparr>"
  let ?p = "\<lparr>coll = of_pools cl, cache = fst (pool_cache lib (CacheSize cfg))\<rparr>"
  have db: "mclient db = Some cl3" "mroutes db = Some ?r" "mtasks db = Some (of_tasks cl)" "mrecords db = Some ?e"
    "mpools db = Some ?p"
    using run i1 i2 i3 ok cl
    by (auto simp: db_init_def createRoutes_def createTaskMessages_def createESBRecords_def createMessagePools_def
        Let_def)
  have empty: "rdocs (of_routes cl) = []" "tdocs (of_tasks cl) = []" "edocs (of_records cl) = []"
    "pdocs (of_pools cl) = []" "unique_on cl = (\<lambda>_. [])"
    using fresh by (simp_all add: fresh_server_def)
  have on: "unique_on cl3 ROUTES_COLLECTION = [ROUTE_PATH_FIELD]" "unique_on cl3 ESB_RECORDS_COLLECTION = [POOL_NAME_IN_FIELD]"
    "unique_on cl3 MESSAGE_POOLS_COLLECTION = [MESSAGE_POOL_NAME]" "unique_on cl3 TASK_MESSAGES_COLLECTION = []"
    by (simp_all add: cl empty(5) collection_names)
  have "endpoints_inv (route_backend lib cl3 cfg) rdocs rentry ?r"
    using fresh_cached_inv [OF laws(1) empty(1) reflp_agree key_indexes(1)] empty(1)
    by (simp add: endpoints_inv_def route_backend_def on table_def)
  moreover have "cached_inv (record_backend lib cl3 cfg) (=) PoolNameIn edocs eentry ?e"
    using fresh_cached_inv [OF laws(2) empty(3) _ key_indexes(2)] by (simp add: record_backend_def on reflp_def)
  moreover have "cached_inv (pool_backend lib cl3 cfg) (=) dbName pdocs pentry ?p"
    using fresh_cached_inv [OF laws(3) empty(4) _ key_indexes(3)] by (simp add: pool_backend_def on reflp_def)
  ultimately show ?thesis
    using db empty on coll_lawD(2) [OF laws(1)] unfolding db_up_def by simp
qed

section \<open>The calls of the other packages\<close>

text \<open>A call on a collection of the storage; on a store that is still nil it panics.\<close>

definition on_tasks :: "('r, 'rh, 't, 'e, 'eh, 'p, 'ph) MongoStorage \<Rightarrow> ('t \<Rightarrow> 't \<times> 'a)
    \<Rightarrow> (('r, 'rh, 't, 'e, 'eh, 'p, 'ph) MongoStorage \<times> 'a) outcome" where
  "on_tasks db f = (case mtasks db of
     None \<Rightarrow> Panic ''nil pointer dereference''
   | Some s \<Rightarrow> (case f s of (s, x) \<Rightarrow> Return (db\<lparr>mtasks := Some s\<rparr>, x)))"

definition on_records :: "('r, 'rh, 't, 'e, 'eh, 'p, 'ph) MongoStorage \<Rightarrow> (('e, 'eh) cached \<Rightarrow> ('e, 'eh) cached \<times> 'a)
    \<Rightarrow> (('r, 'rh, 't, 'e, 'eh, 'p, 'ph) MongoStorage \<times> 'a) outcome" where
  "on_records db f = (case mrecords db of
     None \<Rightarrow> Panic ''nil pointer dereference''
   | Some s \<Rightarrow> (case f s of (s, x) \<Rightarrow> Return (db\<lparr>mrecords := Some s\<rparr>, x)))"

definition on_pools :: "('r, 'rh, 't, 'e, 'eh, 'p, 'ph) MongoStorage \<Rightarrow> (('p, 'ph) cached \<Rightarrow> ('p, 'ph) cached \<times> 'a)
    \<Rightarrow> (('r, 'rh, 't, 'e, 'eh, 'p, 'ph) MongoStorage \<times> 'a) outcome" where
  "on_pools db f = (case mpools db of
     None \<Rightarrow> Panic ''nil pointer dereference''
   | Some s \<Rightarrow> (case f s of (s, x) \<Rightarrow> Return (db\<lparr>mpools := Some s\<rparr>, x)))"

definition db_AddTaskMessage :: "('t, TaskMessage) coll_driver \<Rightarrow> ('r, 'rh, 't, 'e, 'eh, 'p, 'ph) MongoStorage \<Rightarrow> TaskMessage
    \<Rightarrow> (('r, 'rh, 't, 'e, 'eh, 'p, 'ph) MongoStorage \<times> go_error option) outcome" where
  "db_AddTaskMessage m db taskMessage = on_tasks db (\<lambda>s. addTaskMessage m s taskMessage)"

definition db_GetTaskMessages :: "('t, TaskMessage) coll_driver \<Rightarrow> ('r, 'rh, 't, 'e, 'eh, 'p, 'ph) MongoStorage \<Rightarrow> string
    \<Rightarrow> (('r, 'rh, 't, 'e, 'eh, 'p, 'ph) MongoStorage \<times> (go_error + string list)) outcome" where
  "db_GetTaskMessages m db taskId = on_tasks db (\<lambda>s. (s, getTaskMessages m s taskId))"

definition db_AddESBRecord :: "('e, 'eh, ESBRecord) backend \<Rightarrow> ('r, 'rh, 't, 'e, 'eh, 'p, 'ph) MongoStorage \<Rightarrow> ESBRecord
    \<Rightarrow> (('r, 'rh, 't, 'e, 'eh, 'p, 'ph) MongoStorage \<times> go_error option) outcome" where
  "db_AddESBRecord be db esbRecord = on_records db (\<lambda>s. addESBRecord be s esbRecord)"

definition db_RemoveESBRecord :: "('e, 'eh, ESBRecord) backend \<Rightarrow> ('r, 'rh, 't, 'e, 'eh, 'p, 'ph) MongoStorage \<Rightarrow> string
    \<Rightarrow> (('r, 'rh, 't, 'e, 'eh, 'p, 'ph) MongoStorage \<times> go_error option) outcome" where
  "db_RemoveESBRecord be db poolNameIn = on_records db (\<lambda>s. removeESBRecord be s poolNameIn)"

definition db_GetESBRecord :: "('e, 'eh, ESBRecord) backend \<Rightarrow> ('r, 'rh, 't, 'e, 'eh, 'p, 'ph) MongoStorage \<Rightarrow> string
    \<Rightarrow> (('r, 'rh, 't, 'e, 'eh, 'p, 'ph) MongoStorage \<times> (go_error + ESBRecord)) outcome" where
  "db_GetESBRecord be db poolNameIn = on_records db (\<lambda>s. getESBRecord be s poolNameIn)"

definition db_ListESBRecords :: "('e, 'eh, ESBRecord) backend \<Rightarrow> ('r, 'rh, 't, 'e, 'eh, 'p, 'ph) MongoStorage
    \<Rightarrow> (('r, 'rh, 't, 'e, 'eh, 'p, 'ph) MongoStorage \<times> (go_error + ESBRecord list)) outcome" where
  "db_ListESBRecords be db = on_records db (\<lambda>s. (s, listESBRecords be s))"

definition db_AddMessagePool :: "('p, 'ph, MessagePool) backend \<Rightarrow> ('r, 'rh, 't, 'e, 'eh, 'p, 'ph) MongoStorage \<Rightarrow> MessagePool
    \<Rightarrow> (('r, 'rh, 't, 'e, 'eh, 'p, 'ph) MongoStorage \<times> go_error option) outcome" where
  "db_AddMessagePool be db messagePool = on_pools db (\<lambda>s. addMessagePool be s messagePool)"

definition db_RemoveMessagePool :: "('p, 'ph, MessagePool) backend \<Rightarrow> ('r, 'rh, 't, 'e, 'eh, 'p, 'ph) MongoStorage \<Rightarrow> string
    \<Rightarrow> (('r, 'rh, 't, 'e, 'eh, 'p, 'ph) MongoStorage \<times> go_error option) outcome" where
  "db_RemoveMessagePool be db name = on_pools db (\<lambda>s. removeMessagePool be s name)"

definition db_GetMessagePool :: "('p, 'ph, MessagePool) backend \<Rightarrow> ('r, 'rh, 't, 'e, 'eh, 'p, 'ph) MongoStorage \<Rightarrow> string
    \<Rightarrow> (('r, 'rh, 't, 'e, 'eh, 'p, 'ph) MongoStorage \<times> (go_error + MessagePool)) outcome" where
  "db_GetMessagePool be db name = on_pools db (\<lambda>s. getMessagePool be s name)"

definition db_ListMessagePools :: "('p, 'ph, MessagePool) backend \<Rightarrow> ('r, 'rh, 't, 'e, 'eh, 'p, 'ph) MongoStorage
    \<Rightarrow> (('r, 'rh, 't, 'e, 'eh, 'p, 'ph) MongoStorage \<times> (go_error + MessagePool list)) outcome" where
  "db_ListMessagePools be db = on_pools db (\<lambda>s. (s, listMessagePools be s))"

lemmas db_calls = db_AddTaskMessage_def db_GetTaskMessages_def db_AddESBRecord_def db_RemoveESBRecord_def
  db_GetESBRecord_def db_ListESBRecords_def db_AddMessagePool_def db_RemoveMessagePool_def db_GetMessagePool_def
  db_ListMessagePools_def on_tasks_def on_records_def on_pools_def

text \<open>A server in memory, its client and the laws, as an instance: nothing fails.\<close>

definition mem_lib :: "(Route list, (string \<times> Route) list, TaskMessage list, ESBRecord list, (string \<times> ESBRecord) list,
    MessagePool list, (string \<times> MessagePool) list) mongo_lib" where
  "mem_lib = \<lparr>index_error = (\<lambda>_ _ _. None), route_coll = (\<lambda>fs. mem_coll (index_clash bson_Route fs)),
     task_coll = (\<lambda>fs. mem_coll (\<lambda>_ _. False)),
     record_coll = (\<lambda>fs. mem_coll (index_clash bson_ESBRecord fs)),
     pool_coll = (\<lambda>fs. mem_coll (index_clash bson_MessagePool fs)),
     route_cache = (\<lambda>n. ([], mem_cache (nat n))), record_cache = (\<lambda>n. ([], mem_cache (nat n))),
     pool_cache = (\<lambda>n. ([], mem_cache (nat n)))\<rparr>"

text \<open>The running servers by number; \<open>Stop\<close> of a handle stops its server, and the zero handle has none.\<close>

definition mem_mim :: "(nat set, nat, Route list, TaskMessage list, ESBRecord list, MessagePool list) mim" where
  "mem_mim = \<lparr>start = (\<lambda>w. (insert (card w) w, Inr (card w))),
     connect = (\<lambda>w s. Inr \<lparr>of_routes = [], of_tasks = [], of_records = [], of_pools = [], unique_on = (\<lambda>_. [])\<rparr>),
     disconnect = (\<lambda>_. None), stop = (\<lambda>w h. case h of None \<Rightarrow> Return w | Some s \<Rightarrow> Return (w - {s}))\<rparr>"

lemma mem_coll_law: "coll_law (\<lambda>fs. mem_coll (index_clash bson fs)) (\<lambda>n. ([], mem_cache (nat n))) bson mem_docs map_of"
  by (simp add: coll_law_def mem_backend_ok [unfolded mem_backend_def])

lemma mem_lib_laws:
  "coll_law (route_coll mem_lib) (route_cache mem_lib) bson_Route mem_docs map_of"
  "coll_law (record_coll mem_lib) (record_cache mem_lib) bson_ESBRecord mem_docs map_of"
  "coll_law (pool_coll mem_lib) (pool_cache mem_lib) bson_MessagePool mem_docs map_of"
  by (simp_all add: mem_lib_def mem_coll_law)

lemma initInMemoryDB_cases:
  assumes "initInMemoryDB mim lib cfg d = (d', err)"
  obtains v e where "start mim (mongods d) = (v, Inl e)" and "d' = d\<lparr>mongods := v\<rparr>" and "err = Some e"
  | v s e where "start mim (mongods d) = (v, Inr s)" and "connect mim v s = Inl e" and "d' = d\<lparr>mongods := v\<rparr>" and "err = Some e"
  | v s cl st where "start mim (mongods d) = (v, Inr s)" and "connect mim v s = Inr cl"
    and "db_init lib (storage d) cl cfg = (st, err)" and "d' = d\<lparr>mongods := v, storage := st\<rparr>"
proof -
  obtain v res where s: "start mim (mongods d) = (v, res)" by force
  show thesis
  proof (cases res)
    case (Inl e)
    with assms s that(1) show thesis by (simp add: initInMemoryDB_def)
  next
    case (Inr h)
    show thesis
    proof (cases "connect mim v h")
      case (Inr cl)
      obtain st er where "db_init lib (storage d) cl cfg = (st, er)" by force
      with assms s \<open>res = Inr h\<close> Inr that(3) show thesis by (simp add: initInMemoryDB_def)
    qed (use assms s Inr that(2) in \<open>simp add: initInMemoryDB_def\<close>)
  qed
qed

lemma InitDB_up:
  assumes "coll_law (route_coll lib) (route_cache lib) bson_Route rdocs rentry"
      "coll_law (record_coll lib) (record_cache lib) bson_ESBRecord edocs eentry"
      "coll_law (pool_coll lib) (pool_cache lib) bson_MessagePool pdocs pentry"
    and new: "\<And>w s cl. connect mim w s = Inr cl \<Longrightarrow> fresh_server rdocs tdocs edocs pdocs cl"
    and run: "InitDB mim lib cfg d0 = (d, Return None)"
  shows "db_up lib cfg rdocs rentry tdocs edocs eentry pdocs pentry (storage d)"
proof -
  from run have "initInMemoryDB mim lib cfg d0 = (d, None)" by (auto simp: InitDB_def split: if_splits prod.splits)
  then show ?thesis
  proof (cases rule: initInMemoryDB_cases)
    case (3 v s cl st)
    with db_init_up [OF assms(1-3) new [OF 3(2)] 3(3)] show ?thesis by simp
  qed simp_all
qed

section \<open>Properties\<close>

text \<open>C38: Starting the database sets the stage for everything above it: on a server that is new, \<open>InitDB\<close> returns without
  an error exactly when every store is there, empty, with the unique index on its key and none on the log of the
  tasks, and meets the invariant its operations keep.  Any other database than the one in memory panics.\<close>
theorem database_started:
  assumes "coll_law (route_coll lib) (route_cache lib) bson_Route rdocs rentry"
      "coll_law (record_coll lib) (record_cache lib) bson_ESBRecord edocs eentry"
      "coll_law (pool_coll lib) (pool_cache lib) bson_MessagePool pdocs pentry"
    and new: "\<And>w s cl. connect mim w s = Inr cl \<Longrightarrow> fresh_server rdocs tdocs edocs pdocs cl"
    and run: "InitDB mim lib cfg (zero_database w) = (d, out)"
  shows "case out of
      Panic m \<Rightarrow> \<not> InMemory cfg \<and> d = zero_database w
    | Return err \<Rightarrow> err = None \<longleftrightarrow> db_up lib cfg rdocs rentry tdocs edocs eentry pdocs pentry (storage d)"
proof (cases "InMemory cfg")
  case False
  with run show ?thesis by (auto simp: InitDB_def)
next
  case True
  obtain err where out: "out = Return err" and run': "initInMemoryDB mim lib cfg (zero_database w) = (d, err)"
    using run True by (auto simp: InitDB_def split: prod.splits)
  let ?up = "db_up lib cfg rdocs rentry tdocs edocs eentry pdocs pentry"
  from run' have "err = None \<longleftrightarrow> ?up (storage d)"
  proof (cases rule: initInMemoryDB_cases)
    case (3 v s cl st)
    have "?up st" if "err = None"
      using db_init_up [OF assms(1-3) new [OF 3(2)]] 3(3) that by blast
    moreover have "unique_on cl' MESSAGE_POOLS_COLLECTION = []" if "err \<noteq> None" "mclient st = Some cl'" for cl'
      using 3(3) that new [OF 3(2)]
      by (auto simp: db_init_def createRoutes_def createTaskMessages_def createESBRecords_def createMessagePools_def
          create_index_def fresh_server_def collection_names Let_def split: option.splits if_splits)
    ultimately show ?thesis using 3(4) unfolding db_up_def by fastforce
  qed (simp_all add: zero_database_def db_up_def)
  with out show ?thesis by simp
qed

lemma database_started_witness:
  "\<exists>d. InitDB mem_mim mem_lib \<lparr>InMemory = True, CacheSize = 100\<rparr> (zero_database {}) = (d, Return None) \<and>
    db_up mem_lib \<lparr>InMemory = True, CacheSize = 100\<rparr> mem_docs map_of mem_docs mem_docs map_of mem_docs map_of (storage d)"
proof -
  let ?cfg = "\<lparr>InMemory = True, CacheSize = 100\<rparr>"
  have new: "connect mem_mim w s = Inr cl \<Longrightarrow> fresh_server mem_docs mem_docs mem_docs mem_docs cl" for w s cl
    by (auto simp: mem_mim_def fresh_server_def)
  obtain d where run: "InitDB mem_mim mem_lib ?cfg (zero_database {}) = (d, Return None)"
    by (simp add: InitDB_def initInMemoryDB_def mem_mim_def db_init_def createRoutes_def createTaskMessages_def
        createESBRecords_def createMessagePools_def create_index_def mem_lib_def Let_def)
  with database_started [OF mem_lib_laws new run] show ?thesis by (intro exI [of _ d]) simp
qed

text \<open>The server in memory outlives the program: \<open>initInMemoryDB\<close> keeps its handle in a variable of its
  own, so \<open>Disconnect\<close> stops the zero handle, which has no server, and every server that was started still runs.\<close>
lemma memory_server_not_stopped:
  assumes law: "\<And>w s w'. stop mim w s = Return w' \<Longrightarrow> running w' = running w - set_option s"
    and starts: "\<And>w w' s. start mim w = (w', Inr s) \<Longrightarrow> running w' = insert s (running w)"
    and "InitDB mim lib cfg (zero_database w) = (d, Return None)"
    and "mongods e = mongods d" and "inMemoryServer e = inMemoryServer d"
    and "Disconnect mim e = (f, Return None)"
  shows "\<exists>s. running (mongods f) = insert s (running w)"
proof -
  have "initInMemoryDB mim lib cfg (zero_database w) = (d, None)"
    using assms(3) by (auto simp: InitDB_def split: if_splits prod.splits)
  then obtain v s where s: "start mim w = (v, Inr s)" and d: "mongods d = v" "inMemoryServer d = None"
    by (cases rule: initInMemoryDB_cases) (simp_all add: zero_database_def)
  with assms(4-6) obtain u where "stop mim v None = Return u" "mongods f = u"
    by (auto simp: Disconnect_def split: option.splits outcome.splits)
  with law [of v None u] starts [OF s] show ?thesis by auto
qed

end
