(* ===== verification/Containers.thy ===== *)
theory Containers
  imports Watcher
begin

text \<open>
  What becomes of the containers the watcher of \<open>internal/coderun/watcher.go\<close> creates, from \<open>Init\<close> through any
  interleaving of borrowers and repair to \<open>Stop\<close>.  \<open>present\<close> observes the containers Docker has, and \<open>used\<close>
  the ports that were given out.
\<close>

text \<open>
  Creating adds a container, removing by force leaves none, and nothing else adds one (containers may go away
  by themselves); ports are
  not given out twice, and a created container starts.  Without the last two the watcher forgets containers: see
  the end.
\<close>

definition container_law :: "'w docker \<Rightarrow> ('w \<Rightarrow> string set) \<Rightarrow> ('w \<Rightarrow> string set) \<Rightarrow> bool" where
  "container_law lib present used \<longleftrightarrow>
     (\<forall>w p w' i. CreateWorkerContainer lib w p = (w', Inr i) \<longrightarrow> present w' = insert i (present w) \<and> used w' = insert p (used w)) \<and>
     (\<forall>w p w' e. CreateWorkerContainer lib w p = (w', Inl e) \<longrightarrow> present w' = present w \<and> used w \<subseteq> used w') \<and>
     (\<forall>w i. present (fst (RemoveWorkerContainer lib w i)) = present w - {i} \<and> used (fst (RemoveWorkerContainer lib w i)) = used w) \<and>
     (\<forall>w i. present (fst (StartWorkerContainer lib w i)) = present w \<and> used (fst (StartWorkerContainer lib w i)) = used w) \<and>
     (\<forall>w i. present (fst (RestartWorkerContainer lib w i)) = present w \<and> used (fst (RestartWorkerContainer lib w i)) = used w) \<and>
     (\<forall>w. present (fst (BuildWorkerImage lib w)) = present w \<and> used (fst (BuildWorkerImage lib w)) = used w) \<and>
     (\<forall>w w'. drift lib w w' \<longrightarrow> present w' \<subseteq> present w \<and> used w \<subseteq> used w')"

definition fresh_ports :: "'w docker \<Rightarrow> ('w \<Rightarrow> string set) \<Rightarrow> bool" where
  "fresh_ports lib used \<longleftrightarrow> (\<forall>w p. getFreePort lib w = Inr p \<longrightarrow> p \<notin> used w)"

definition starts :: "'w docker \<Rightarrow> bool" where
  "starts lib \<longleftrightarrow> (\<forall>w i. snd (StartWorkerContainer lib w i) = None)"

lemma container_lawD:
  assumes "container_law lib present used"
  shows "CreateWorkerContainer lib w p = (w', Inr i) \<Longrightarrow> present w' = insert i (present w) \<and> used w' = insert p (used w)"
    and "CreateWorkerContainer lib w p = (w', Inl e) \<Longrightarrow> present w' = present w \<and> used w \<subseteq> used w'"
    and "present (fst (RemoveWorkerContainer lib w i)) = present w - {i}" "used (fst (RemoveWorkerContainer lib w i)) = used w"
    and "present (fst (StartWorkerContainer lib w i)) = present w" "used (fst (StartWorkerContainer lib w i)) = used w"
    and "present (fst (RestartWorkerContainer lib w i)) = present w" "used (fst (RestartWorkerContainer lib w i)) = used w"
    and "present (fst (BuildWorkerImage lib w)) = present w" "used (fst (BuildWorkerImage lib w)) = used w"
    and "drift lib w w' \<Longrightarrow> present w' \<subseteq> present w" "drift lib w w' \<Longrightarrow> used w \<subseteq> used w'"
proof -
  note laws = assms [unfolded container_law_def]
  show "CreateWorkerContainer lib w p = (w', Inr i) \<Longrightarrow> present w' = insert i (present w) \<and> used w' = insert p (used w)"
    using conjunct1 [OF laws] by metis
  show "CreateWorkerContainer lib w p = (w', Inl e) \<Longrightarrow> present w' = present w \<and> used w \<subseteq> used w'"
    using conjunct1 [OF conjunct2 [OF laws]] by metis
qed (use assms in \<open>simp_all add: container_law_def\<close>)

section \<open>The invariant\<close>

text \<open>
  \<open>kept base s ws\<close>: every container that was not there before is in \<open>workerByPort\<close> under its port, the ports were
  given out, and a worker of \<open>ws\<close> is alone at its port.
\<close>

definition kept_ports :: "('w \<Rightarrow> string set) \<Rightarrow> ('w \<Rightarrow> string set) \<Rightarrow> string set \<Rightarrow> 'w watcher \<Rightarrow> worker list \<Rightarrow> bool" where
  "kept_ports present used base s ws \<longleftrightarrow> present (dp s) \<subseteq> base \<union> cId ` ran (workerByPort s) \<and>
     dom (workerByPort s) \<union> port ` set ws \<subseteq> used (dp s) \<and>
     (\<forall>p w. workerByPort s p = Some w \<longrightarrow> port w = p) \<and>
     (\<forall>w \<in> set ws. workerByPort s (port w) \<in> {None, Some w})"

lemma kept_portsD:
  assumes "kept_ports present used base s ws"
  shows "present (dp s) \<subseteq> base \<union> cId ` ran (workerByPort s)" and "dom (workerByPort s) \<subseteq> used (dp s)"
    and "port ` set ws \<subseteq> used (dp s)" and "\<forall>p w. workerByPort s p = Some w \<longrightarrow> port w = p"
    and "\<forall>w \<in> set ws. workerByPort s (port w) \<in> {None, Some w}"
  using assms by (simp_all add: kept_ports_def)

lemma kept_portsI:
  assumes "present (dp s) \<subseteq> base \<union> cId ` ran (workerByPort s)" and "dom (workerByPort s) \<subseteq> used (dp s)"
    and "port ` set ws \<subseteq> used (dp s)" and "\<forall>p w. workerByPort s p = Some w \<longrightarrow> port w = p"
    and "\<forall>w \<in> set ws. workerByPort s (port w) \<in> {None, Some w}"
  shows "kept_ports present used base s ws"
  using assms by (simp add: kept_ports_def)

lemma kept_mono:
  assumes "kept_ports present used base s ws" and "set vs \<subseteq> set ws" and "workerByPort t = workerByPort s"
    and "present (dp t) = present (dp s)" and "used (dp t) = used (dp s)"
  shows "kept_ports present used base t vs"
proof -
  note k = kept_portsD [OF assms(1)]
  show ?thesis
  proof (rule kept_portsI, unfold assms(3-5))
    show "port ` set vs \<subseteq> used (dp s)" using k(3) assms(2) by blast
    show "\<forall>w \<in> set vs. workerByPort s (port w) \<in> {None, Some w}" using k(5) assms(2) by blast
  qed (rule k(1,2,4))+
qed

lemma kept_startNewWorker:
  assumes law: "container_law lib present used" and fresh: "fresh_ports lib used" and st: "starts lib"
    and kept: "kept_ports present used base s ws" and run: "startNewWorker lib s = Some (t, err)"
  shows "kept_ports present used base t (if err = None then ws @ [last (workers t)] else ws)"
    and "workers t = workers s @ (if err = None then [last (workers t)] else [])" and "repair t = repair s"
proof -
  have "kept_ports present used base t (if err = None then ws @ [last (workers t)] else ws) \<and>
    workers t = workers s @ (if err = None then [last (workers t)] else []) \<and> repair t = repair s"
  proof (cases "getFreePort lib (dp s)")
    case (Inl e)
    with run kept show ?thesis by (auto simp: startNewWorker_def)
  next
    case (Inr p)
    obtain d res where c: "CreateWorkerContainer lib (dp s) p = (d, res)" by force
    have p: "p \<notin> used (dp s)" using fresh Inr by (simp add: fresh_ports_def)
    show ?thesis
    proof (cases res)
      case (Inl e)
      have t: "t = s\<lparr>dp := d\<rparr>" "err = Some e"
        using run \<open>getFreePort lib (dp s) = Inr p\<close> c Inl by (auto simp: startNewWorker_def)
      have d: "present d = present (dp s)" "used (dp s) \<subseteq> used d"
        using container_lawD(2) [OF law, of "dp s" p d e] c Inl by simp_all
      note k = kept_portsD [OF kept]
      have "kept_ports present used base t ws"
      proof (rule kept_portsI)
        show "dom (workerByPort t) \<subseteq> used (dp t)" using k(2) d(2) by (simp add: t)
        show "port ` set ws \<subseteq> used (dp t)" using k(3) d(2) by (simp add: t)
      qed (use k(1,4,5) d(1) in \<open>simp_all add: t\<close>)
      with t show ?thesis by simp
    next
      case (Inr i)
      obtain d' e where s: "StartWorkerContainer lib d i = (d', e)" by force
      have e: "e = None" using st s unfolding starts_def by (metis snd_conv)
      have at: "present d' = insert i (present (dp s))" "used d' = insert p (used (dp s))"
        using container_lawD(1) [OF law, of "dp s" p d i] container_lawD(5,6) [OF law, of d i] c s Inr by simp_all
      let ?w = "\<lparr>port = p, cId = i\<rparr>"
      have t: "err = None" "t = s\<lparr>dp := d', workers := workers s @ [?w], workerByPort := (workerByPort s)(p \<mapsto> ?w)\<rparr>"
        using run \<open>getFreePort lib (dp s) = Inr p\<close> c s e Inr
        by (auto simp: startNewWorker_def send_workers_def Let_def split: if_splits)
      have no: "workerByPort s p = None" using kept p by (auto simp: kept_ports_def)
      have ran: "ran ((workerByPort s)(p \<mapsto> ?w)) = insert ?w (ran (workerByPort s))"
        using no by (simp add: ran_map_upd)
      note k = kept_portsD [OF kept]
      have "kept_ports present used base t (ws @ [?w])"
      proof (rule kept_portsI)
        show "present (dp t) \<subseteq> base \<union> cId ` ran (workerByPort t)"
          using k(1) at(1) ran by (auto simp: t(2))
        show "\<forall>v \<in> set (ws @ [?w]). workerByPort t (port v) \<in> {None, Some v}"
          using k(3,5) p by (auto simp: t(2))
      qed (use k(2,3,4) at(2) in \<open>auto simp: t(2)\<close>)
      with t show ?thesis by simp
    qed
  qed
  then show "kept_ports present used base t (if err = None then ws @ [last (workers t)] else ws)"
    and "workers t = workers s @ (if err = None then [last (workers t)] else [])" and "repair t = repair s" by blast+
qed

lemma kept_repair:
  assumes law: "container_law lib present used" "fresh_ports lib used" "starts lib"
    and kept: "kept_ports present used base s (w # ws)" and run: "repairWorker lib s w = Some t"
    and sub: "set (workers s @ repair s) \<subseteq> set ws"
  shows "kept_ports present used base t (workers t @ repair t @ ws)"
proof (cases "InspectWorkerContainer lib (dp s) (cId w)")
  case (Inl e)
  let ?s = "s\<lparr>dp := fst (RemoveWorkerContainer lib (dp s) (cId w)), workerByPort := (workerByPort s)(port w := None)\<rparr>"
  obtain err where n: "startNewWorker lib ?s = Some (t, err)"
    using run Inl by (auto simp: repairWorker_def split: prod.splits)
  note k = kept_portsD [OF kept] and rm = container_lawD(3,4) [OF law(1), of "dp s" "cId w"]
  have "kept_ports present used base ?s ws"
  proof (rule kept_portsI)
    show "present (dp ?s) \<subseteq> base \<union> cId ` ran (workerByPort ?s)"
    proof
      fix i assume "i \<in> present (dp ?s)"
      with rm(1) have i: "i \<in> present (dp s)" "i \<noteq> cId w" by simp_all
      then consider "i \<in> base" | p v where "workerByPort s p = Some v" "i = cId v"
        using k(1) by (auto simp: ran_def)
      then show "i \<in> base \<union> cId ` ran (workerByPort ?s)"
      proof cases
        case 2
        with k(4) have "port v = p" by blast
        with k(5) i(2) 2 have "p \<noteq> port w" by force
        with 2 have "v \<in> ran (workerByPort ?s)" by (auto simp: ran_def)
        with 2 show ?thesis by blast
      qed blast
    qed
    show "dom (workerByPort ?s) \<subseteq> used (dp ?s)" using k(2) rm(2) by auto
    show "port ` set ws \<subseteq> used (dp ?s)" using k(3) rm(2) by simp
    show "\<forall>v \<in> set ws. workerByPort ?s (port v) \<in> {None, Some v}" using k(5) by simp
  qed (use k(4) in simp)
  note new = kept_startNewWorker [OF law this n]
  have "set (workers t @ repair t @ ws) \<subseteq> set (if err = None then ws @ [last (workers t)] else ws)"
    using sub new(3) arg_cong [OF new(2), of set] by (auto split: if_splits)
  from kept_mono [OF new(1) this] show ?thesis by simp
next
  case (Inr info)
  have wt: "workerByPort t = workerByPort s" "present (dp t) = present (dp s)" "used (dp t) = used (dp s)"
    "set (workers t @ repair t) \<subseteq> insert w (set (workers s @ repair s))"
    using run Inr container_lawD(7,8) [OF law(1), of "dp s" "cId w"]
    by (auto simp: repairWorker_def processWorkerInfo_def send_workers_def send_repair_def bind_eq_Some_conv
        split: if_splits prod.splits)
  with sub show ?thesis by (intro kept_mono [OF kept _ wt(1-3)]) auto
qed

definition fleet_kept :: "('w \<Rightarrow> string set) \<Rightarrow> ('w \<Rightarrow> string set) \<Rightarrow> string set \<Rightarrow> 'w fleet \<Rightarrow> bool" where
  "fleet_kept present used base s \<longleftrightarrow> kept_ports present used base (wt s) (places s)"

lemma fleet_kept_step:
  assumes law: "container_law lib present used" "fresh_ports lib used" "starts lib"
    and step: "watch_step lib s u" and kept: "fleet_kept present used base s"
  shows "fleet_kept present used base u"
  using step
proof cases
  case (f_done w t)
  let ?ws = "workers (wt s) @ repair (wt s) @ probing s @ lent s"
  have "kept_ports present used base (wt s) (w # ?ws)"
    by (rule kept_mono [OF kept [unfolded fleet_kept_def]]) (use f_done(2) in \<open>auto simp: places_def\<close>)
  moreover have "set (workers (wt s) @ repair (wt s)) \<subseteq> set ?ws" by auto
  ultimately have "kept_ports present used base t (workers t @ repair t @ ?ws)"
    using kept_repair [OF law _ f_done(3)] by blast
  then have "kept_ports present used base t (places u)"
    by (rule kept_mono) (use f_done(1) in \<open>auto simp: places_def\<close>)
  then show ?thesis using f_done(1) by (simp add: fleet_kept_def)
next
  case (drifts d)
  note k = kept_portsD [OF kept [unfolded fleet_kept_def]] and dr = container_lawD(11,12) [OF law(1) drifts(2)]
  have "kept_ports present used base (wt u) (places u)"
    by (rule kept_portsI) (use k dr in \<open>auto simp: drifts(1) places_def\<close>)
  then show ?thesis by (simp add: fleet_kept_def)
next
  case (b_take w ws)
  then show ?thesis unfolding fleet_kept_def
    by (intro kept_mono [OF kept [unfolded fleet_kept_def]]) (auto simp: places_def)
next
  case (b_failed xs w ys t e)
  from b_failed(3) have "t = wt s" by (rule borrowCheck_cases) simp_all
  with b_failed show ?thesis unfolding fleet_kept_def
    by (intro kept_mono [OF kept [unfolded fleet_kept_def]]) (auto simp: places_def)
next
  case (b_borrowed xs w ys t v)
  from b_borrowed(3) have "t = wt s \<and> v = w" by (rule borrowCheck_cases) simp_all
  with b_borrowed show ?thesis unfolding fleet_kept_def
    by (intro kept_mono [OF kept [unfolded fleet_kept_def]]) (auto simp: places_def)
next
  case (b_again xs w ys t)
  from b_again(3) have "t = (wt s)\<lparr>repair := repair (wt s) @ [w]\<rparr>" by (rule borrowCheck_cases) simp_all
  with b_again show ?thesis unfolding fleet_kept_def
    by (intro kept_mono [OF kept [unfolded fleet_kept_def]]) (auto simp: places_def)
next
  case (b_return xs w ys t)
  from b_return(3) have "t = (wt s)\<lparr>workers := workers (wt s) @ [w]\<rparr>"
    by (simp add: Return_worker_def send_workers_Some)
  with b_return show ?thesis unfolding fleet_kept_def
    by (intro kept_mono [OF kept [unfolded fleet_kept_def]]) (auto simp: places_def)
next
  case (f_take w ws)
  then show ?thesis unfolding fleet_kept_def
    by (intro kept_mono [OF kept [unfolded fleet_kept_def]]) (auto simp: places_def)
qed

lemma fleet_kept_reach:
  assumes "container_law lib present used" "fresh_ports lib used" "starts lib" and "fleet_reach lib s t"
    and "fleet_kept present used base s"
  shows "fleet_kept present used base t"
  using assms(4,5) by (induction rule: fleet_reach.induct) (auto intro: fleet_kept_step [OF assms(1-3)])

lemma kept_startWorkers:
  assumes "container_law lib present used" "fresh_ports lib used" "starts lib"
    and "startWorkers lib n s = Some (t, err)" and "kept_ports present used base s (workers s)" and "repair s = []"
  shows "kept_ports present used base t (workers t) \<and> repair t = []"
  using assms(4-6)
proof (induction n arbitrary: s)
  case (Suc n)
  then obtain u e where u: "startNewWorker lib s = Some (u, e)" by (auto split: option.splits)
  note new = kept_startNewWorker [OF assms(1-3) Suc.prems(2) u]
  show ?case
  proof (cases e)
    case None
    then have "workers u = workers s @ [last (workers u)]" using new(2) by simp
    with new(1) None have "kept_ports present used base u (workers u)" by simp
    moreover have "repair u = []" using new(3) Suc.prems(3) by simp
    ultimately show ?thesis using Suc.IH [of u] Suc.prems(1) u None by simp
  next
    case (Some x)
    then have "kept_ports present used base u (workers u)" "repair u = []" "t = u"
      using new Suc.prems u by simp_all
    then show ?thesis by simp
  qed
qed simp

section \<open>Stop\<close>

lemma present_foldl_remove:
  assumes "container_law lib present used"
  shows "present (foldl (\<lambda>d p. case m p of None \<Rightarrow> d | Some w \<Rightarrow> fst (RemoveWorkerContainer lib d (cId w))) d ps)
    = present d - cId ` {w. \<exists>p \<in> set ps. m p = Some w}"
proof (induction ps arbitrary: d)
  case (Cons p ps)
  then show ?case using container_lawD(3) [OF assms] by (auto split: option.split)
qed simp

lemma Stop_present:
  assumes "container_law lib present used" and "kept_ports present used base s ws" and "dom (workerByPort s) \<subseteq> set ps"
  shows "present (dp (watcher_Stop lib ps s)) \<subseteq> base"
proof -
  have sub: "X \<subseteq> base \<union> Y \<Longrightarrow> Y \<subseteq> Z \<Longrightarrow> X - Z \<subseteq> base" for X Y Z :: "string set" by blast
  have "ran (workerByPort s) \<subseteq> {w. \<exists>p \<in> set ps. workerByPort s p = Some w}"
    using assms(3) by (fastforce simp: ran_def)
  from sub [OF kept_portsD(1) [OF assms(2)] image_mono [OF this]] show ?thesis
    unfolding watcher_Stop_def by (simp add: present_foldl_remove [OF assms(1)])
qed

lemma Init_kept:
  assumes law: "container_law lib present used" "fresh_ports lib used" "starts lib"
    and run: "watcher_Init lib ps n (Inr d) s0 = Some (t, err)"
  shows "err = None \<Longrightarrow> fleet_kept present used (present d) (idle_fleet t)"
    and "err = Some e \<Longrightarrow> dom (workerByPort t) \<subseteq> set ps \<Longrightarrow> present (dp t) \<subseteq> present d"
proof -
  obtain d1 e1 where b: "BuildWorkerImage lib d = (d1, e1)" by force
  have d1: "present d1 = present d" using container_lawD(9) [OF law(1), of d] b by simp
  let ?s = "s0\<lparr>dp := d1, WorkerCnt := n, workers := [], repair := [], workerByPort := Map.empty, chans_closed := False\<rparr>"
  have start: "kept_ports present used (present d) ?s (workers ?s)" by (simp add: kept_ports_def d1)
  show "fleet_kept present used (present d) (idle_fleet t)" if "err = None"
  proof -
    have "startWorkers lib n ?s = Some (t, None)"
      using run b that by (auto simp: watcher_Init_def Let_def split: if_splits option.splits)
    from kept_startWorkers [OF law this start] show ?thesis
      by (simp add: fleet_kept_def places_def idle_fleet_def)
  qed
  show "present (dp t) \<subseteq> present d" if "err = Some e" "dom (workerByPort t) \<subseteq> set ps"
  proof (cases e1)
    case (Some x)
    with run b have "t = s0\<lparr>dp := d1, WorkerCnt := n\<rparr>" by (simp add: watcher_Init_def)
    then show ?thesis by (simp add: d1)
  next
    case None
    with run b that obtain u where u: "startWorkers lib n ?s = Some (u, Some e)" and t: "t = watcher_Stop lib ps u"
      by (auto simp: watcher_Init_def Let_def split: option.splits)
    from kept_startWorkers [OF law u start] have "kept_ports present used (present d) u (workers u)" by simp
    moreover have "dom (workerByPort u) \<subseteq> set ps" using that(2) t by (simp add: watcher_Stop_def)
    ultimately show ?thesis unfolding t by (rule Stop_present [OF law(1)])
  qed
qed

lemma Stop_clean:
  assumes "container_law lib present used" and "fresh_ports lib used" and "starts lib"
    and "watcher_Init lib ps n (Inr d) s0 = Some (t, None)" and "fleet_reach lib (idle_fleet t) s"
    and "dom (workerByPort (wt s)) \<subseteq> set qs"
  shows "present (dp (watcher_Stop lib qs (wt s))) \<subseteq> present d"
proof -
  have "fleet_kept present used (present d) s"
    using fleet_kept_reach [OF assms(1-3,5)] Init_kept(1) [OF assms(1-4)] by blast
  then show ?thesis unfolding fleet_kept_def by (rule Stop_present [OF assms(1) _ assms(6)])
qed

section \<open>From Init to Stop\<close>

text \<open>A Docker that keeps what was given out and what there is.\<close>

type_synonym shelf = "string list \<times> string list"

definition shelf_used :: "shelf \<Rightarrow> string set" where "shelf_used w = set (fst w)"
definition shelf_present :: "shelf \<Rightarrow> string set" where "shelf_present w = set (snd w)"

definition shelf_docker :: "shelf docker" where
  "shelf_docker = \<lparr>getFreePort = (\<lambda>w. Inr (concat (fst w) @ ''1'')), BuildWorkerImage = (\<lambda>w. (w, None)),
     CreateWorkerContainer = (\<lambda>(us, is) p. ((p # us, p # is), Inr p)),
     StartWorkerContainer = (\<lambda>w i. (w, None)),
     InspectWorkerContainer = (\<lambda>w i. Inr \<lparr>isRunning = True, isPaused = False, isOOMKilled = False, isDead = False\<rparr>),
     RestartWorkerContainer = (\<lambda>w i. (w, None)),
     RemoveWorkerContainer = (\<lambda>(us, is) i. ((us, removeAll i is), None)),
     drift = (\<lambda>(us, is) (vs, js). vs = us \<and> set js \<subseteq> set is)\<rparr>"

lemma length_concat_member: "p \<in> set us \<Longrightarrow> length p \<le> length (concat us)"
  by (induction us) auto

lemma shelf_laws:
  "container_law shelf_docker shelf_present shelf_used" "fresh_ports shelf_docker shelf_used" "starts shelf_docker"
proof -
  have "concat us @ ''1'' \<notin> set us" for us using length_concat_member [of "concat us @ ''1''" us] by auto
  then show "fresh_ports shelf_docker shelf_used" by (simp add: fresh_ports_def shelf_docker_def shelf_used_def)
qed (auto simp: container_law_def starts_def shelf_docker_def shelf_used_def shelf_present_def split: prod.splits)

text \<open>\<open>Stop\<close> leaves nothing behind.  When Docker gives out a port once and every created container starts, then
  after \<open>Init\<close>, whatever borrowers and the repair loop did, \<open>Stop\<close> has removed every container the watcher created:
  those that replaced broken ones too.  An \<open>Init\<close> that fails
  has removed what it had started.\<close>
lemma stop_removes_containers:
  assumes "container_law lib present used" and "fresh_ports lib used" and "starts lib"
    and "watcher_Init lib ps n (Inr d) s0 = Some (t, err)"
  shows "(err = None \<longrightarrow> fleet_reach lib (idle_fleet t) s \<and> dom (workerByPort (wt s)) \<subseteq> set qs
      \<longrightarrow> present (dp (watcher_Stop lib qs (wt s))) \<subseteq> present d) \<and>
    (err \<noteq> None \<longrightarrow> dom (workerByPort t) \<subseteq> set ps \<longrightarrow> present (dp t) \<subseteq> present d)"
proof (intro conjI impI)
  assume "err = None" and "fleet_reach lib (idle_fleet t) s \<and> dom (workerByPort (wt s)) \<subseteq> set qs"
  with assms(4) show "present (dp (watcher_Stop lib qs (wt s))) \<subseteq> present d"
    by (intro Stop_clean [OF assms(1-3)]) auto
next
  assume "err \<noteq> None" and "dom (workerByPort t) \<subseteq> set ps"
  then show "present (dp t) \<subseteq> present d" using Init_kept(2) [OF assms] by auto
qed

definition shelf_watcher :: "shelf watcher" where
  "shelf_watcher = \<lparr>dp = ([], []), WorkerCnt = 0, workers = [], repair = [], workerByPort = Map.empty, chans_closed = False\<rparr>"

definition shelf_started :: "string list \<Rightarrow> shelf watcher" where
  "shelf_started others = \<lparr>dp = ([''11'', ''1''], [''11'', ''1''] @ others), WorkerCnt = 2,
     workers = [\<lparr>port = ''1'', cId = ''1''\<rparr>, \<lparr>port = ''11'', cId = ''11''\<rparr>], repair = [],
     workerByPort = [''1'' \<mapsto> \<lparr>port = ''1'', cId = ''1''\<rparr>, ''11'' \<mapsto> \<lparr>port = ''11'', cId = ''11''\<rparr>],
     chans_closed = False\<rparr>"

lemma shelf_Init: "watcher_Init shelf_docker ps 2 (Inr ([], others)) shelf_watcher = Some (shelf_started others, None)"
  by (simp add: watcher_Init_def shelf_watcher_def shelf_started_def numeral_2_eq_2 startNewWorker_def shelf_docker_def
      send_workers_def Let_def)

lemma stop_removes_containers_witness:
  "\<exists>t s. watcher_Init shelf_docker [] 2 (Inr ([], [''other''])) shelf_watcher = Some (t, None) \<and>
     shelf_present (dp t) = {''1'', ''11'', ''other''} \<and> fleet_reach shelf_docker (idle_fleet t) s \<and> probing s \<noteq> [] \<and>
     shelf_present (dp (watcher_Stop shelf_docker [''11'', ''1''] (wt s))) \<subseteq> {''other''}"
proof -
  let ?w = "\<lparr>port = ''1'', cId = ''1''\<rparr>" and ?v = "\<lparr>port = ''11'', cId = ''11''\<rparr>"
  let ?t = "shelf_started [''other'']"
  let ?s = "idle_fleet ?t\<lparr>wt := ?t\<lparr>workers := [?v]\<rparr>, probing := [?w]\<rparr>"
  note t = shelf_Init [of "[]" "[''other'']"]
  have "watch_step shelf_docker (idle_fleet ?t) ?s"
    using b_take [of "idle_fleet ?t" ?w "[?v]" shelf_docker] by (simp add: idle_fleet_def shelf_started_def)
  then have reach: "fleet_reach shelf_docker (idle_fleet ?t) ?s" by (meson fleet_start fleet_step)
  have "dom (workerByPort (wt ?s)) \<subseteq> set [''11'', ''1'']" by (simp add: shelf_started_def)
  with stop_removes_containers [OF shelf_laws t, of ?s "[''11'', ''1'']"] reach
  have "shelf_present (dp (watcher_Stop shelf_docker [''11'', ''1''] (wt ?s))) \<subseteq> {''other''}"
    by (simp add: shelf_present_def)
  with t reach show ?thesis by (intro exI [of _ ?t] exI [of _ ?s]) (auto simp: shelf_present_def shelf_started_def)
qed

text \<open>Without \<open>starts\<close> a container is forgotten: when \<open>StartWorkerContainer\<close> fails, the container just created is in neither
  \<open>workerByPort\<close> nor a channel, and \<open>Stop\<close> does not remove it.\<close>

lemma forgotten_container:
  assumes "container_law lib present used" and "getFreePort lib (dp s) = Inr p"
    and "CreateWorkerContainer lib (dp s) p = (d, Inr i)" and "StartWorkerContainer lib d i = (d', Some e)"
    and "i \<notin> cId ` ran (workerByPort s)"
  shows "\<exists>t. startNewWorker lib s = Some (t, Some e) \<and> i \<in> present (dp (watcher_Stop lib ps t))"
proof -
  have "present d' = insert i (present (dp s))"
    using container_lawD(1) [OF assms(1) assms(3)] container_lawD(5) [OF assms(1), of d i] assms(4) by simp
  moreover have "i \<notin> cId ` {w. \<exists>p \<in> set ps. workerByPort s p = Some w}"
    using assms(5) by (auto simp: ran_def)
  ultimately have "i \<in> present (dp (watcher_Stop lib ps (s\<lparr>dp := d'\<rparr>)))"
    unfolding watcher_Stop_def by (simp add: present_foldl_remove [OF assms(1)])
  moreover have "startNewWorker lib s = Some (s\<lparr>dp := d'\<rparr>, Some e)"
    using assms(2-4) by (simp add: startNewWorker_def Let_def)
  ultimately show ?thesis by blast
qed

end
