(* ===== verification/Control.thy ===== *)
theory Control
  imports ConfigFile Logging MongoStore Containers Scheduler
begin

text \<open>
  The component manager, \<open>internal/control/components.go\<close>, with what it starts and stops: \<open>Init\<close>, \<open>Start\<close> and
  \<open>Stop\<close> of \<open>internal/server/server.go\<close>, \<open>NewDockerProvider\<close> of the adapter, and the \<open>Init\<close>s of the scheduler, of the worker
  pool, of the logger and of the database from the other theories.  \<open>Start\<close> is a list of stages, so what holds
  between two of them can be said; the server listens from its stage on.
\<close>

section \<open>How a stage ends\<close>

text \<open>\<open>Exits\<close> is \<open>zlog.Fatal\<close>; \<open>Hangs\<close> is a call that never returns.\<close>

datatype fate = Runs | Panicked string | Exited | Hangs

fun of_outcome :: "'a outcome \<Rightarrow> fate" where
  "of_outcome (Return _) = Runs"
| "of_outcome (Panic m) = Panicked m"

fun run_stages :: "('c \<Rightarrow> 'c \<times> fate) list \<Rightarrow> 'c \<Rightarrow> 'c \<times> fate" where
  "run_stages [] c = (c, Runs)"
| "run_stages (f # fs) c = (case f c of
     (c, Runs) \<Rightarrow> run_stages fs c
   | (c, end) \<Rightarrow> (c, end))"

section \<open>The server's life\<close>

definition FS_ROOT_DIR :: string where "FS_ROOT_DIR = ''coderun''"

text \<open>\<open>listening\<close> is whether \<open>Serve\<close> runs.  The router is the function \<open>serve\<close> of \<open>Server\<close>.\<close>

record http_server =
  root_fs :: FileStorage
  release_mode :: bool
  server_addr :: string
  ReadTimeout :: int
  WriteTimeout :: int
  listening :: bool

definition server_Init :: "(string \<Rightarrow> go_error option) \<Rightarrow> go_error + string \<Rightarrow> ServerConfig option \<Rightarrow> http_server outcome" where
  "server_Init mkdir root cfg = (case NewFileStorageDriver mkdir root FS_ROOT_DIR of
     Inl err \<Rightarrow> Panic (Error err)
   | Inr fs \<Rightarrow> (case cfg of
       None \<Rightarrow> Panic ''nil pointer dereference''
     | Some cfg \<Rightarrow> Return \<lparr>root_fs = fs, release_mode = DeployProduction cfg, server_addr = SAddr cfg,
         ReadTimeout = AcceptTimeout cfg, WriteTimeout = ResponseTimeout cfg, listening = False\<rparr>))"

text \<open>\<open>listen\<close> is the error of \<open>reuseport.Listen\<close>: the goroutine panics with it, and the process is gone within
  the second that \<open>Start\<close> sleeps.\<close>

definition server_Start :: "(string \<Rightarrow> go_error option) \<Rightarrow> http_server \<Rightarrow> http_server outcome" where
  "server_Start listen s = (case listen (server_addr s) of
     Some err \<Rightarrow> Panic (Error err)
   | None \<Rightarrow> Return (s\<lparr>listening := True\<rparr>))"

text \<open>\<open>shutdown\<close> is the error of \<open>Shutdown\<close> within five seconds.\<close>

definition server_Stop :: "go_error option \<Rightarrow> http_server \<Rightarrow> http_server \<times> fate" where
  "server_Stop shutdown s = (case shutdown of
     Some err \<Rightarrow> (s, Exited)
   | None \<Rightarrow> (s\<lparr>listening := False\<rparr>, Runs))"

section \<open>The worker pool's start\<close>

definition NewDockerProvider :: "go_error + 'v \<Rightarrow> go_error + 'v" where
  "NewDockerProvider newClient = (case newClient of
     Inl err \<Rightarrow> Inl (Wrap err ''failed to create docker adapter'')
   | Inr cli \<Rightarrow> Inr cli)"

text \<open>The panic of \<open>Start\<close> with an error of \<open>Init\<close>.  A negative capacity of a channel panics by itself, once the
  image is built.\<close>

definition init_failed :: "go_error \<Rightarrow> fate" where
  "init_failed err = Panicked (''coderun expected to init but failed: '' @ Error err)"

definition coderun_Init :: "'v docker \<Rightarrow> string list \<Rightarrow> int \<Rightarrow> go_error + 'v \<Rightarrow> 'v watcher \<Rightarrow> 'v watcher \<times> fate" where
  "coderun_Init lib ps cnt provider s =
     (if cnt < 0 then (case provider of
          Inl err \<Rightarrow> (s, init_failed err)
        | Inr d \<Rightarrow> (case BuildWorkerImage lib d of
            (d, Some err) \<Rightarrow> (s\<lparr>dp := d\<rparr>, init_failed err)
          | (d, None) \<Rightarrow> (s\<lparr>dp := d\<rparr>, Panicked ''makechan: size out of range'')))
      else (case watcher_Init lib ps (nat cnt) provider s of
          None \<Rightarrow> (s, Hangs)
        | Some (s, Some err) \<Rightarrow> (s, init_failed err)
        | Some (s, None) \<Rightarrow> (s, Runs)))"

section \<open>The process\<close>

text \<open>
  The package variables.  A part that has not been initialised is \<^term>\<open>None\<close>: a nil pointer, or a struct of nil
  pointers, maps and channels.  \<open>cancelled\<close> is the root context.
\<close>

record ('m, 's, 'r, 'rh, 't, 'e, 'eh, 'p, 'ph, 'v, 'k) process =
  config :: ServiceConfig
  zlog :: "zlogger option"
  mdata :: "('m, 's, 'r, 'rh, 't, 'e, 'eh, 'p, 'ph) database"
  httpd :: "http_server option"
  scheduler :: "'k sched option"
  watcher :: "'v watcher option"
  cancelled :: bool

text \<open>
  What the process finds around it: the environment, the files, MongoDB, the network, Docker.  \<open>rest\<close> is what a
  watcher that was never initialised holds; \<open>freePort\<close> is \<open>getFreePort\<close>, and \<open>port_order\<close> the order in which a range
  over the ports comes by them.
\<close>

record ('m, 's, 'r, 'rh, 't, 'e, 'eh, 'p, 'ph, 'v) machine =
  lookup :: env
  proot :: "go_error + string"
  read_file :: "string \<Rightarrow> go_error + string"
  yaml :: "string \<Rightarrow> ServiceConfig \<Rightarrow> ServiceConfig \<times> go_error option"
  hook :: "(ServiceConfig \<Rightarrow> ServiceConfig) option"
  mkdir :: "string \<Rightarrow> go_error option"
  mims :: "('m, 's, 'r, 't, 'e, 'p) mim"
  mongo :: "('r, 'rh, 't, 'e, 'eh, 'p, 'ph) mongo_lib"
  listen :: "string \<Rightarrow> go_error option"
  shutdown :: "go_error option"
  newClient :: "go_error + 'v"
  dclient :: "'v client"
  freePort :: "'v \<Rightarrow> go_error + string"
  port_order :: "string list"
  rest :: "'v watcher"

text \<open>Docker through the adapter, under the configuration that was loaded.\<close>

definition docker_of :: "('m, 's, 'r, 'rh, 't, 'e, 'eh, 'p, 'ph, 'v) machine \<Rightarrow> ServiceConfig \<Rightarrow> ContainerConfig \<Rightarrow> 'v docker" where
  "docker_of M c cc = adapter (dclient M) \<lparr>getenv = lookup M, project_root = proot M,
     storage_root = FileStorageRoot (mkdir M) (proot M), limits = cc,
     log_to_file = FileLoggingEnabled (GetLogConfig c), log_dir = Directory (GetLogConfig c)\<rparr> (freePort M)"

type_synonym ('m, 's, 'r, 'rh, 't, 'e, 'eh, 'p, 'ph, 'v, 'k) stage =
  "('m, 's, 'r, 'rh, 't, 'e, 'eh, 'p, 'ph, 'v) machine \<Rightarrow> ('m, 's, 'r, 'rh, 't, 'e, 'eh, 'p, 'ph, 'v, 'k) process
    \<Rightarrow> ('m, 's, 'r, 'rh, 't, 'e, 'eh, 'p, 'ph, 'v, 'k) process \<times> fate"

section \<open>Start\<close>

definition start_config :: "('m, 's, 'r, 'rh, 't, 'e, 'eh, 'p, 'ph, 'v, 'k) stage" where
  "start_config M c = (case LoadConfig (lookup M) (proot M) (read_file M) (yaml M) (hook M) (config c) of
     (cfg, out) \<Rightarrow> (c\<lparr>config := cfg\<rparr>, of_outcome out))"

definition start_logger :: "('m, 's, 'r, 'rh, 't, 'e, 'eh, 'p, 'ph, 'v, 'k) stage" where
  "start_logger M c = (c\<lparr>zlog := Some (logger_Init (mkdir M) (GetLogConfig (config c)))\<rparr>, Runs)"

definition start_database :: "('m, 's, 'r, 'rh, 't, 'e, 'eh, 'p, 'ph, 'v, 'k) stage" where
  "start_database M c = (case InitDB (mims M) (mongo M) (GetDatabaseConfig (config c)) (mdata c) of
     (d, out) \<Rightarrow> (c\<lparr>mdata := d\<rparr>, case out of
        Panic m \<Rightarrow> Panicked m
      | Return (Some err) \<Rightarrow> Panicked (Error err)
      | Return None \<Rightarrow> Runs))"

definition start_server :: "('m, 's, 'r, 'rh, 't, 'e, 'eh, 'p, 'ph, 'v, 'k) stage" where
  "start_server M c =
     (if UseServer (GetComponentsConfig (config c)) then
        (case server_Init (mkdir M) (proot M) (GetServerConfig (config c)) of
           Panic m \<Rightarrow> (c, Panicked m)
         | Return s \<Rightarrow> let c = c\<lparr>httpd := Some s\<rparr> in
             (case server_Start (listen M) s of
                Panic m \<Rightarrow> (c, Panicked m)
              | Return s \<Rightarrow> (c\<lparr>httpd := Some s\<rparr>, Runs)))
      else (c, Runs))"

definition start_brokers :: "('m, 's, 'r, 'rh, 't, 'e, 'eh, 'p, 'ph, 'v, 'k) stage" where
  "start_brokers M c =
     (if UseBrokers (GetComponentsConfig (config c)) then
        (case GetMPTaskSchedulerConfig (config c) of
           Panic m \<Rightarrow> (c, Panicked m)
         | Return cfg \<Rightarrow> (c\<lparr>scheduler := Some (sched_Start (unat (R_workers cfg)) (unat (W_workers cfg)) sched_Init)\<rparr>, Runs))
      else (c, Runs))"

definition start_coderun :: "('m, 's, 'r, 'rh, 't, 'e, 'eh, 'p, 'ph, 'v, 'k) stage" where
  "start_coderun M c =
     (if UseCoderun (GetComponentsConfig (config c)) then
        (case GetCoderunConfig (config c) of
           None \<Rightarrow> (c, Panicked ''nil pointer dereference'')
         | Some cfg \<Rightarrow> (case coderun_Init (docker_of M (config c) (Container (WorkerSection cfg))) (port_order M)
               (Worker_cnt cfg) (NewDockerProvider (newClient M)) (rest M) of
             (w, end) \<Rightarrow> (c\<lparr>watcher := Some w\<rparr>, end)))
      else (c, Runs))"

definition components_Start :: "('m, 's, 'r, 'rh, 't, 'e, 'eh, 'p, 'ph, 'v, 'k) stage" where
  "components_Start M = run_stages [start_config M, start_logger M, start_database M, start_server M,
     start_brokers M, start_coderun M]"

section \<open>Stop\<close>

text \<open>
  \<open>Stop\<close> of the scheduler takes the steps of \<open>Scheduler\<close> to its end; a worker that reports an error after the channel was
  closed panics.  A call on a part that was never initialised panics too.
\<close>

inductive stop_brokers :: "('m, 's, 'r, 'rh, 't, 'e, 'eh, 'p, 'ph, 'v, 'k) process
    \<Rightarrow> ('m, 's, 'r, 'rh, 't, 'e, 'eh, 'p, 'ph, 'v, 'k) process \<times> fate \<Rightarrow> bool" where
  b_off: "\<not> UseBrokers (GetComponentsConfig (config c)) \<Longrightarrow> stop_brokers c (c, Runs)"
| b_joined: "UseBrokers (GetComponentsConfig (config c)) \<Longrightarrow> scheduler c = Some s \<Longrightarrow> sched_step\<^sup>*\<^sup>* s t \<Longrightarrow>
    stopping t = 4 \<Longrightarrow> stop_brokers c (c\<lparr>scheduler := Some t\<rparr>, Runs)"
| b_crashed: "UseBrokers (GetComponentsConfig (config c)) \<Longrightarrow> scheduler c = Some s \<Longrightarrow> sched_step\<^sup>*\<^sup>* s t \<Longrightarrow>
    crashed t \<Longrightarrow> stop_brokers c (c\<lparr>scheduler := Some t\<rparr>, Panicked ''send on closed channel'')"
| b_nil: "UseBrokers (GetComponentsConfig (config c)) \<Longrightarrow> scheduler c = None \<Longrightarrow>
    stop_brokers c (c, Panicked ''nil pointer dereference'')"

definition stop_server :: "('m, 's, 'r, 'rh, 't, 'e, 'eh, 'p, 'ph, 'v, 'k) stage" where
  "stop_server M c =
     (if UseServer (GetComponentsConfig (config c)) then
        (case httpd c of
           None \<Rightarrow> (c, Panicked ''nil pointer dereference'')
         | Some s \<Rightarrow> (case server_Stop (shutdown M) s of (s, end) \<Rightarrow> (c\<lparr>httpd := Some s\<rparr>, end)))
      else (c, Runs))"

definition stop_coderun :: "('m, 's, 'r, 'rh, 't, 'e, 'eh, 'p, 'ph, 'v, 'k) stage" where
  "stop_coderun M c =
     (if UseCoderun (GetComponentsConfig (config c)) then
        (case (watcher c, GetCoderunConfig (config c)) of
           (Some w, Some cfg) \<Rightarrow> (c\<lparr>watcher := Some (watcher_Stop (docker_of M (config c) (Container (WorkerSection cfg)))
             (port_order M) w)\<rparr>, Runs)
         | _ \<Rightarrow> (c, Panicked ''nil pointer dereference''))
      else (c, Runs))"

definition stop_database :: "('m, 's, 'r, 'rh, 't, 'e, 'eh, 'p, 'ph, 'v, 'k) stage" where
  "stop_database M c = (case Disconnect (mims M) (mdata c) of
     (d, out) \<Rightarrow> (c\<lparr>mdata := d\<rparr>, case out of
        Panic m \<Rightarrow> Panicked m
      | Return (Some err) \<Rightarrow> Panicked (Error err)
      | Return None \<Rightarrow> Runs))"

inductive components_Stop :: "('m, 's, 'r, 'rh, 't, 'e, 'eh, 'p, 'ph, 'v) machine
    \<Rightarrow> ('m, 's, 'r, 'rh, 't, 'e, 'eh, 'p, 'ph, 'v, 'k) process
    \<Rightarrow> ('m, 's, 'r, 'rh, 't, 'e, 'eh, 'p, 'ph, 'v, 'k) process \<times> fate \<Rightarrow> bool" for M where
  c_stuck: "stop_server M (c\<lparr>cancelled := True\<rparr>) = (d, end) \<Longrightarrow> end \<noteq> Runs \<Longrightarrow> components_Stop M c (d, end)"
| c_broken: "stop_server M (c\<lparr>cancelled := True\<rparr>) = (d, Runs) \<Longrightarrow> stop_brokers d (e, end) \<Longrightarrow> end \<noteq> Runs \<Longrightarrow>
    components_Stop M c (e, end)"
| c_stopped: "stop_server M (c\<lparr>cancelled := True\<rparr>) = (d, Runs) \<Longrightarrow> stop_brokers d (e, Runs) \<Longrightarrow>
    components_Stop M c (run_stages [stop_coderun M, stop_database M] e)"

section \<open>What the stages establish\<close>

lemma run_stages_Runs:
  "run_stages [] c = (d, Runs) \<longleftrightarrow> d = c"
  "run_stages (f # fs) c = (d, Runs) \<longleftrightarrow> (\<exists>e. f c = (e, Runs) \<and> run_stages fs e = (d, Runs))"
  by (auto split: prod.splits fate.splits)

lemma run_stages_end:
  assumes "run_stages fs c = (d, end)" and "end \<noteq> Runs"
  shows "\<exists>f \<in> set fs. \<exists>e. snd (f e) = end"
  using assms
proof (induction fs arbitrary: c)
  case (Cons f fs)
  obtain e x where f: "f c = (e, x)" by force
  show ?case
  proof (cases "x = Runs")
    case True
    with Cons f show ?thesis by auto
  next
    case False
    with Cons.prems f have "x = end" by (cases x) auto
    with f have "snd (f c) = end" by simp
    then show ?thesis by auto
  qed
qed simp

lemma startNewWorker_room:
  assumes "length (workers s) < WorkerCnt s"
  obtains t err where "startNewWorker lib s = Some (t, err)" and "repair t = repair s" and "WorkerCnt t = WorkerCnt s"
    and "length (workers t) = length (workers s) + (if err = None then 1 else 0)"
proof -
  have "case startNewWorker lib s of None \<Rightarrow> False
    | Some (t, err) \<Rightarrow> repair t = repair s \<and> WorkerCnt t = WorkerCnt s \<and>
        length (workers t) = length (workers s) + (if err = None then 1 else 0)"
    using assms by (auto simp: startNewWorker_def send_workers_def Let_def split: sum.splits prod.splits)
  with that show thesis by (auto split: option.splits prod.splits)
qed

lemma startWorkers_room:
  assumes "length (workers s) + n \<le> WorkerCnt s"
  shows "\<exists>t err. startWorkers lib n s = Some (t, err) \<and> repair t = repair s \<and> WorkerCnt t = WorkerCnt s \<and>
    length (workers t) \<le> length (workers s) + n \<and> (err = None \<longrightarrow> length (workers t) = length (workers s) + n)"
  using assms
proof (induction n arbitrary: s)
  case (Suc n)
  then have "length (workers s) < WorkerCnt s" by simp
  then obtain t err where t: "startNewWorker lib s = Some (t, err)" "repair t = repair s" "WorkerCnt t = WorkerCnt s"
    "length (workers t) = length (workers s) + (if err = None then 1 else 0)" by (rule startNewWorker_room)
  show ?case
  proof (cases err)
    case None
    with t Suc.prems have "length (workers t) + n \<le> WorkerCnt t" by simp
    from Suc.IH [OF this] t None show ?thesis by auto
  qed (use t in auto)
qed simp

text \<open>\<open>Init\<close> never blocks, and when it ends well every worker is idle.\<close>

lemma watcher_Init_room:
  obtains t err where "watcher_Init lib ps n provider s = Some (t, err)"
    and "err = None \<Longrightarrow> repair t = [] \<and> WorkerCnt t = n \<and> length (workers t) = n"
proof (cases provider)
  case (Inl e)
  with that show thesis by (simp add: watcher_Init_def)
next
  case (Inr d)
  obtain d1 e1 where b: "BuildWorkerImage lib d = (d1, e1)" by force
  show thesis
  proof (cases e1)
    case (Some e)
    with Inr b that show thesis by (simp add: watcher_Init_def)
  next
    case None
    let ?s = "s\<lparr>dp := d1, WorkerCnt := n, workers := [], repair := [], workerByPort := Map.empty, chans_closed := False\<rparr>"
    obtain t err where "startWorkers lib n ?s = Some (t, err)" "repair t = []" "WorkerCnt t = n"
      "err = None \<longrightarrow> length (workers t) = n" using startWorkers_room [of ?s n lib] by auto
    with Inr b None that show thesis by (cases err) (simp_all add: watcher_Init_def Let_def)
  qed
qed

definition staffed :: "nat \<Rightarrow> 'v watcher \<Rightarrow> bool" where
  "staffed n w \<longleftrightarrow> WorkerCnt w = n \<and> length (workers w) = n \<and> repair w = []"

lemma coderun_Init_fate:
  assumes "coderun_Init lib ps cnt provider s = (w, end)"
  shows "end \<noteq> Hangs" and "end \<noteq> Exited" and "end = Runs \<Longrightarrow> 0 \<le> cnt \<and> staffed (nat cnt) w \<and>
    watcher_Init lib ps (nat cnt) provider s = Some (w, None)"
proof -
  obtain t err where t: "watcher_Init lib ps (nat cnt) provider s = Some (t, err)"
    "err = None \<Longrightarrow> repair t = [] \<and> WorkerCnt t = nat cnt \<and> length (workers t) = nat cnt"
    using watcher_Init_room [of lib ps "nat cnt" provider s] by metis
  with assms have "end \<noteq> Hangs \<and> end \<noteq> Exited \<and> (end = Runs \<longrightarrow> 0 \<le> cnt \<and> staffed (nat cnt) w \<and>
      watcher_Init lib ps (nat cnt) provider s = Some (w, None))"
    by (auto simp: coderun_Init_def init_failed_def staffed_def split: if_splits sum.splits prod.splits option.splits)
  then show "end \<noteq> Hangs" and "end \<noteq> Exited" and "end = Runs \<Longrightarrow> 0 \<le> cnt \<and> staffed (nat cnt) w \<and>
    watcher_Init lib ps (nat cnt) provider s = Some (w, None)" by blast+
qed

lemma coderun_Init_snd: "snd (coderun_Init lib ps cnt provider s) \<notin> {Hangs, Exited}"
  using coderun_Init_fate(1,2) [of lib ps cnt provider s] by (metis insertE singletonD surjective_pairing)

lemma of_outcome_fate: "of_outcome out \<noteq> Hangs" "of_outcome out \<noteq> Exited"
  by (cases out; simp)+

lemma stages_fate:
  "snd (start_config M c) \<notin> {Hangs, Exited}" "snd (start_logger M c) \<notin> {Hangs, Exited}"
  "snd (start_database M c) \<notin> {Hangs, Exited}" "snd (start_server M c) \<notin> {Hangs, Exited}"
  "snd (start_brokers M c) \<notin> {Hangs, Exited}" "snd (start_coderun M c) \<notin> {Hangs, Exited}"
proof -
  show "snd (start_coderun M c) \<notin> {Hangs, Exited}"
    by (simp add: start_coderun_def split_beta coderun_Init_snd [simplified] split: option.split)
qed (auto simp: start_config_def start_logger_def start_database_def start_server_def start_brokers_def
    of_outcome_fate Let_def split: prod.splits outcome.splits option.splits)

lemma start_fate:
  assumes "components_Start M c = (d, end)"
  shows "end \<noteq> Hangs \<and> end \<noteq> Exited"
proof (cases "end = Runs")
  case False
  from run_stages_end [OF assms [unfolded components_Start_def] this] show ?thesis
    by (auto simp: stages_fate [simplified])
qed simp

section \<open>Properties\<close>

definition zero_process :: "'m \<Rightarrow> ('m, 's, 'r, 'rh, 't, 'e, 'eh, 'p, 'ph, 'v, 'k) process" where
  "zero_process w = \<lparr>config = zero_config, zlog = None, mdata = zero_database w, httpd = None, scheduler = None,
     watcher = None, cancelled = False\<rparr>"

text \<open>Which parts run: those the configuration asks for, and no other.\<close>

definition parts_up :: "('m, 's, 'r, 'rh, 't, 'e, 'eh, 'p, 'ph, 'v) machine
    \<Rightarrow> ('m, 's, 'r, 'rh, 't, 'e, 'eh, 'p, 'ph, 'v, 'k) process \<Rightarrow> bool" where
  "parts_up M c \<longleftrightarrow> zlog c = Some (logger_Init (mkdir M) (Logs (config c))) \<and> \<not> cancelled c \<and>
     (if UseServer (Components (config c)) then \<exists>s cfg. httpd c = Some s \<and> listening s \<and> ServerSection (config c) = Some cfg \<and>
        server_addr s = SAddr cfg \<and> NewFileStorageDriver (mkdir M) (proot M) ''coderun'' = Inr (root_fs s)
      else httpd c = None) \<and>
     (if UseBrokers (Components (config c)) then \<exists>b. Brokers (config c) = Some b \<and>
        scheduler c = Some (sched_Start (unat (R_workers (Scheduler b))) (unat (W_workers (Scheduler b))) sched_Init)
      else scheduler c = None) \<and>
     (if UseCoderun (Components (config c)) then \<exists>w cfg. watcher c = Some w \<and> Coderun (config c) = Some cfg \<and>
        0 \<le> Worker_cnt cfg \<and> staffed (nat (Worker_cnt cfg)) w
      else watcher c = None)"

lemma start_split:
  assumes "components_Start M c0 = (c, Runs)"
  obtains c1 c2 c3 c4 where "start_config M c0 = (c1, Runs)"
    and "c2 = c1\<lparr>zlog := Some (logger_Init (mkdir M) (Logs (config c1)))\<rparr>"
    and "start_database M c2 = (c3, Runs)" and "start_server M c3 = (c4, Runs)"
    and "run_stages [start_brokers M, start_coderun M] c4 = (c, Runs)"
  using assms that
  by (auto simp: components_Start_def run_stages_Runs start_logger_def GetLogConfig_def simp del: run_stages.simps)

lemma start_config_keeps:
  assumes "start_config M c = (d, end)"
  shows "d = c\<lparr>config := config d\<rparr>"
  using assms by (auto simp: start_config_def split: prod.splits)

lemma start_database_keeps:
  assumes "start_database M c = (d, end)"
  shows "d = c\<lparr>mdata := mdata d\<rparr>"
    and "end = Runs \<Longrightarrow> InitDB (mims M) (mongo M) (Database (config c)) (mdata c) = (mdata d, Return None)"
  using assms
  by (auto simp: start_database_def GetDatabaseConfig_def split: prod.splits outcome.splits option.splits)

lemma start_server_Runs:
  assumes "start_server M c = (d, Runs)"
  shows "d = c\<lparr>httpd := httpd d\<rparr>"
    and "UseServer (Components (config c)) \<Longrightarrow> \<exists>s cfg. httpd d = Some s \<and> listening s \<and> ServerSection (config c) = Some cfg \<and>
        server_addr s = SAddr cfg \<and> NewFileStorageDriver (mkdir M) (proot M) ''coderun'' = Inr (root_fs s)"
    and "\<not> UseServer (Components (config c)) \<Longrightarrow> httpd d = httpd c"
  using assms
  by (auto simp: start_server_def server_Init_def server_Start_def GetComponentsConfig_def GetServerConfig_def
      FS_ROOT_DIR_def Let_def split: if_splits outcome.splits option.splits sum.splits)

lemma start_brokers_Runs:
  assumes "start_brokers M c = (d, Runs)"
  shows "d = c\<lparr>scheduler := scheduler d\<rparr>"
    and "UseBrokers (Components (config c)) \<Longrightarrow> \<exists>b. Brokers (config c) = Some b \<and>
        scheduler d = Some (sched_Start (unat (R_workers (Scheduler b))) (unat (W_workers (Scheduler b))) sched_Init)"
    and "\<not> UseBrokers (Components (config c)) \<Longrightarrow> scheduler d = scheduler c"
  using assms
  by (auto simp: start_brokers_def GetComponentsConfig_def GetMPTaskSchedulerConfig_def
      split: if_splits outcome.splits option.splits)

lemma start_coderun_Runs:
  assumes "start_coderun M c = (d, Runs)"
  shows "d = c\<lparr>watcher := watcher d\<rparr>"
    and "UseCoderun (Components (config c)) \<Longrightarrow> \<exists>w cfg. watcher d = Some w \<and> Coderun (config c) = Some cfg \<and>
        0 \<le> Worker_cnt cfg \<and> staffed (nat (Worker_cnt cfg)) w \<and>
        watcher_Init (docker_of M (config c) (Container (WorkerSection cfg))) (port_order M) (nat (Worker_cnt cfg))
          (NewDockerProvider (newClient M)) (rest M) = Some (w, None)"
    and "\<not> UseCoderun (Components (config c)) \<Longrightarrow> watcher d = watcher c"
proof -
  show "d = c\<lparr>watcher := watcher d\<rparr>" and "\<not> UseCoderun (Components (config c)) \<Longrightarrow> watcher d = watcher c"
    using assms by (auto simp: start_coderun_def GetComponentsConfig_def split: if_splits option.splits prod.splits)
  assume on: "UseCoderun (Components (config c))"
  with assms obtain cfg w where "Coderun (config c) = Some cfg" "watcher d = Some w"
    "coderun_Init (docker_of M (config c) (Container (WorkerSection cfg))) (port_order M) (Worker_cnt cfg)
      (NewDockerProvider (newClient M)) (rest M) = (w, Runs)"
    by (auto simp: start_coderun_def GetComponentsConfig_def GetCoderunConfig_def split: option.splits prod.splits)
  with coderun_Init_fate(3) [OF this(3)] show "\<exists>w cfg. watcher d = Some w \<and> Coderun (config c) = Some cfg \<and>
      0 \<le> Worker_cnt cfg \<and> staffed (nat (Worker_cnt cfg)) w \<and>
      watcher_Init (docker_of M (config c) (Container (WorkerSection cfg))) (port_order M) (nat (Worker_cnt cfg))
        (NewDockerProvider (newClient M)) (rest M) = Some (w, None)" by blast
qed

lemma process_frame:
  assumes "components_Start M (zero_process w) = (c, Runs)"
  obtains c2 c3 c4 c5 where "c2 = (zero_process w)\<lparr>config := config c, zlog := Some (logger_Init (mkdir M) (Logs (config c)))\<rparr>"
    and "start_database M c2 = (c3, Runs)" and "start_server M c3 = (c4, Runs)" and "start_brokers M c4 = (c5, Runs)"
    and "start_coderun M c5 = (c, Runs)" and "config c3 = config c" and "config c4 = config c" and "config c5 = config c"
proof (rule start_split [OF assms])
  fix c1 c2 c3 c4
  assume at: "start_config M (zero_process w) = (c1, Runs)"
    "c2 = c1\<lparr>zlog := Some (logger_Init (mkdir M) (Logs (config c1)))\<rparr>"
    "start_database M c2 = (c3, Runs)" "start_server M c3 = (c4, Runs)"
    and "run_stages [start_brokers M, start_coderun M] c4 = (c, Runs)"
  then obtain c5 where c5: "start_brokers M c4 = (c5, Runs)" "start_coderun M c5 = (c, Runs)"
    by (auto simp: run_stages_Runs simp del: run_stages.simps)
  note k = start_config_keeps [OF at(1)] start_database_keeps(1) [OF at(3)] start_server_Runs(1) [OF at(4)]
    start_brokers_Runs(1) [OF c5(1)] start_coderun_Runs(1) [OF c5(2)]
  have "config c5 = config c" using arg_cong [OF k(5), of config] by simp
  moreover have "config c4 = config c5" using arg_cong [OF k(4), of config] by simp
  moreover have "config c3 = config c4" using arg_cong [OF k(3), of config] by simp
  moreover have "config c2 = config c3" using arg_cong [OF k(2), of config] by simp
  moreover have "config c2 = config c1" using at(2) by simp
  ultimately show thesis using at(2-4) c5 k(1) that [of c2 c3 c4 c5] by (metis process.update_convs)
qed

text \<open>A start that comes through: the parts, and the database as \<open>InitDB\<close> left it.\<close>

lemma start_up:
  assumes "components_Start M (zero_process w) = (c, Runs)"
  shows "parts_up M c \<and> InitDB (mims M) (mongo M) (Database (config c)) (zero_database w) = (mdata c, Return None) \<and>
    (UseCoderun (Components (config c)) \<longrightarrow> (\<exists>v cfg. watcher c = Some v \<and> Coderun (config c) = Some cfg \<and>
      watcher_Init (docker_of M (config c) (Container (WorkerSection cfg))) (port_order M) (nat (Worker_cnt cfg))
        (NewDockerProvider (newClient M)) (rest M) = Some (v, None)))"
proof -
  from assms obtain c2 c3 c4 c5 where c2: "c2 = (zero_process w)\<lparr>config := config c, zlog := Some (logger_Init (mkdir M) (Logs (config c)))\<rparr>"
    and c3: "start_database M c2 = (c3, Runs)" and c4: "start_server M c3 = (c4, Runs)" and c5: "start_brokers M c4 = (c5, Runs)"
    and c6: "start_coderun M c5 = (c, Runs)" and cfg: "config c3 = config c" "config c4 = config c" "config c5 = config c"
    using process_frame [of M w c] by metis
  have db: "InitDB (mims M) (mongo M) (Database (config c)) (zero_database w) = (mdata c3, Return None)"
    using start_database_keeps(2) [OF c3] by (simp add: c2 zero_process_def)
  note k = start_database_keeps(1) [OF c3] start_server_Runs(1) [OF c4] start_brokers_Runs(1) [OF c5] start_coderun_Runs(1) [OF c6]
  have same: "mdata c = mdata c3" "httpd c = httpd c4" "httpd c3 = None" "scheduler c = scheduler c5" "scheduler c4 = None"
    "watcher c5 = None" "zlog c = zlog c2" "\<not> cancelled c"
    using arg_cong [OF k(1), of httpd] arg_cong [OF k(1), of scheduler] arg_cong [OF k(1), of watcher]
      arg_cong [OF k(1), of zlog] arg_cong [OF k(1), of cancelled]
      arg_cong [OF k(2), of mdata] arg_cong [OF k(2), of scheduler] arg_cong [OF k(2), of watcher]
      arg_cong [OF k(2), of zlog] arg_cong [OF k(2), of cancelled]
      arg_cong [OF k(3), of mdata] arg_cong [OF k(3), of httpd] arg_cong [OF k(3), of watcher]
      arg_cong [OF k(3), of zlog] arg_cong [OF k(3), of cancelled]
      arg_cong [OF k(4), of mdata] arg_cong [OF k(4), of httpd] arg_cong [OF k(4), of scheduler]
      arg_cong [OF k(4), of zlog] arg_cong [OF k(4), of cancelled]
    by (simp_all add: c2 zero_process_def)
  have "parts_up M c"
    using start_server_Runs(2,3) [OF c4] start_brokers_Runs(2,3) [OF c5] start_coderun_Runs(2,3) [OF c6] cfg same c2
    unfolding parts_up_def by (auto simp: zero_process_def)
  with db start_coderun_Runs(2) [OF c6] cfg(3) same(1) show ?thesis by fastforce
qed

text \<open>Starting the program either brings up exactly what the configuration asks for, or ends with a
  panic that says why: it never hangs and never exits by itself.  When it comes through, the configuration is loaded, the
  database is up with its indexes, and the server listens, the scheduler has its workers and the pool its
  idle containers, each if and only if its switch is on, with the section of the file it was given; a switch without its section
  ends in a panic.\<close>
lemma start_brings_up:
  assumes "coll_law (route_coll (mongo M)) (route_cache (mongo M)) bson_Route rdocs rentry"
      "coll_law (record_coll (mongo M)) (record_cache (mongo M)) bson_ESBRecord edocs eentry"
      "coll_law (pool_coll (mongo M)) (pool_cache (mongo M)) bson_MessagePool pdocs pentry"
    and new: "\<And>w s cl. connect (mims M) w s = Inr cl \<Longrightarrow> fresh_server rdocs tdocs edocs pdocs cl"
    and run: "components_Start M (zero_process w) = (c, end)"
  shows "case end of
      Runs \<Rightarrow> parts_up M c \<and> db_up (mongo M) (Database (config c)) rdocs rentry tdocs edocs eentry pdocs pentry (storage (mdata c))
    | Panicked m \<Rightarrow> True
    | _ \<Rightarrow> False"
proof (cases "end = Runs")
  case False
  with start_fate [OF run] show ?thesis by (cases "end") simp_all
next
  case True
  with run start_up [of M w c] InitDB_up [OF assms(1-4)] show ?thesis by fastforce
qed

text \<open>A machine for the witnesses: everything in memory, and nothing fails.\<close>

definition demo_service :: ServiceConfig where
  "demo_service = \<lparr>Components = \<lparr>UseBrokers = True, UseCoderun = True, UseServer = True\<rparr>,
     Brokers = Some \<lparr>Rabbitmq = \<lparr>rHost = ''h'', rPort = 5672, rUsername = ''u'', rPassword = ''p''\<rparr>,
       Kafka = \<lparr>kHost = ''h'', kPort = 9092, kClientId = ''c'', kGroupId = ''g''\<rparr>, rabbitmq_init = False, kafka_init = False,
       Scheduler = \<lparr>R_workers = 2, W_workers = 1, Read_timeout = 1000, Write_timeout = 1000\<rparr>\<rparr>,
     Coderun = Some \<lparr>WorkerSection = \<lparr>Container = \<lparr>CPULimit = 0, MemoryLimitMB = 0\<rparr>, HandleTimeout = 1000\<rparr>, Worker_cnt = 2\<rparr>,
     ServerSection = Some \<lparr>SAddr = ''0.0.0.0:1337'', AcceptTimeout = 1000, ResponseTimeout = 1000, DeployProduction = False\<rparr>,
     Logs = Logs zero_config, Database = \<lparr>InMemory = True, CacheSize = 100\<rparr>\<rparr>"

definition shelf_client :: "shelf client" where
  "shelf_client = \<lparr>ImageList = (\<lambda>_. Inr [[TAG_PREFIX]]), ImageRemove = (\<lambda>w n. (w, None)), tar_error = (\<lambda>_. None),
     ImageBuild = (\<lambda>w f ts. (w, Inr ('''', None))),
     ContainerCreate = (\<lambda>w c h. case PortBindings h of [] \<Rightarrow> (w, Inl (GoError ''no port''))
       | (_, _, p) # _ \<Rightarrow> ((p # fst w, p # snd w), Inr p)),
     ContainerStart = (\<lambda>w i. (w, None)),
     ContainerInspect = (\<lambda>w i. Inr \<lparr>isRunning = True, isPaused = False, isOOMKilled = False, isDead = False\<rparr>),
     ContainerRestart = (\<lambda>w i. (w, None)), ContainerRemove = (\<lambda>w i f. ((fst w, removeAll i (snd w)), None)),
     ClientDrift = (\<lambda>(us, is) (vs, js). vs = us \<and> set js \<subseteq> set is)\<rparr>"

definition demo_machine where
  "demo_machine = \<lparr>lookup = Map.empty, proot = Inr ''/srv'', read_file = (\<lambda>_. Inr ''''), yaml = (\<lambda>_ _. (demo_service, None)),
     hook = None, mkdir = (\<lambda>_. None), mims = mem_mim, mongo = mem_lib, listen = (\<lambda>_. None), shutdown = None,
     newClient = Inr ([], []), dclient = shelf_client, freePort = (\<lambda>w. Inr (concat (fst w) @ ''1'')),
     port_order = [''1'', ''11''], rest = shelf_watcher\<rparr>"

text \<open>Through the adapter this Docker is the one of \<open>Containers\<close>.\<close>

lemma demo_docker: "docker_of demo_machine cfg cc = shelf_docker"
proof -
  have "hasWorkerImages shelf_client w = Inr True" for w
    by (simp add: hasWorkerImages_def shelf_client_def HasPrefix_prefix)
  then show ?thesis
    by (auto simp: docker_of_def demo_machine_def adapter_def adapter_Build_def adapter_Create_def getMountList_def
        FileStorageRoot_def shelf_docker_def shelf_client_def fun_eq_iff Let_def split_beta)
qed

lemma demo_config: "start_config demo_machine b = (b\<lparr>config := demo_service\<rparr>, Runs)"
  by (simp add: start_config_def demo_machine_def LoadConfig_def Let_def)

lemma demo_stages:
  assumes "config c = demo_service"
  shows "start_server demo_machine c = (c\<lparr>httpd := httpd (fst (start_server demo_machine c))\<rparr>, Runs)"
    and "start_brokers demo_machine c = (c\<lparr>scheduler := Some (sched_Start 2 1 sched_Init)\<rparr>, Runs)"
    and "start_coderun demo_machine c = (c\<lparr>watcher := Some (shelf_started [])\<rparr>, Runs)"
proof -
  show "start_server demo_machine c = (c\<lparr>httpd := httpd (fst (start_server demo_machine c))\<rparr>, Runs)"
    using assms by (simp add: start_server_def demo_machine_def demo_service_def GetComponentsConfig_def GetServerConfig_def
        server_Init_def server_Start_def NewFileStorageDriver_def FileStorageRoot_def Let_def)
  show "start_brokers demo_machine c = (c\<lparr>scheduler := Some (sched_Start 2 1 sched_Init)\<rparr>, Runs)"
    using assms by (simp add: start_brokers_def demo_service_def GetComponentsConfig_def GetMPTaskSchedulerConfig_def)
  have "newClient demo_machine = Inr ([], [])" "rest demo_machine = shelf_watcher" by (simp_all add: demo_machine_def)
  then have "coderun_Init (docker_of demo_machine demo_service cc) ps 2 (NewDockerProvider (newClient demo_machine)) (rest demo_machine)
      = (shelf_started [], Runs)" for cc ps
    by (simp add: demo_docker coderun_Init_def NewDockerProvider_def shelf_Init)
  moreover have "GetCoderunConfig demo_service = Some \<lparr>WorkerSection = \<lparr>Container = \<lparr>CPULimit = 0, MemoryLimitMB = 0\<rparr>,
      HandleTimeout = 1000\<rparr>, Worker_cnt = 2\<rparr>" "UseCoderun (GetComponentsConfig demo_service)"
    by (simp_all add: demo_service_def GetCoderunConfig_def GetComponentsConfig_def)
  ultimately show "start_coderun demo_machine c = (c\<lparr>watcher := Some (shelf_started [])\<rparr>, Runs)"
    using assms by (simp add: start_coderun_def)
qed

lemma demo_database: "config c = demo_service \<Longrightarrow> mdata c = zero_database {} \<Longrightarrow>
    start_database demo_machine c = (c\<lparr>mdata := mdata (fst (start_database demo_machine c))\<rparr>, Runs)"
  by (simp add: start_database_def demo_machine_def demo_service_def GetDatabaseConfig_def InitDB_def initInMemoryDB_def
      mem_mim_def db_init_def createRoutes_def createTaskMessages_def createESBRecords_def createMessagePools_def
      create_index_def mem_lib_def Let_def)

lemma demo_start: "\<exists>d h l. components_Start demo_machine (zero_process {}) = ((zero_process {})\<lparr>config := demo_service, zlog := l,
    mdata := d, httpd := h, scheduler := Some (sched_Start 2 1 sched_Init :: unit sched),
    watcher := Some (shelf_started [])\<rparr>, Runs)"
proof -
  let ?c1 = "(zero_process {} :: (_, _, _, _, _, _, _, _, _, _, unit) process)\<lparr>config := demo_service\<rparr>"
  obtain l where c2: "start_logger demo_machine ?c1 = (?c1\<lparr>zlog := l\<rparr>, Runs)" by (simp add: start_logger_def)
  let ?c2 = "?c1\<lparr>zlog := l\<rparr>"
  have "mdata ?c2 = zero_database {}" by (simp add: zero_process_def)
  then obtain d where c3: "start_database demo_machine ?c2 = (?c2\<lparr>mdata := d\<rparr>, Runs)"
    using demo_database [of ?c2] by auto
  let ?c3 = "?c2\<lparr>mdata := d\<rparr>"
  obtain h where c4: "start_server demo_machine ?c3 = (?c3\<lparr>httpd := h\<rparr>, Runs)" using demo_stages(1) [of ?c3] by auto
  have "components_Start demo_machine (zero_process {}) = (?c3\<lparr>httpd := h, scheduler := Some (sched_Start 2 1 sched_Init),
      watcher := Some (shelf_started [])\<rparr>, Runs)"
    by (simp add: components_Start_def demo_config demo_stages c2 c3 c4)
  then show ?thesis by (intro exI [of _ d] exI [of _ h] exI [of _ l]) simp
qed

lemma start_brings_up_witness:
  "\<exists>c :: (_, _, _, _, _, _, _, _, _, _, unit) process. components_Start demo_machine (zero_process {}) = (c, Runs) \<and>
    config c = demo_service \<and> parts_up demo_machine c"
proof -
  obtain d h l where run: "components_Start demo_machine (zero_process {}) = ((zero_process {})\<lparr>config := demo_service, zlog := l,
      mdata := d, httpd := h, scheduler := Some (sched_Start 2 1 sched_Init :: unit sched),
      watcher := Some (shelf_started [])\<rparr>, Runs)" using demo_start by blast
  have mongo: "mongo demo_machine = mem_lib" "mims demo_machine = mem_mim" by (simp_all add: demo_machine_def)
  have new: "connect mem_mim w s = Inr cl \<Longrightarrow> fresh_server mem_docs mem_docs mem_docs mem_docs cl" for w s cl
    by (auto simp: mem_mim_def fresh_server_def)
  from start_brings_up [where M = demo_machine, unfolded mongo, OF mem_lib_laws new run] run show ?thesis by fastforce
qed

section \<open>The server that was started\<close>

text \<open>
  The state of the server in the process, and what its handlers use: the stores and the settings that were loaded,
  Docker, the environment.  The proxies, the client of the brokers and their world, the scripts' HTTP and the disk come from outside.
\<close>

definition web_of :: "'w \<Rightarrow> fsys \<Rightarrow> ('m, 's, 'r, 'rh, 't, 'e, 'eh, 'p, 'ph, 'v, 'k) process
    \<Rightarrow> ('r, 'rh, 'v, 'w, 'p, 'ph, 'e, 'eh, 't) web" where
  "web_of b0 fs0 c = \<lparr>store = the (mroutes (storage (mdata c))), coders = the (watcher c),
     brk = \<lparr>breg = \<lparr>world = b0, settings = brokers_config.truncate (the (Brokers (config c))),
         pools = the (mpools (storage (mdata c)))\<rparr>,
       besb = the (mrecords (storage (mdata c))), bdisk = fs0, tlog = the (mtasks (storage (mdata c))), handed = []\<rparr>\<rparr>"

definition env_of :: "('m, 's, 'r, 'rh, 't, 'e, 'eh, 'p, 'ph, 'v) machine \<Rightarrow> proxy_lib \<Rightarrow> http \<Rightarrow> 'w broker_lib \<Rightarrow> os
    \<Rightarrow> ('m, 's, 'r, 'rh, 't, 'e, 'eh, 'p, 'ph, 'v, 'k) process \<Rightarrow> ('r, 'rh, 'v, 'w, 'p, 'ph, 'e, 'eh, 't) web_env" where
  "env_of M plib http lib sys c =
     (let cl = the (mclient (storage (mdata c))); cfg = Database (config c) in
      \<lparr>route_be = route_backend (mongo M) cl cfg, proxies = plib,
       dockers = docker_of M (config c) (Container (WorkerSection (the (Coderun (config c))))), web_http = http,
       bro = \<lparr>pool_be = pool_backend (mongo M) cl cfg, esb_be = record_backend (mongo M) cl cfg,
         task_db = task_coll (mongo M) (unique_on cl TASK_MESSAGES_COLLECTION), blib = lib, benv = lookup M, bsys = sys,
         bfs = root_fs (the (httpd c))\<rparr>\<rparr>)"

lemma up_web_ok:
  assumes "db_up (mongo M) (Database (config c)) rdocs rentry tdocs edocs eentry pdocs pentry (storage (mdata c))"
    and "watcher c = Some w" and "roomy w"
  shows "web_ok (env_of M plib http lib sys c) rdocs rentry
    \<lparr>pool_docs = pdocs, pool_entry = pentry, esb_docs = edocs, esb_entry = eentry\<rparr> (web_of b0 fs0 c)"
  using assms unfolding db_up_def
  by (auto simp: web_ok_def env_of_def web_of_def Let_def all_stored_def brokers_inv_def pools_inv_def)

lemma booted_web_ok:
  assumes "coll_law (route_coll (mongo M)) (route_cache (mongo M)) bson_Route rdocs rentry"
      "coll_law (record_coll (mongo M)) (record_cache (mongo M)) bson_ESBRecord edocs eentry"
      "coll_law (pool_coll (mongo M)) (pool_cache (mongo M)) bson_MessagePool pdocs pentry"
    and "\<And>w s cl. connect (mims M) w s = Inr cl \<Longrightarrow> fresh_server rdocs tdocs edocs pdocs cl"
    and run: "components_Start M (zero_process w) = (c, Runs)" and on: "UseCoderun (Components (config c))"
  shows "web_ok (env_of M plib http lib sys c) rdocs rentry
    \<lparr>pool_docs = pdocs, pool_entry = pentry, esb_docs = edocs, esb_entry = eentry\<rparr> (web_of b0 fs0 c)"
proof -
  have up: "parts_up M c" using start_up [OF run] by simp
  have db: "db_up (mongo M) (Database (config c)) rdocs rentry tdocs edocs eentry pdocs pentry (storage (mdata c))"
    by (rule InitDB_up [OF assms(1-4) conjunct1 [OF conjunct2 [OF start_up [OF run]]]])
  from up on obtain v n where "watcher c = Some v" "staffed n v" by (auto simp: parts_up_def)
  moreover from this have "roomy v" by (simp add: staffed_def roomy_def)
  ultimately show ?thesis by (intro up_web_ok [OF db])
qed

text \<open>C36: From the start of the program to any sequence of requests: when \<open>Start\<close> comes through with the server, the
  brokers and the worker pool switched on, the state of the server it leaves meets the invariant of the server, and every request
  that comes in gets a reply, without a panic that ends the process and without blocking.\<close>
theorem booted_server_serves:
  assumes "coll_law (route_coll (mongo M)) (route_cache (mongo M)) bson_Route rdocs rentry"
      "coll_law (record_coll (mongo M)) (record_cache (mongo M)) bson_ESBRecord edocs eentry"
      "coll_law (pool_coll (mongo M)) (pool_cache (mongo M)) bson_MessagePool pdocs pentry"
    and "\<And>w s cl. connect (mims M) w s = Inr cl \<Longrightarrow> fresh_server rdocs tdocs edocs pdocs cl"
    and run: "components_Start M (zero_process w) = (c, Runs)" 
    and on: "UseServer (Components (config c))" "UseBrokers (Components (config c))" "UseCoderun (Components (config c))"
    and "\<And>x. forward plib x \<noteq> []"
  shows "\<exists>t hs. serve_all (env_of M plib http lib sys c) (web_of b0 fs0 c) reqs = Some (t, hs) \<and>
    length hs = length reqs \<and> (\<forall>h \<in> set hs. \<exists>r rs. h = Replies (r # rs))"
proof -
  have "web_ok (env_of M plib http lib sys c) rdocs rentry
      \<lparr>pool_docs = pdocs, pool_entry = pentry, esb_docs = edocs, esb_entry = eentry\<rparr> (web_of b0 fs0 c)"
    by (rule booted_web_ok [OF assms(1-4) run on(3)])
  moreover have "forward (proxies (env_of M plib http lib sys c)) x \<noteq> []" for x using assms(9) by (simp add: env_of_def Let_def)
  ultimately show ?thesis using serve_all_ok [of _ rdocs rentry _ "web_of b0 fs0 c"] by blast
qed

lemma booted_server_serves_witness:
  "\<exists>c :: (_, _, _, _, _, _, _, _, _, _, unit) process. components_Start demo_machine (zero_process {}) = (c, Runs) \<and>
    (\<exists>t hs. serve_all (env_of demo_machine (proxies demo_web_env) no_http quiet_lib demo_sys c) (web_of () \<lparr>files = Map.empty\<rparr> c)
      [(''1'', demo_static_req), (''2'', demo_get ''/a'' '''')] = Some (t, hs) \<and> length hs = 2)"
proof -
  obtain c :: "(_, _, _, _, _, _, _, _, _, _, unit) process" where
    run: "components_Start demo_machine (zero_process {}) = (c, Runs)" and cfg: "config c = demo_service"
    using demo_start by fastforce
  have mongo: "mongo demo_machine = mem_lib" "mims demo_machine = mem_mim" by (simp_all add: demo_machine_def)
  have new: "connect mem_mim w s = Inr cl \<Longrightarrow> fresh_server mem_docs mem_docs mem_docs mem_docs cl" for w s cl
    by (auto simp: mem_mim_def fresh_server_def)
  have on: "UseServer (Components (config c))" "UseBrokers (Components (config c))" "UseCoderun (Components (config c))"
    by (simp_all add: cfg demo_service_def)
  have fwd: "forward (proxies demo_web_env) x \<noteq> []" for x by simp
  from booted_server_serves [where M = demo_machine, unfolded mongo, OF mem_lib_laws new run on fwd,
      where http = no_http and lib = quiet_lib and sys = demo_sys and ?b0.0 = "()" and ?fs0.0 = "\<lparr>files = Map.empty\<rparr>"
        and reqs = "[(''1'', demo_static_req), (''2'', demo_get ''/a'' '''')]"] run
  show ?thesis by (intro exI [of _ c]) fastforce
qed

section \<open>What is there before what\<close>

text \<open>The calls of the handlers into a scheduler and a pool that may not have been initialised: an assignment to a nil map,
  the lock of a queue without one, the configuration of a watcher without one.\<close>

definition call_submitReadTask :: "'k sched option \<Rightarrow> 'k task \<Rightarrow> 'k sched outcome" where
  "call_submitReadTask mps task = (case mps of
     None \<Rightarrow> Panic ''assignment to entry in nil map''
   | Some s \<Rightarrow> Return (submitReadTask s task))"

definition call_submitWriteTask :: "'k sched option \<Rightarrow> 'k task \<Rightarrow> 'k sched option outcome" where
  "call_submitWriteTask mps task = (case mps of
     None \<Rightarrow> Panic ''nil pointer dereference''
   | Some s \<Rightarrow> Return (map_option (\<lambda>(q, ok). s\<lparr>write_tasks := q\<rparr>) (qPut (write_tasks s) task)))"

definition call_BorrowWorker :: "'v docker \<Rightarrow> 'v watcher option \<Rightarrow> ('v watcher \<times> (go_error + worker)) option outcome" where
  "call_BorrowWorker lib w = (case w of
     None \<Rightarrow> Panic ''nil pointer dereference''
   | Some s \<Rightarrow> Return (BorrowWorker lib s))"

definition panics :: "'a outcome \<Rightarrow> bool" where
  "panics out \<longleftrightarrow> (\<exists>m. out = Panic m)"

text \<open>The server takes requests before the parts behind it are there: after the stage that starts it, it
  listens while the scheduler and the worker pool are still zero, so a request that schedules a task or runs a script panics.
  With a switch off it stays like that for good.\<close>
lemma server_before_its_parts:
  assumes "run_stages [start_config M, start_logger M, start_database M, start_server M] (zero_process w) = (c, Runs)"
    and "UseServer (Components (config c))"
  shows "(\<exists>s. httpd c = Some s \<and> listening s) \<and> panics (call_submitReadTask (scheduler c) task) \<and>
    panics (call_submitWriteTask (scheduler c) task) \<and> panics (call_BorrowWorker lib (watcher c)) \<and>
    (components_Start M (zero_process w) = (d, Runs) \<longrightarrow>
      panics (call_submitReadTask (scheduler d) task) = (\<not> UseBrokers (Components (config d))) \<and>
      panics (call_submitWriteTask (scheduler d) task) = (\<not> UseBrokers (Components (config d))) \<and>
      panics (call_BorrowWorker lib (watcher d)) = (\<not> UseCoderun (Components (config d))))"
proof -
  obtain c1 c3 where c1: "start_config M (zero_process w) = (c1, Runs)"
    and c3: "start_database M (c1\<lparr>zlog := Some (logger_Init (mkdir M) (GetLogConfig (config c1)))\<rparr>) = (c3, Runs)"
    and c: "start_server M c3 = (c, Runs)"
    using assms(1) by (auto simp: run_stages_Runs start_logger_def simp del: run_stages.simps)
  note k = start_config_keeps [OF c1] start_database_keeps(1) [OF c3] start_server_Runs(1) [OF c]
  have none: "scheduler c = None" "watcher c = None" "config c = config c3"
    using arg_cong [OF k(1), of scheduler] arg_cong [OF k(1), of watcher] arg_cong [OF k(2), of scheduler]
      arg_cong [OF k(2), of watcher] arg_cong [OF k(3), of scheduler] arg_cong [OF k(3), of watcher]
      arg_cong [OF k(3), of config] by (simp_all add: zero_process_def)
  have "\<exists>s. httpd c = Some s \<and> listening s" using start_server_Runs(2) [OF c] assms(2) none(3) by fastforce
  moreover have "panics (call_submitReadTask (scheduler d) task) = (\<not> UseBrokers (Components (config d))) \<and>
      panics (call_submitWriteTask (scheduler d) task) = (\<not> UseBrokers (Components (config d))) \<and>
      panics (call_BorrowWorker lib (watcher d)) = (\<not> UseCoderun (Components (config d)))"
    if "components_Start M (zero_process w) = (d, Runs)"
  proof -
    from start_up [OF that] show ?thesis
      by (auto simp: parts_up_def panics_def call_submitReadTask_def call_submitWriteTask_def call_BorrowWorker_def
          split: if_splits)
  qed
  ultimately show ?thesis using none(1,2)
    by (simp add: panics_def call_submitReadTask_def call_submitWriteTask_def call_BorrowWorker_def)
qed

lemma server_before_its_parts_witness:
  "\<exists>c :: (_, _, _, _, _, _, _, _, _, _, unit) process.
     run_stages [start_config demo_machine, start_logger demo_machine, start_database demo_machine, start_server demo_machine]
       (zero_process {}) = (c, Runs) \<and>
     (\<exists>s. httpd c = Some s \<and> listening s) \<and> panics (call_submitReadTask (scheduler c) (failing_task ''t'')) \<and>
     panics (call_BorrowWorker shelf_docker (watcher c))"
proof -
  obtain d h l where "components_Start demo_machine (zero_process {}) = ((zero_process {})\<lparr>config := demo_service, zlog := l,
      mdata := d, httpd := h, scheduler := Some (sched_Start 2 1 sched_Init :: unit sched),
      watcher := Some (shelf_started [])\<rparr>, Runs)" using demo_start by blast
  then obtain c :: "(_, _, _, _, _, _, _, _, _, _, unit) process" where run: "run_stages [start_config demo_machine,
      start_logger demo_machine, start_database demo_machine, start_server demo_machine] (zero_process {}) = (c, Runs)"
    by (auto simp: components_Start_def run_stages_Runs simp del: run_stages.simps)
  then obtain c3 where "start_server demo_machine c3 = (c, Runs)" "config c3 = demo_service"
    by (auto simp: run_stages_Runs demo_config start_logger_def dest!: start_database_keeps(1) dest: arg_cong [where f = config]
        simp del: run_stages.simps)
  then have "UseServer (Components (config c))"
    using start_server_Runs(1) [of demo_machine c3 c] arg_cong [of c _ config] by (metis ComponentsConfig.select_convs(3)
        ServiceConfig.select_convs(1) demo_service_def process.select_convs(1) process.surjective process.update_convs(4))
  from server_before_its_parts [OF run this] run show ?thesis by blast
qed

section \<open>The whole life of the program\<close>

text \<open>What happened to the parts between \<open>Start\<close> and the signal: the scheduler and the fleet of workers took steps, the stores
  changed; the configuration, the listener and the client of the database are the same.\<close>

definition worked :: "('m, 's, 'r, 'rh, 't, 'e, 'eh, 'p, 'ph, 'v) machine \<Rightarrow> ('m, 's, 'r, 'rh, 't, 'e, 'eh, 'p, 'ph, 'v, 'k) process
    \<Rightarrow> ('m, 's, 'r, 'rh, 't, 'e, 'eh, 'p, 'ph, 'v, 'k) process \<Rightarrow> bool" where
  "worked M c d \<longleftrightarrow> config d = config c \<and> httpd d = httpd c \<and>
     mclient (storage (mdata d)) = mclient (storage (mdata c)) \<and> mongods (mdata d) = mongods (mdata c) \<and>
     inMemoryServer (mdata d) = inMemoryServer (mdata c) \<and>
     rel_option sched_step\<^sup>*\<^sup>* (scheduler c) (scheduler d) \<and>
     (watcher c = None \<longrightarrow> watcher d = None) \<and>
     (\<forall>cfg v. Coderun (config c) = Some cfg \<and> watcher c = Some v \<longrightarrow> (\<exists>s. watcher d = Some (wt s) \<and>
        fleet_reach (docker_of M (config c) (Container (WorkerSection cfg))) (idle_fleet v) s))"

text \<open>\<open>main\<close> of \<open>cmd/server\<close>: \<open>Stop\<close> is deferred only once \<open>Start\<close> has come back, and \<open>Wait\<close> lets the parts work.\<close>

inductive server_main :: "('m, 's, 'r, 'rh, 't, 'e, 'eh, 'p, 'ph, 'v) machine
    \<Rightarrow> ('m, 's, 'r, 'rh, 't, 'e, 'eh, 'p, 'ph, 'v, 'k) process
    \<Rightarrow> ('m, 's, 'r, 'rh, 't, 'e, 'eh, 'p, 'ph, 'v, 'k) process \<times> fate \<Rightarrow> bool" for M where
  m_failed: "components_Start M c = (d, end) \<Longrightarrow> end \<noteq> Runs \<Longrightarrow> server_main M c (d, end)"
| m_served: "components_Start M c = (d, Runs) \<Longrightarrow> worked M d e \<Longrightarrow> components_Stop M e out \<Longrightarrow> server_main M c out"

inductive_cases stop_brokersE: "stop_brokers c (d, end)"

lemma stop_server_Runs:
  assumes "stop_server M c = (d, Runs)"
  shows "d = c\<lparr>httpd := httpd d\<rparr>" and "UseServer (Components (config c)) \<Longrightarrow> \<exists>s. httpd d = Some s \<and> \<not> listening s"
    and "\<not> UseServer (Components (config c)) \<Longrightarrow> httpd d = httpd c"
  using assms
  by (auto simp: stop_server_def server_Stop_def GetComponentsConfig_def split: if_splits option.splits prod.splits)

lemma stop_brokers_Runs:
  assumes "stop_brokers c (d, Runs)"
  shows "d = c\<lparr>scheduler := scheduler d\<rparr>" and "\<not> UseBrokers (Components (config c)) \<Longrightarrow> scheduler d = scheduler c"
    and "UseBrokers (Components (config c)) \<Longrightarrow>
      \<exists>s t. scheduler c = Some s \<and> scheduler d = Some t \<and> sched_step\<^sup>*\<^sup>* s t \<and> stopping t = 4"
  using assms by (auto simp: GetComponentsConfig_def elim!: stop_brokersE)

lemma stop_coderun_Runs:
  assumes "stop_coderun M c = (d, Runs)"
  shows "d = c\<lparr>watcher := watcher d\<rparr>" and "\<not> UseCoderun (Components (config c)) \<Longrightarrow> watcher d = watcher c"
    and "UseCoderun (Components (config c)) \<Longrightarrow> \<exists>w cfg. watcher c = Some w \<and> Coderun (config c) = Some cfg \<and>
      watcher d = Some (watcher_Stop (docker_of M (config c) (Container (WorkerSection cfg))) (port_order M) w)"
  using assms
  by (auto simp: stop_coderun_def GetComponentsConfig_def GetCoderunConfig_def split: if_splits option.splits)

lemma stop_database_Runs:
  assumes "stop_database M c = (d, Runs)"
  shows "d = c\<lparr>mdata := mdata d\<rparr>" and "Disconnect (mims M) (mdata c) = (mdata d, Return None)"
  using assms by (auto simp: stop_database_def split: prod.splits outcome.splits option.splits)

lemma sched_reach_steps: "sched_step\<^sup>*\<^sup>* s t \<Longrightarrow> sched_reach r w s \<Longrightarrow> sched_reach r w t"
  by (induction rule: rtranclp_induct) (auto intro: reach_step)

text \<open>What \<open>Stop\<close> takes down after \<open>Start\<close> and any work in between.\<close>

lemma started_takes_down:
  assumes docker: "\<And>cfg cc. container_law (docker_of M cfg cc) present used" "\<And>cfg cc. fresh_ports (docker_of M cfg cc) used"
      "\<And>cfg cc. starts (docker_of M cfg cc)" and "newClient M = Inr d0"
    and mim: "\<And>w s w'. stop (mims M) w s = Return w' \<Longrightarrow> running w' = running w - set_option s"
      "\<And>w w' s. start (mims M) w = (w', Inr s) \<Longrightarrow> running w' = insert s (running w)"
    and c: "components_Start M (zero_process w) = (c, Runs)" and e: "worked M c e" and s: "components_Stop M e (f, Runs)"
    and "\<And>v. watcher f = Some v \<Longrightarrow> dom (workerByPort v) \<subseteq> set (port_order M)"
  shows "(\<forall>s. httpd f = Some s \<longrightarrow> \<not> listening s) \<and>
    (\<forall>t. scheduler f = Some t \<longrightarrow> set (r_workers t) \<subseteq> {Gone} \<and> set (w_workers t) \<subseteq> {Gone}) \<and>
    (\<forall>v. watcher f = Some v \<longrightarrow> present (dp v) \<subseteq> present d0) \<and>
    (\<exists>s. running (mongods (mdata f)) = insert s (running w))"
proof -
  from s obtain e1 e2 e3 where e1: "stop_server M (e\<lparr>cancelled := True\<rparr>) = (e1, Runs)" and e2: "stop_brokers e1 (e2, Runs)"
    and e3: "stop_coderun M e2 = (e3, Runs)" and f: "stop_database M e3 = (f, Runs)"
    by (cases rule: components_Stop.cases)
      (auto simp: run_stages_Runs eq_commute [of "(f, Runs)"] simp del: run_stages.simps)
  note k = stop_server_Runs(1) [OF e1] stop_brokers_Runs(1) [OF e2] stop_coderun_Runs(1) [OF e3] stop_database_Runs(1) [OF f]
  have same: "config e1 = config c" "config e2 = config c" "config e3 = config c" "httpd f = httpd e1"
    "scheduler e1 = scheduler e" "scheduler f = scheduler e2" "watcher e2 = watcher e" "watcher f = watcher e3"
    "mdata e3 = mdata e"
    using e arg_cong [OF k(1), of config] arg_cong [OF k(1), of scheduler] arg_cong [OF k(1), of watcher] arg_cong [OF k(1), of mdata]
      arg_cong [OF k(2), of config] arg_cong [OF k(2), of httpd] arg_cong [OF k(2), of watcher] arg_cong [OF k(2), of mdata]
      arg_cong [OF k(3), of config] arg_cong [OF k(3), of httpd] arg_cong [OF k(3), of scheduler] arg_cong [OF k(3), of mdata]
      arg_cong [OF k(4), of httpd] arg_cong [OF k(4), of scheduler] arg_cong [OF k(4), of watcher]
    by (simp_all add: worked_def)
  note up = start_up [OF c]
  show ?thesis
  proof (intro conjI allI impI)
    fix h assume "httpd f = Some h"
    with same(4) have h: "httpd e1 = Some h" by simp
    show "\<not> listening h"
    proof (cases "UseServer (Components (config c))")
      case True
      with stop_server_Runs(2) [OF e1] e h show ?thesis by (auto simp: worked_def)
    next
      case False
      with stop_server_Runs(3) [OF e1] e h up show ?thesis by (auto simp: worked_def parts_up_def)
    qed
  next
    fix t assume "scheduler f = Some t"
    with same(6) have t: "scheduler e2 = Some t" by simp
    have "UseBrokers (Components (config c))"
      using stop_brokers_Runs(2) [OF e2] e t up same(1,5) by (auto simp: worked_def parts_up_def split: if_splits)
    moreover from this up obtain n m where s0: "scheduler c = Some (sched_Start n m sched_Init)" by (auto simp: parts_up_def)
    with e obtain s where "scheduler e = Some s" "sched_step\<^sup>*\<^sup>* (sched_Start n m sched_Init) s"
      by (auto simp: worked_def option_rel_Some1)
    ultimately have "sched_step\<^sup>*\<^sup>* (sched_Start n m sched_Init) t" "stopping t = 4"
      using stop_brokers_Runs(3) [OF e2] t same(1,5) by auto
    with sched_inv_reach [OF sched_reach_steps [OF _ reach_init]] have "phases t" by blast
    with \<open>stopping t = 4\<close> show "set (r_workers t) \<subseteq> {Gone}" "set (w_workers t) \<subseteq> {Gone}" by (simp_all add: phases_def)
  next
    fix v assume v: "watcher f = Some v"
    show "present (dp v) \<subseteq> present d0"
    proof (cases "UseCoderun (Components (config c))")
      case True
      with up obtain v0 cfg where i: "watcher c = Some v0" "Coderun (config c) = Some cfg"
        "watcher_Init (docker_of M (config c) (Container (WorkerSection cfg))) (port_order M) (nat (Worker_cnt cfg))
          (Inr d0) (rest M) = Some (v0, None)" using assms(4) by (auto simp: NewDockerProvider_def)
      let ?lib = "docker_of M (config c) (Container (WorkerSection cfg))"
      from e i(1,2) obtain r where r: "watcher e = Some (wt r)" "fleet_reach ?lib (idle_fleet v0) r" by (auto simp: worked_def)
      with stop_coderun_Runs(3) [OF e3] True i(2) same v have stop: "v = watcher_Stop ?lib (port_order M) (wt r)" by auto
      have "dom (workerByPort (wt r)) \<subseteq> set (port_order M)" using assms(10) [OF v] by (simp add: stop watcher_Stop_def)
      with Stop_clean [OF docker i(3) r(2)] show ?thesis by (simp add: stop)
    next
      case False
      with stop_coderun_Runs(2) [OF e3] same v e up show ?thesis by (auto simp: worked_def parts_up_def)
    qed
  next
    show "\<exists>s. running (mongods (mdata f)) = insert s (running w)"
      by (rule memory_server_not_stopped [OF mim conjunct1 [OF conjunct2 [OF up]] _ _ stop_database_Runs(2) [OF f]])
      (use e same in \<open>simp_all add: worked_def\<close>)
  qed
qed


lemma demo_sched_stops: "\<exists>t :: unit sched. sched_step\<^sup>*\<^sup>* (sched_Start 2 1 sched_Init) t \<and> stopping t = 4"
proof -
  let ?q = "qClose NewUnboundedBlockingQueue True :: unit task bqueue"
  let ?s = "\<lambda>n r w. \<lparr>read_tasks = if 1 \<le> n then ?q else NewUnboundedBlockingQueue,
     write_tasks = if 2 \<le> n then ?q else NewUnboundedBlockingQueue, running_read_tasks = NewSyncSet, errors = [],
     errors_closed = 3 \<le> n, pending = [], r_workers = r, w_workers = w, stopping = n, crashed = False\<rparr>"
  have g: "qGet ?q = Some (?q, None)" by (simp add: qGet_def qClose_def NewUnboundedBlockingQueue_def NewBoundedBlockingQueue_def)
  have a1: "sched_step (?s 0 [AtGet, AtGet] [AtGet]) (?s 1 [AtGet, AtGet] [AtGet])"
    using stop_read [of "?s 0 [AtGet, AtGet] [AtGet]"] by simp
  have a2: "sched_step (?s 1 [AtGet, AtGet] [AtGet]) (?s 2 [AtGet, AtGet] [AtGet])"
    using stop_write [of "?s 1 [AtGet, AtGet] [AtGet]"] by (simp add: numeral_2_eq_2)
  have a3: "sched_step (?s 2 [AtGet, AtGet] [AtGet]) (?s 3 [AtGet, AtGet] [AtGet])"
    using stop_errors [of "?s 2 [AtGet, AtGet] [AtGet]"] by simp
  have a4: "sched_step (?s 3 [AtGet, AtGet] [AtGet]) (?s 3 [Gone, AtGet] [AtGet])"
    using r_exit [of "?s 3 [AtGet, AtGet] [AtGet]" 0 ?q] g by simp
  have a5: "sched_step (?s 3 [Gone, AtGet] [AtGet]) (?s 3 [Gone, Gone] [AtGet])"
    using r_exit [of "?s 3 [Gone, AtGet] [AtGet]" 1 ?q] g by simp
  have a6: "sched_step (?s 3 [Gone, Gone] [AtGet]) (?s 3 [Gone, Gone] [Gone])"
    using w_exit [of "?s 3 [Gone, Gone] [AtGet]" 0 ?q] g by simp
  have a7: "sched_step (?s 3 [Gone, Gone] [Gone]) (?s 4 [Gone, Gone] [Gone])"
    using stop_joined [of "?s 3 [Gone, Gone] [Gone]"] by simp
  note step = converse_rtranclp_into_rtranclp [of sched_step]
  have "sched_step\<^sup>*\<^sup>* (?s 0 [AtGet, AtGet] [AtGet]) (?s 4 [Gone, Gone] [Gone])"
    by (rule step [OF a1 step [OF a2 step [OF a3 step [OF a4 step [OF a5 step [OF a6 r_into_rtranclp [of sched_step, OF a7]]]]]]])
  moreover have "sched_Start 2 1 sched_Init = ?s 0 [AtGet, AtGet] [AtGet]"
    by (simp add: sched_Start_def sched_Init_def numeral_2_eq_2)
  ultimately have "sched_step\<^sup>*\<^sup>* (sched_Start 2 1 sched_Init) (?s 4 [Gone, Gone] [Gone])" by simp
  then show ?thesis by (intro exI [of _ "?s 4 [Gone, Gone] [Gone]"]) simp
qed

text \<open>A life of the machine of the witnesses, to its end.\<close>

lemma demo_life:
  obtains c f :: "(_, _, _, _, _, _, _, _, _, _, unit) process" and t v where
    "components_Start demo_machine (zero_process {}) = (c, Runs)" and "worked demo_machine c c"
    and "components_Stop demo_machine c (f, Runs)" and "config c = demo_service" and "scheduler f = Some t"
    and "watcher f = Some v" and "dom (workerByPort v) \<subseteq> set (port_order demo_machine)"
proof -
  obtain d h l where start: "components_Start demo_machine (zero_process {}) = ((zero_process {})\<lparr>config := demo_service, zlog := l,
      mdata := d, httpd := h, scheduler := Some (sched_Start 2 1 sched_Init :: unit sched),
      watcher := Some (shelf_started [])\<rparr>, Runs)" using demo_start by blast
  let ?c = "(zero_process {})\<lparr>config := demo_service, zlog := l, mdata := d, httpd := h,
      scheduler := Some (sched_Start 2 1 sched_Init :: unit sched), watcher := Some (shelf_started [])\<rparr>"
  from start_up [OF start] have up: "parts_up demo_machine ?c"
    and db: "InitDB mem_mim mem_lib \<lparr>InMemory = True, CacheSize = 100\<rparr> (zero_database {}) = (d, Return None)"
    by (simp_all add: demo_machine_def demo_service_def)
  have "worked demo_machine ?c ?c"
    by (auto simp: worked_def demo_docker option.rel_refl intro!: exI [of _ "idle_fleet (shelf_started [])"] fleet_start)
      (simp add: idle_fleet_def)
  obtain sec cnt where at: "newClient demo_machine = Inr ([], [])" "mims demo_machine = mem_mim"
    "port_order demo_machine = [''1'', ''11'']" "UseCoderun (Components demo_service)"
    "Coderun demo_service = Some \<lparr>WorkerSection = sec, Worker_cnt = cnt\<rparr>"
    by (simp add: demo_machine_def demo_service_def)
  obtain s where h: "h = Some s" using up by (auto simp: parts_up_def demo_service_def)
  obtain t :: "unit sched" where t: "sched_step\<^sup>*\<^sup>* (sched_Start 2 1 sched_Init) t" "stopping t = 4"
    using demo_sched_stops by blast
  let ?e1 = "?c\<lparr>cancelled := True, httpd := Some (s\<lparr>listening := False\<rparr>)\<rparr>"
  let ?e2 = "?e1\<lparr>scheduler := Some t\<rparr>"
  let ?v = "watcher_Stop shelf_docker [''1'', ''11''] (shelf_started [])"
  have "stop_server demo_machine (?c\<lparr>cancelled := True\<rparr>) = (?e1, Runs)"
    by (simp add: stop_server_def server_Stop_def demo_machine_def demo_service_def GetComponentsConfig_def h)
  moreover have "stop_brokers ?e1 (?e2, Runs)"
    using b_joined [of ?e1 "sched_Start 2 1 sched_Init" t] t by (simp add: demo_service_def GetComponentsConfig_def)
  moreover have "stop_coderun demo_machine ?e2 = (?e2\<lparr>watcher := Some ?v\<rparr>, Runs)"
    using at by (simp add: stop_coderun_def GetComponentsConfig_def GetCoderunConfig_def demo_docker)
  moreover obtain d' where "Disconnect mem_mim d = (d', Return None)"
    using db by (auto simp: InitDB_def initInMemoryDB_def mem_mim_def db_init_def createRoutes_def createTaskMessages_def
        createESBRecords_def createMessagePools_def create_index_def mem_lib_def zero_database_def Disconnect_def Let_def)
  then have "stop_database demo_machine (?e2\<lparr>watcher := Some ?v\<rparr>) = (?e2\<lparr>watcher := Some ?v, mdata := d'\<rparr>, Runs)"
    by (simp add: stop_database_def demo_machine_def zero_process_def)
  ultimately have "components_Stop demo_machine ?c (?e2\<lparr>watcher := Some ?v, mdata := d'\<rparr>, Runs)"
    using c_stopped [of demo_machine ?c ?e1 ?e2] by simp
  moreover have "dom (workerByPort (shelf_started [])) = {''1'', ''11''}" by (auto simp: shelf_started_def dom_def)
  then have "dom (workerByPort ?v) \<subseteq> set (port_order demo_machine)" by (simp add: watcher_Stop_def at)
  ultimately show thesis using start \<open>worked demo_machine ?c ?c\<close> that [of ?c "?e2\<lparr>watcher := Some ?v, mdata := d'\<rparr>" t ?v] by simp
qed

lemma demo_machine_facts: "newClient demo_machine = Inr ([], [])" "mims demo_machine = mem_mim"
  "port_order demo_machine = [''1'', ''11'']"
  by (simp_all add: demo_machine_def)


end
