(* ===== verification/Programs.thy ===== *)
theory Programs
  imports Control
begin

text \<open>
  The other two programs of the repository: the worker that runs in a container
  (\<open>main\<close> of \<open>internal/coderun/worker/main.go\<close>) and the tool that builds its image
  (\<open>cmd/tools/build_worker_image.go\<close>).  What the worker finds in its environment is what the
  Docker adapter put there.
\<close>

section \<open>The worker\<close>

text \<open>The default mux of \<open>net/http\<close> with the one handler that is registered.\<close>

definition mux :: "'w container \<Rightarrow> string \<Rightarrow> (string \<times> string list) list \<Rightarrow> go_error + string \<Rightarrow> nat \<times> string" where
  "mux c path headers body =
     (if path = ''/run'' then runHandle c headers body else (404, ''404 page not found'' @ [newline]))"

text \<open>\<open>log_port\<close> is the field every later entry of the log has; \<open>answering\<close> the address that is listened on, with
  the handler.\<close>

record worker_process =
  wcfg :: ServiceConfig
  wlog :: "zlogger option"
  log_port :: "string option"
  answering :: "(string \<times> (string \<Rightarrow> (string \<times> string list) list \<Rightarrow> go_error + string \<Rightarrow> nat \<times> string)) option"

text \<open>
  \<open>listenAt\<close> is the error \<open>ListenAndServe\<close> comes back with at once; without one it serves, and does not come back
  (\<open>Runs\<close>).  \<open>os.Exit\<close> is \<open>Exited\<close>.
\<close>

definition worker_main :: "env \<Rightarrow> go_error + string \<Rightarrow> (string \<Rightarrow> go_error + string)
    \<Rightarrow> (string \<Rightarrow> ServiceConfig \<Rightarrow> ServiceConfig \<times> go_error option) \<Rightarrow> (ServiceConfig \<Rightarrow> ServiceConfig) option
    \<Rightarrow> (string \<Rightarrow> go_error option) \<Rightarrow> (string \<Rightarrow> go_error option) \<Rightarrow> 'w container \<Rightarrow> worker_process
    \<Rightarrow> worker_process \<times> fate" where
  "worker_main LookupEnv root readFile decodeYaml forTests mkdirAll listenAt c p =
     (case LoadConfig LookupEnv root readFile decodeYaml forTests (wcfg p) of
        (cfg, Panic m) \<Rightarrow> (p\<lparr>wcfg := cfg\<rparr>, Panicked m)
      | (cfg, Return _) \<Rightarrow>
          let p = p\<lparr>wcfg := cfg, wlog := Some (logger_Init mkdirAll (GetLogConfig cfg))\<rparr> in
          (case LookupEnv ''PORT'' of
             None \<Rightarrow> (p, Exited)
           | Some own_port \<Rightarrow>
               let p = p\<lparr>log_port := Some own_port\<rparr> in
               (case listenAt ('':'' @ own_port) of
                  Some err \<Rightarrow>
                    if err = GoError ''http: Server closed'' then (p, Runs) else (p, Panicked (Error err))
                | None \<Rightarrow> (p\<lparr>answering := Some ('':'' @ own_port, mux c)\<rparr>, Runs))))"

definition zero_worker :: worker_process where
  "zero_worker = \<lparr>wcfg = zero_config, wlog = None, log_port = None, answering = None\<rparr>"

text \<open>The environment Docker makes of the entries \<open>NAME=value\<close> of a container.\<close>

definition container_env :: "string list \<Rightarrow> env" where
  "container_env es = map_of (map (\<lambda>e. (takeWhile (\<lambda>c. c \<noteq> CHR ''='') e, drop 1 (dropWhile (\<lambda>c. c \<noteq> CHR ''='') e))) es)"

lemma container_env_getEnvList:
  "container_env (getEnvList st p) ''PORT'' = Some p"
  "container_env (getEnvList st p) ''CONFIG_PATH''
    = Some (case getenv st ''CONFIG_PATH'' of None \<Rightarrow> '''' | Some c \<Rightarrow> c)"
  by (simp_all add: container_env_def getEnvList_def)

text \<open>A variable that is not set reaches the worker as an empty one, which \<open>LoadConfig\<close> takes for unset.\<close>

lemma LoadConfig_in_container:
  "LoadConfig (container_env (getEnvList st p)) root readFile decodeYaml forTests cfg
    = LoadConfig (getenv st) root readFile decodeYaml forTests cfg"
  by (simp add: LoadConfig_def container_env_getEnvList Let_def split: option.split)

section \<open>The tool\<close>

text \<open>\<open>Init\<close> with no workers; its error is the panic itself here.\<close>

definition tool_log :: LogConfig where
  "tool_log = \<lparr>Level = 0, ConsoleLoggingEnabled = True, FileLoggingEnabled = False, Directory = '''', Filename = '''',
     MaxSize = 0, MaxBackups = 0, MaxAge = 0\<rparr>"

definition tool_main :: "(string \<Rightarrow> go_error option) \<Rightarrow> env \<Rightarrow> 'v docker \<Rightarrow> string list \<Rightarrow> go_error + 'v \<Rightarrow> 'v watcher
    \<Rightarrow> zlogger \<times> 'v watcher \<times> fate" where
  "tool_main mkdirAll LookupEnv lib ps provider s =
     (let l = logger_Init mkdirAll tool_log in
      case LookupEnv ''SKIP_REBUILD_CONTAINER'' of
        Some _ \<Rightarrow> (l, s, Runs)
      | None \<Rightarrow> (case watcher_Init lib ps 0 provider s of
          None \<Rightarrow> (l, s, Hangs)
        | Some (s, Some err) \<Rightarrow> (l, s, Panicked (Error err))
        | Some (s, None) \<Rightarrow> (l, s, Runs)))"

section \<open>Properties\<close>

text \<open>The worker of a container is where the server looks for it: in the environment that the adapter gives a
  container, the program of the worker loads the configuration the server would load, listens on the port the container
  was created for, and what it answers at \<open>/run\<close> there is what \<open>RunScript\<close> of the server gets from that port.
  Without a port it exits.\<close>
lemma worker_where_expected:
  assumes "LoadConfig (getenv st) root readFile decodeYaml forTests zero_config = (cfg, Return ())"
    and "listenAt ('':'' @ p) = None"
  shows "worker_main (container_env (getEnvList st p)) root readFile decodeYaml forTests mkdirAll listenAt c zero_worker
      = (\<lparr>wcfg = cfg, wlog = Some (logger_Init mkdirAll (Logs cfg)), log_port = Some p, answering = Some ('':'' @ p, mux c)\<rparr>, Runs) \<and>
    (\<forall>at hs body. at p = c \<longrightarrow> container_http at p hs body = (case mux c ''/run''
        (map (\<lambda>(n, v). (if n = ''RunType'' then ''Runtype'' else n, [v])) hs) (Inr body) of (code, out) \<Rightarrow> Inr (code, Inr out))) \<and>
    (snd (LoadConfig env0 root readFile decodeYaml forTests zero_config) = Return () \<and> env0 ''PORT'' = None \<longrightarrow>
      snd (worker_main env0 root readFile decodeYaml forTests mkdirAll listenAt c zero_worker) = Exited)"
  using assms
  by (auto simp: worker_main_def LoadConfig_in_container container_env_getEnvList zero_worker_def GetLogConfig_def
      container_http_def mux_def Let_def split: prod.splits outcome.splits)

lemma worker_where_expected_witness:
  "\<exists>w. worker_main (container_env (getEnvList \<lparr>getenv = Map.empty, project_root = Inr ''/srv'', storage_root = Inr ''/srv/.storage'',
        limits = \<lparr>CPULimit = 0, MemoryLimitMB = 0\<rparr>, log_to_file = False, log_dir = ''''\<rparr> ''8000''))
      (Inr ''/worker_dir'') (\<lambda>f. if f = ''/worker_dir/configs/config.yaml'' then Inr ''cfg'' else Inl (GoError ''no such file''))
      (\<lambda>_ _. (demo_service, None)) None (\<lambda>_. None) (\<lambda>_. None)
      (\<lparr>coderun_root = Inr ''/worker_dir'', exists_file = (\<lambda>_. True), dump = (\<lambda>_. None), python = (\<lambda>_ _. (''1'', '''', None))\<rparr> :: unit container)
      zero_worker = (w, Runs) \<and> map_option fst (answering w) = Some '':8000''"
proof -
  let ?st = "\<lparr>getenv = Map.empty, project_root = Inr ''/srv'', storage_root = Inr ''/srv/.storage'',
        limits = \<lparr>CPULimit = 0, MemoryLimitMB = 0\<rparr>, log_to_file = False, log_dir = ''''\<rparr>"
  let ?read = "\<lambda>f. if f = ''/worker_dir/configs/config.yaml'' then Inr ''cfg'' else Inl (GoError ''no such file'')"
  have "filepath_Join [''/worker_dir'', ''/configs/config.yaml''] = ''/worker_dir/configs/config.yaml''" by code_simp
  then have load: "LoadConfig (getenv ?st) (Inr ''/worker_dir'') ?read (\<lambda>_ _. (demo_service, None)) None zero_config
      = (demo_service, Return ())"
    by (simp add: LoadConfig_def DefaultConfigPath_def)
  show ?thesis
    using worker_where_expected [OF load, where listenAt = "\<lambda>_. None" and p = "''8000''" and mkdirAll = "\<lambda>_. None"] by simp
qed

text \<open>The tool builds the image and does nothing else: it comes through exactly when the variable that skips it is
  set, and then Docker is not touched at all, or when the client can be made and the image is built; no container is created,
  started or removed in any case, it never blocks, and an error is the text it panics with.\<close>
lemma tool_only_builds:
  shows "case tool_main mkdirAll LookupEnv lib ps provider s of (l, t, end) \<Rightarrow> threshold l = 0 \<and> writers l = [Console] \<and>
    (if LookupEnv ''SKIP_REBUILD_CONTAINER'' \<noteq> None then t = s \<and> end = Runs
     else case provider of
        Inl err \<Rightarrow> t = s \<and> end = Panicked (Error err)
      | Inr d \<Rightarrow> dp t = fst (BuildWorkerImage lib d) \<and>
          end = (case snd (BuildWorkerImage lib d) of None \<Rightarrow> Runs | Some err \<Rightarrow> Panicked (Error err)) \<and>
          (end = Runs \<longrightarrow> workers t = [] \<and> repair t = [] \<and> workerByPort t = Map.empty))"
  by (auto simp: tool_main_def watcher_Init_def tool_log_def logger_Init_def Let_def split: sum.splits prod.splits option.splits)

end
