(* ===== verification/Playground.thy ===== *)
theory Playground
  imports Programs
begin

text \<open>
  \<open>cmd/playground/main.go\<close>: a client inside the process of the server.  It uses the packages of the brokers, of the
  scripts and of the files directly, and the API over HTTP at the address the server listens on; so its state is the
  state of the server, with the log it writes.  \<open>time.Sleep\<close> is where the workers of the scheduler come to work:
  \<open>meanwhile\<close> is what they do to the brokers' part of the state.  The goroutines that print the errors of the scheduler
  only read.
\<close>

section \<open>The client of HTTP\<close>

text \<open>An entry of the log: its fields and its message, and whether it is an error.\<close>

datatype field_val = Num nat | Text string

datatype entry_note = Info "(string \<times> field_val) list" string | Error_note "(string \<times> field_val) list" string

text \<open>What happens to a request on its way: it is never sent, it arrives and the answer is lost, or all is well.\<close>

datatype trip = Well | Unsent go_error | Lost go_error

record ('c, 'h, 'v, 'w, 'p, 'q, 'e, 'g, 'm) lab =
  site :: "('c, 'h, 'v, 'w, 'p, 'q, 'e, 'g, 'm) web"
  written :: "entry_note list"

text \<open>
  \<open>own_headers\<close> are those \<open>net/http\<close> adds for a method and a body, \<open>trip_of\<close> and \<open>cut_off\<close> what the network does to a
  request and to the body of its answer, by method and URL; \<open>refusal\<close> and \<open>undecodable\<close> are the texts of the decoders for
  what they refuse.
\<close>

record ('c, 'h, 'v, 'w, 'p, 'q, 'e, 'g, 'm) lab_env =
  web_E :: "('c, 'h, 'v, 'w, 'p, 'q, 'e, 'g, 'm) web_env"
  server_cfg :: "ServerConfig option"
  at_time :: string
  fs_mkdir :: "string \<Rightarrow> go_error option"
  fs_root :: "go_error + string"
  own_headers :: "string \<Rightarrow> string \<Rightarrow> (string \<times> string list) list"
  trip_of :: "string \<Rightarrow> string \<Rightarrow> trip"
  cut_off :: "string \<Rightarrow> string \<Rightarrow> go_error option"
  refusal :: "string \<Rightarrow> string"
  undecodable :: "string \<Rightarrow> go_error"
  meanwhile :: "('w, 'p, 'q, 'e, 'g, 'm) brokers_srv \<Rightarrow> ('w, 'p, 'q, 'e, 'g, 'm) brokers_srv"

type_synonym ('c, 'h, 'v, 'w, 'p, 'q, 'e, 'g, 'm) play =
  "('c, 'h, 'v, 'w, 'p, 'q, 'e, 'g, 'm) lab_env \<Rightarrow> ('c, 'h, 'v, 'w, 'p, 'q, 'e, 'g, 'm) lab
    \<Rightarrow> ('c, 'h, 'v, 'w, 'p, 'q, 'e, 'g, 'm) lab \<times> fate"

definition noted :: "entry_note \<Rightarrow> ('c, 'h, 'v, 'w, 'p, 'q, 'e, 'g, 'm) lab \<Rightarrow> ('c, 'h, 'v, 'w, 'p, 'q, 'e, 'g, 'm) lab" where
  "noted n l = l\<lparr>written := written l @ [n]\<rparr>"

text \<open>The parts of a URL \<open>http://host/path?query\<close>; nothing in the URLs of the playground is escaped.\<close>

definition target_of :: "string \<Rightarrow> string" where
  "target_of url = dropWhile (\<lambda>c. c \<noteq> CHR ''/'') (drop 7 url)"

definition query_of :: "string \<Rightarrow> string" where
  "query_of target = drop 1 (dropWhile (\<lambda>c. c \<noteq> CHR ''?'') target)"

definition query_value :: "string \<Rightarrow> string \<Rightarrow> string" where
  "query_value raw k = (case find (\<lambda>p. takeWhile (\<lambda>c. c \<noteq> CHR ''='') p = k) (Split CHR ''&'' raw) of
     None \<Rightarrow> ''''
   | Some p \<Rightarrow> drop 1 (dropWhile (\<lambda>c. c \<noteq> CHR ''='') p))"

definition request_for :: "('c, 'h, 'v, 'w, 'p, 'q, 'e, 'g, 'm) lab_env \<Rightarrow> string \<Rightarrow> string \<Rightarrow> string \<Rightarrow> request" where
  "request_for L m url body =
     (let target = target_of url in
      \<lparr>meth = m, uri = target, url_path = takeWhile (\<lambda>c. c \<noteq> CHR ''?'') target, raw_query = query_of target,
       req_headers = own_headers L m body, query = query_value (query_of target),
       req_body = Inr body, bind_err = refusal L body\<rparr>)"

text \<open>What goes over the wire: the first status, and all the bodies, unless that status has none.\<close>

fun reply_text :: "reply \<Rightarrow> string" where
  "reply_text (JSON code j) = json_print j"
| "reply_text (Abort code) = ''''"

definition bodiless :: "nat \<Rightarrow> bool" where
  "bodiless code \<longleftrightarrow> code < 200 \<or> code = 204 \<or> code = 304"

definition wire :: "reply list \<Rightarrow> nat \<times> string" where
  "wire rs = (case rs of
     [] \<Rightarrow> (200, '''')
   | r # _ \<Rightarrow> (status r, if bodiless (status r) then '''' else concat (map reply_text rs)))"

text \<open>One exchange.  The server is this process: when a handler ends it, nothing comes after; when a handler is blocked,
  so is the client, which has no deadline.  No path here ends in a slash, so no reply is a redirect.\<close>

datatype answer = NoAnswer go_error | Answer nat string | Ends fate

definition exchange :: "('c, 'h, 'v, 'w, 'p, 'q, 'e, 'g, 'm) lab_env \<Rightarrow> string \<Rightarrow> string \<Rightarrow> string
    \<Rightarrow> ('c, 'h, 'v, 'w, 'p, 'q, 'e, 'g, 'm) lab \<Rightarrow> ('c, 'h, 'v, 'w, 'p, 'q, 'e, 'g, 'm) lab \<times> answer" where
  "exchange L m url body l = (case trip_of L m url of
     Unsent err \<Rightarrow> (l, NoAnswer err)
   | trip \<Rightarrow> (case serve (web_E L) (at_time L) (site l) (request_for L m url body) of
       None \<Rightarrow> (l, Ends Hangs)
     | Some (s, h) \<Rightarrow> (l\<lparr>site := s\<rparr>, case h of
         Panics msg \<Rightarrow> Ends (Panicked msg)
       | Exits \<Rightarrow> Ends Exited
       | Replies rs \<Rightarrow> (case trip of Lost err \<Rightarrow> NoAnswer err | _ \<Rightarrow> case_prod Answer (wire rs)))))"

definition err_field :: "go_error \<Rightarrow> string \<times> field_val" where
  "err_field err = (''error'', Text (Error err))"

definition do_get :: "string \<Rightarrow> ('c, 'h, 'v, 'w, 'p, 'q, 'e, 'g, 'm) play" where
  "do_get url L l = (case exchange L ''GET'' url '''' l of
     (l, Ends f) \<Rightarrow> (l, f)
   | (l, NoAnswer err) \<Rightarrow> (noted (Error_note [err_field err, (''url'', Text url)] ''GET failed'') l, Runs)
   | (l, Answer code body) \<Rightarrow> (case cut_off L ''GET'' url of
       Some err \<Rightarrow> (noted (Error_note [err_field err] ''failed to read body'') l, Runs)
     | None \<Rightarrow> (noted (Info [(''status'', Num code), (''body'', Text body)] ''GET success'') l, Runs)))"

text \<open>The decoder reads one JSON value into a string; \<open>cut_off\<close> is then a body that breaks off within it.\<close>

definition decode_string :: "string \<Rightarrow> string option" where
  "decode_string b = Option.bind (parse_val (2 * length b) b) (\<lambda>(j, rest). dec_string '''' j)"

definition do_post :: "string \<Rightarrow> string \<Rightarrow> ('c, 'h, 'v, 'w, 'p, 'q, 'e, 'g, 'm) play" where
  "do_post url content L l = (case exchange L ''POST'' url content l of
     (l, Ends f) \<Rightarrow> (l, f)
   | (l, NoAnswer err) \<Rightarrow> (noted (Error_note [err_field err, (''url'', Text url), (''body'', Text content)] ''POST failed'') l, Runs)
   | (l, Answer code body) \<Rightarrow>
       (case (case cut_off L ''POST'' url of Some err \<Rightarrow> Inl err
              | None \<Rightarrow> (case decode_string body of None \<Rightarrow> Inl (undecodable L body) | Some x \<Rightarrow> Inr x)) of
          Inl err \<Rightarrow> (noted (Error_note [err_field err] ''decode failed'') l, Runs)
        | Inr x \<Rightarrow> (noted (Info [(''status'', Num code), (''body'', Text x)] ''POST successfully'') l, Runs)))"

definition do_delete :: "string \<Rightarrow> ('c, 'h, 'v, 'w, 'p, 'q, 'e, 'g, 'm) play" where
  "do_delete url L l = (case exchange L ''DELETE'' url '''' l of
     (l, Ends f) \<Rightarrow> (l, f)
   | (l, NoAnswer err) \<Rightarrow> (noted (Error_note [err_field err, (''url'', Text url)] ''DELETE failed'') l, Runs)
   | (l, Answer code body) \<Rightarrow> (case cut_off L ''DELETE'' url of
       Some err \<Rightarrow> (noted (Error_note [err_field err] ''Failed to read body'') l, Runs)
     | None \<Rightarrow> (noted (Info [(''status'', Num code), (''body'', Text body)] ''DELETE success'') l, Runs)))"

section \<open>The API of the routes\<close>

text \<open>The body as it stands in the source, with its tabs.\<close>

definition test_body :: string where
  "test_body = ''{'' @ newline # replicate 3 (CHR 0x09) @ quote # ''path'' @ quote # '': '' @ quote # ''/test_url'' @ quote # '','' @
     newline # replicate 3 (CHR 0x09) @ quote # ''expected_response'' @ quote # '': '' @ quote # ''hello'' @ quote #
     newline # replicate 2 (CHR 0x09) @ ''}''"

definition play_server_api :: "('c, 'h, 'v, 'w, 'p, 'q, 'e, 'g, 'm) play" where
  "play_server_api L l = (case server_cfg L of
     None \<Rightarrow> (l, Panicked ''nil pointer dereference'')
   | Some cfg \<Rightarrow>
       let endpoint = ''http://'' @ SAddr cfg;
           staticApiEndpoint = endpoint @ ''/api/routes/static'';
           testUrl = endpoint @ ''/test_url'' in
       run_stages [
         do_get (endpoint @ ''/api/ping'') L,
         do_get testUrl L, do_get staticApiEndpoint L,
         do_post staticApiEndpoint test_body L,
         do_get testUrl L, do_get staticApiEndpoint L,
         do_delete (staticApiEndpoint @ ''?path=/test_url'') L,
         do_get testUrl L, do_get staticApiEndpoint L] l)"

section \<open>What the scenario of the API sees\<close>

lemma test_body_value: "parse_val (2 * length test_body) test_body
    = Some (JObj [(''path'', JStr ''/test_url''), (''expected_response'', JStr ''hello'')], '''')"
  by code_simp

lemma bind_test_body:
  assumes "req_body req = Inr test_body"
  shows "BindStatic req = Inr \<lparr>se_path = ''/test_url'', se_response = ''hello''\<rparr>"
  using assms test_body_value
  by (simp add: BindStatic_def Bind_def static_fields_def field_named_def static_valid_def tags_ok_def rune_count_def HasPrefix_def)

text \<open>The four kinds of requests, over a store that answers and holds \<open>f\<close>.\<close>

definition holds :: "('c, 'h, 'v, 'w, 'p, 'q, 'e, 'g, 'm) web_env \<Rightarrow> ('c \<Rightarrow> Route list) \<Rightarrow> ('h \<Rightarrow> string \<Rightarrow> Route option)
    \<Rightarrow> ('c, 'h, 'v, 'w, 'p, 'q, 'e, 'g, 'm) web \<Rightarrow> (string \<Rightarrow> endpoint option) \<Rightarrow> bool" where
  "holds E docs entry s f \<longleftrightarrow> endpoints_live (route_be E) docs entry (store s) \<and> endpoints docs (store s) = f"

definition static_paths :: "(string \<Rightarrow> endpoint option) \<Rightarrow> string list \<Rightarrow> bool" where
  "static_paths f ps \<longleftrightarrow> distinct ps \<and> set ps = {p. \<exists>x. f p = Some (Static x)}"

lemma serve_mock_plain:
  assumes h: "holds E docs entry s f" and path: "\<not> prefix ''/api/'' (url_path req)" and "f (uri req) = map_option Static x"
  shows "\<exists>t. serve E now s req = Some (t, Replies [case x of None \<Rightarrow> err_json 400 (''no such path: '' @ uri req)
      | Some x \<Rightarrow> text_json 200 x]) \<and> holds E docs entry t f"
proof -
  obtain r res where g: "getRoute (route_be E) (store s) (uri req) = (r, res)" by force
  have live: "endpoints_live (route_be E) docs entry (store s)" and f: "endpoints docs (store s) = f"
    using h by (simp_all add: holds_def)
  note get = getRoute_endpoints(1,2) [OF endpoints_liveD(1) [OF live] g]
  have res: "res = (case x of None \<Rightarrow> Inl ErrNoSuchPath | Some x \<Rightarrow> Inr (route_of (uri req) (Static x)))"
  proof (rule getRoute_live [OF live, of "uri req"])
    assume "endpoints docs (store s) (uri req) = None" "snd (getRoute (route_be E) (store s) (uri req)) = Inl ErrNoSuchPath"
    with g f assms(3) show ?thesis by (cases x) simp_all
  next
    fix e e' assume "endpoints docs (store s) (uri req) = Some e"
      "snd (getRoute (route_be E) (store s) (uri req)) = Inr (route_of (uri req) e')" "(\<forall>u. e \<noteq> Proxy u) \<Longrightarrow> e' = e"
    with g f assms(3) show ?thesis by (cases x) auto
  qed
  have "serve E now s req = Some (s\<lparr>store := r\<rparr>, Replies [case x of None \<Rightarrow> err_json 400 (''no such path: '' @ uri req)
      | Some x \<Rightarrow> text_json 200 x])"
    using g res serve_mock [OF path, of E now s]
    by (cases s; cases x) (simp_all add: noroute_def GetRoute_def handleStaticRouteRequest_def endpoint_types)
  moreover have "holds E docs entry (s\<lparr>store := r\<rparr>) f"
    using get f endpoints_liveD(3) [OF live get(1)] by (simp add: holds_def)
  ultimately show ?thesis by blast
qed

lemma serve_static_list:
  assumes h: "holds E docs entry s f" and "meth req = ''GET''" and "url_path req = ''/api/routes/static''"
  shows "\<exists>ps. serve E now s req = Some (s, Replies [JSON 200 (JObj [(''endpoints'', JArr (map JStr ps))])]) \<and> static_paths f ps"
proof -
  have live: "endpoints_live (route_be E) docs entry (store s)" and f: "endpoints docs (store s) = f"
    using h by (simp_all add: holds_def)
  have "\<not> isl (FindAll (mdb (route_be E)) (coll (store s)) (\<lambda>d. Type d = STATIC_ENDPOINT_TYPE))"
    using live by (simp add: endpoints_live_def backend_live_def)
  then obtain ps where ps: "ListAllStaticEndpointPaths (route_be E) (store s) = Inr ps"
    by (cases "FindAll (mdb (route_be E)) (coll (store s)) (\<lambda>d. Type d = STATIC_ENDPOINT_TYPE)")
      (auto simp: ListAllStaticEndpointPaths_def listAllRoutesPathsWithType_def)
  have "Type (route_of p e) = STATIC_ENDPOINT_TYPE \<longleftrightarrow> (\<exists>x. e = Static x)" for p e by (cases e) (simp_all add: endpoint_types)
  with list_paths [OF endpoints_liveD(1) [OF live]] ps f have "static_paths f ps"
    by (auto simp: static_paths_def ListAllStaticEndpointPaths_def)
  moreover have "serve E now s req = Some (s, Replies [JSON 200 (JObj [(''endpoints'', JArr (map JStr ps))])])"
    using ps assms(2,3) by (cases s) (simp add: serve_def api_def routes_api_def routes_handler_def static_list_def)
  ultimately show ?thesis by blast
qed

lemma serve_static_post:
  assumes h: "holds E docs entry s f" and "meth req = ''POST''" and "url_path req = ''/api/routes/static''"
    and "BindStatic req = Inr \<lparr>se_path = p, se_response = x\<rparr>" and free: "f p = None"
  shows "\<exists>t. serve E now s req = Some (t, Replies [text_json 200 ''Static endpoint successfully added!'']) \<and>
    holds E docs entry t (f(p \<mapsto> Static x))"
proof -
  obtain r e where a: "addRoute (route_be E) (store s) (route_of p (Static x)) = (r, e)" by force
  have live: "endpoints_live (route_be E) docs entry (store s)" and f: "endpoints docs (store s) = f"
    using h by (simp_all add: holds_def)
  have e: "e = None" using addRoute_live [OF live, of p "Static x"] a free f by simp
  note add = addRoute_endpoints [OF endpoints_liveD(1) [OF live] a]
  have "serve E now s req = Some (s\<lparr>store := r\<rparr>, Replies [text_json 200 ''Static endpoint successfully added!''])"
    using a e assms(2-4) by (simp add: serve_def api_def routes_api_def routes_handler_def static_post_def Add_route_of del: route_of.simps)
  moreover have "holds E docs entry (s\<lparr>store := r\<rparr>) (f(p \<mapsto> Static x))"
    using add(3) e f endpoints_liveD(3) [OF live add(1)] by (simp add: holds_def)
  ultimately show ?thesis by blast
qed

lemma serve_static_delete:
  assumes h: "holds E docs entry s f" and "meth req = ''DELETE''" and "url_path req = ''/api/routes/static''"
    and "query req ''path'' = p" and "p \<noteq> ''''"
  shows "\<exists>t. serve E now s req = Some (t, Replies [text_json 204 ''Static endpoint successfully removed!'']) \<and>
    holds E docs entry t (f(p := None))"
proof -
  obtain r e where a: "removeRoute (route_be E) (store s) p = (r, e)" by force
  have live: "endpoints_live (route_be E) docs entry (store s)" and f: "endpoints docs (store s) = f"
    using h by (simp_all add: holds_def)
  have e: "e = None" using removeRoute_live [OF live, of p] a by simp
  note rm = removeRoute_endpoints [OF endpoints_liveD(1) [OF live] a]
  have "serve E now s req = Some (s\<lparr>store := r\<rparr>, Replies [text_json 204 ''Static endpoint successfully removed!''])"
    using a e assms(2-5) by (simp add: serve_def api_def routes_api_def routes_handler_def static_delete_def Remove_route)
  moreover have "holds E docs entry (s\<lparr>store := r\<rparr>) (f(p := None))"
    using rm(2) e f endpoints_liveD(3) [OF live rm(1)] by (simp add: holds_def)
  ultimately show ?thesis by blast
qed

text \<open>The client over a network that loses nothing.\<close>

definition smooth :: "('c, 'h, 'v, 'w, 'p, 'q, 'e, 'g, 'm) lab_env \<Rightarrow> bool" where
  "smooth L \<longleftrightarrow> (\<forall>m url. trip_of L m url = Well \<and> cut_off L m url = None)"

lemma request_for_url:
  assumes "CHR ''/'' \<notin> set a"
  shows "meth (request_for L m (''http://'' @ a @ CHR ''/'' # p) b) = m"
    and "uri (request_for L m (''http://'' @ a @ CHR ''/'' # p) b) = CHR ''/'' # p"
    and "url_path (request_for L m (''http://'' @ a @ CHR ''/'' # p) b) = CHR ''/'' # takeWhile (\<lambda>c. c \<noteq> CHR ''?'') p"
    and "query (request_for L m (''http://'' @ a @ CHR ''/'' # p) b) = query_value (query_of (CHR ''/'' # p))"
    and "req_body (request_for L m (''http://'' @ a @ CHR ''/'' # p) b) = Inr b"
proof -
  have "dropWhile (\<lambda>c. c \<noteq> CHR ''/'') (a @ CHR ''/'' # p) = CHR ''/'' # p"
    using assms by (induction a) auto
  then have t: "target_of (''http://'' @ a @ CHR ''/'' # p) = CHR ''/'' # p" by (simp add: target_of_def)
  show "meth (request_for L m (''http://'' @ a @ CHR ''/'' # p) b) = m"
    and "uri (request_for L m (''http://'' @ a @ CHR ''/'' # p) b) = CHR ''/'' # p"
    and "url_path (request_for L m (''http://'' @ a @ CHR ''/'' # p) b) = CHR ''/'' # takeWhile (\<lambda>c. c \<noteq> CHR ''?'') p"
    and "query (request_for L m (''http://'' @ a @ CHR ''/'' # p) b) = query_value (query_of (CHR ''/'' # p))"
    and "req_body (request_for L m (''http://'' @ a @ CHR ''/'' # p) b) = Inr b"
    unfolding request_for_def Let_def t by simp_all
qed

lemma do_well:
  assumes "smooth L" and "wire rs = (code, body)"
    and "serve (web_E L) (at_time L) (site l) (request_for L m url b) = Some (s, Replies rs)"
  shows "m = ''GET'' \<Longrightarrow> b = '''' \<Longrightarrow> do_get url L l
      = (noted (Info [(''status'', Num code), (''body'', Text body)] ''GET success'') (l\<lparr>site := s\<rparr>), Runs)"
    and "m = ''POST'' \<Longrightarrow> decode_string body = Some x \<Longrightarrow> do_post url b L l
      = (noted (Info [(''status'', Num code), (''body'', Text x)] ''POST successfully'') (l\<lparr>site := s\<rparr>), Runs)"
    and "m = ''DELETE'' \<Longrightarrow> b = '''' \<Longrightarrow> do_delete url L l
      = (noted (Info [(''status'', Num code), (''body'', Text body)] ''DELETE success'') (l\<lparr>site := s\<rparr>), Runs)"
  using assms by (simp_all add: smooth_def do_get_def do_post_def do_delete_def exchange_def)

text \<open>An answer to a \<open>GET\<close>, as it is logged, and the body of a listing.\<close>

definition got :: "nat \<Rightarrow> json \<Rightarrow> entry_note" where
  "got code j = Info [(''status'', Num code), (''body'', Text (json_print j))] ''GET success''"

definition listed :: "string list \<Rightarrow> json" where
  "listed ps = JObj [(''endpoints'', JArr (map JStr ps))]"

lemma get_replies:
  assumes "smooth L" and "serve (web_E L) (at_time L) (site l) (request_for L ''GET'' url '''') = Some (s, Replies [JSON code j])"
    and "\<not> bodiless code"
  shows "do_get url L l = (noted (got code j) (l\<lparr>site := s\<rparr>), Runs)"
proof -
  have "wire [JSON code j] = (code, json_print j)" using assms(3) by (simp add: wire_def)
  from do_well(1) [OF assms(1) this assms(2)] show ?thesis by (simp add: got_def)
qed


text \<open>The steps of the scenario.\<close>

lemma get_ping:
  assumes "smooth L" and "CHR ''/'' \<notin> set a"
  shows "do_get ((''http://'' @ a) @ ''/api/ping'') L l
    = (noted (got 200 (JStr ''Ping yourself, I have another work!'')) (l\<lparr>site := site l\<rparr>), Runs)"
  unfolding append_assoc
  by (rule get_replies [OF assms(1)])
    (simp_all only: serve_def api_def request_for_url [OF assms(2)], simp_all add: text_json_def bodiless_def)

lemma get_test_url:
  assumes "smooth L" and "CHR ''/'' \<notin> set a" and h: "holds (web_E L) docs entry (site l) f"
    and at: "f ''/test_url'' = map_option Static x"
  shows "\<exists>s. do_get ((''http://'' @ a) @ ''/test_url'') L l = (noted (case x of
      None \<Rightarrow> got 400 (JObj [(''error'', JStr ''no such path: /test_url'')]) | Some x \<Rightarrow> got 200 (JStr x)) (l\<lparr>site := s\<rparr>), Runs) \<and>
    holds (web_E L) docs entry s f"
proof -
  let ?r = "request_for L ''GET'' (''http://'' @ a @ ''/test_url'') ''''"
  have uri: "uri ?r = ''/test_url''" and path: "url_path ?r = ''/test_url''"
    unfolding request_for_url [OF assms(2)] by simp_all
  obtain s where s: "holds (web_E L) docs entry s f" "serve (web_E L) (at_time L) (site l) ?r = Some (s, Replies [case x of
      None \<Rightarrow> err_json 400 (''no such path: '' @ uri ?r) | Some x \<Rightarrow> text_json 200 x])"
    using serve_mock_plain [OF h, of ?r x "at_time L"] path at uri by auto
  have "do_get (''http://'' @ a @ ''/test_url'') L l = (noted (case x of
      None \<Rightarrow> got 400 (JObj [(''error'', JStr ''no such path: /test_url'')]) | Some x \<Rightarrow> got 200 (JStr x)) (l\<lparr>site := s\<rparr>), Runs)"
    using get_replies [OF assms(1), of l "''http://'' @ a @ ''/test_url''" s] s(2) [unfolded uri]
    by (cases x) (simp_all add: err_json_def text_json_def bodiless_def)
  with s(1) show ?thesis unfolding append_assoc by blast
qed

lemma get_static_api:
  assumes "smooth L" and "CHR ''/'' \<notin> set a" and h: "holds (web_E L) docs entry (site l) f"
  shows "\<exists>ps. do_get ((''http://'' @ a) @ ''/api/routes/static'') L l = (noted (got 200 (listed ps)) (l\<lparr>site := site l\<rparr>), Runs) \<and>
    static_paths f ps"
proof -
  let ?r = "request_for L ''GET'' (''http://'' @ a @ ''/api/routes/static'') ''''"
  have "meth ?r = ''GET''" "url_path ?r = ''/api/routes/static''"
    unfolding request_for_url [OF assms(2)] by simp_all
  from serve_static_list [OF h this] obtain ps where ps: "static_paths f ps"
    "serve (web_E L) (at_time L) (site l) ?r = Some (site l, Replies [JSON 200 (listed ps)])" by (auto simp: listed_def)
  from get_replies [OF assms(1) ps(2)] ps(1) show ?thesis unfolding append_assoc by (auto simp: bodiless_def)
qed

lemma post_test_url:
  assumes "smooth L" and "CHR ''/'' \<notin> set a" and h: "holds (web_E L) docs entry (site l) f" and "f ''/test_url'' = None"
  shows "\<exists>s. do_post ((''http://'' @ a) @ ''/api/routes/static'') test_body L l
      = (noted (Info [(''status'', Num 200), (''body'', Text ''Static endpoint successfully added!'')] ''POST successfully'')
          (l\<lparr>site := s\<rparr>), Runs) \<and>
    holds (web_E L) docs entry s (f(''/test_url'' \<mapsto> Static ''hello''))"
proof -
  let ?r = "request_for L ''POST'' (''http://'' @ a @ ''/api/routes/static'') test_body"
  have "meth ?r = ''POST''" "url_path ?r = ''/api/routes/static''" and b: "req_body ?r = Inr test_body"
    unfolding request_for_url [OF assms(2)] by simp_all
  from serve_static_post [OF h this(1,2) bind_test_body [OF b] assms(4), of "at_time L"] obtain s
    where s: "holds (web_E L) docs entry s (f(''/test_url'' \<mapsto> Static ''hello''))"
      "serve (web_E L) (at_time L) (site l) ?r = Some (s, Replies [text_json 200 ''Static endpoint successfully added!''])" by blast
  have wire: "wire [text_json 200 ''Static endpoint successfully added!'']
      = (200, json_print (JStr ''Static endpoint successfully added!''))" by (simp add: wire_def text_json_def bodiless_def)
  have "decode_string (json_print (JStr ''Static endpoint successfully added!'')) = Some ''Static endpoint successfully added!''"
    by code_simp
  from do_well(2) [OF assms(1) wire s(2) refl this] s(1) show ?thesis unfolding append_assoc by blast
qed

lemma delete_test_url:
  assumes "smooth L" and "CHR ''/'' \<notin> set a" and h: "holds (web_E L) docs entry (site l) f"
  shows "\<exists>s. do_delete (((''http://'' @ a) @ ''/api/routes/static'') @ ''?path=/test_url'') L l
      = (noted (Info [(''status'', Num 204), (''body'', Text '''')] ''DELETE success'') (l\<lparr>site := s\<rparr>), Runs) \<and>
    holds (web_E L) docs entry s (f(''/test_url'' := None))"
proof -
  let ?r = "request_for L ''DELETE'' (''http://'' @ a @ ''/api/routes/static?path=/test_url'') ''''"
  have at: "meth ?r = ''DELETE''" "url_path ?r = ''/api/routes/static''"
    "query ?r = query_value (query_of ''/api/routes/static?path=/test_url'')"
    unfolding request_for_url [OF assms(2)] by simp_all
  have "query_value (query_of ''/api/routes/static?path=/test_url'') ''path'' = ''/test_url''" by code_simp
  with at(3) have "query ?r ''path'' = ''/test_url''" by simp
  from serve_static_delete [OF h at(1,2) this, of "at_time L"] obtain s
    where s: "holds (web_E L) docs entry s (f(''/test_url'' := None))"
      "serve (web_E L) (at_time L) (site l) ?r = Some (s, Replies [text_json 204 ''Static endpoint successfully removed!''])" by blast
  have wire: "wire [text_json 204 ''Static endpoint successfully removed!''] = (204, '''')"
    by (simp add: wire_def text_json_def bodiless_def)
  from do_well(3) [OF assms(1) wire s(2) refl refl] s(1) show ?thesis by auto
qed

text \<open>Stages in a row: \<open>does g P N Q\<close> says that the stage leads from \<open>P\<close> to \<open>Q\<close> and writes one entry, one of \<open>N\<close>.\<close>

definition does :: "(('c, 'h, 'v, 'w, 'p, 'q, 'e, 'g, 'm) lab \<Rightarrow> ('c, 'h, 'v, 'w, 'p, 'q, 'e, 'g, 'm) lab \<times> fate)
    \<Rightarrow> (('c, 'h, 'v, 'w, 'p, 'q, 'e, 'g, 'm) web \<Rightarrow> bool) \<Rightarrow> (entry_note \<Rightarrow> bool)
    \<Rightarrow> (('c, 'h, 'v, 'w, 'p, 'q, 'e, 'g, 'm) web \<Rightarrow> bool) \<Rightarrow> bool" where
  "does g P N Q \<longleftrightarrow> (\<forall>l. P (site l) \<longrightarrow> (\<exists>s n. g l = (noted n (l\<lparr>site := s\<rparr>), Runs) \<and> N n \<and> Q s))"

definition does_all :: "(('c, 'h, 'v, 'w, 'p, 'q, 'e, 'g, 'm) lab \<Rightarrow> ('c, 'h, 'v, 'w, 'p, 'q, 'e, 'g, 'm) lab \<times> fate) list
    \<Rightarrow> (('c, 'h, 'v, 'w, 'p, 'q, 'e, 'g, 'm) web \<Rightarrow> bool) \<Rightarrow> (entry_note \<Rightarrow> bool) list
    \<Rightarrow> (('c, 'h, 'v, 'w, 'p, 'q, 'e, 'g, 'm) web \<Rightarrow> bool) \<Rightarrow> bool" where
  "does_all gs P Ns Q \<longleftrightarrow> (\<forall>l. P (site l) \<longrightarrow> (\<exists>s ns. run_stages gs l = (l\<lparr>site := s, written := written l @ ns\<rparr>, Runs) \<and>
     list_all2 (\<lambda>N n. N n) Ns ns \<and> Q s))"

lemma does_none: "does_all [] P [] P"
  unfolding does_all_def by (intro allI impI exI [of _ "[]"], rule_tac x = "site l" in exI) simp

lemma does_more:
  assumes g: "does g P N Q" and gs: "does_all gs Q Ns R"
  shows "does_all (g # gs) P (N # Ns) R"
  unfolding does_all_def
proof (intro allI impI)
  fix l :: "('a, 'b, 'c, 'd, 'e, 'f, 'g, 'h, 'i) lab"
  assume "P (site l)"
  with g obtain s n where n: "g l = (noted n (l\<lparr>site := s\<rparr>), Runs)" "N n" "Q s" unfolding does_def by blast
  let ?l = "noted n (l\<lparr>site := s\<rparr>)"
  have "Q (site ?l)" using n(3) by (simp add: noted_def)
  with gs obtain s' ns where "run_stages gs ?l = (?l\<lparr>site := s', written := written ?l @ ns\<rparr>, Runs)"
    "list_all2 (\<lambda>N n. N n) Ns ns" "R s'" unfolding does_all_def by blast
  with n(1,2) show "\<exists>s ns. run_stages (g # gs) l = (l\<lparr>site := s, written := written l @ ns\<rparr>, Runs) \<and>
      list_all2 (\<lambda>N n. N n) (N # Ns) ns \<and> R s"
    by (intro exI [of _ s'] exI [of _ "n # ns"]) (simp add: noted_def)
qed

lemma scenario_steps:
  assumes "smooth L" and "CHR ''/'' \<notin> set a"
  shows "does (do_get ((''http://'' @ a) @ ''/api/ping'') L) P (\<lambda>n. n = got 200 (JStr ''Ping yourself, I have another work!'')) P"
    and "f ''/test_url'' = None \<Longrightarrow> does (do_get ((''http://'' @ a) @ ''/test_url'') L) (\<lambda>s. holds (web_E L) docs entry s f)
      (\<lambda>n. n = got 400 (JObj [(''error'', JStr ''no such path: /test_url'')])) (\<lambda>s. holds (web_E L) docs entry s f)"
    and "f ''/test_url'' = Some (Static x) \<Longrightarrow> does (do_get ((''http://'' @ a) @ ''/test_url'') L)
      (\<lambda>s. holds (web_E L) docs entry s f) (\<lambda>n. n = got 200 (JStr x)) (\<lambda>s. holds (web_E L) docs entry s f)"
    and "does (do_get ((''http://'' @ a) @ ''/api/routes/static'') L) (\<lambda>s. holds (web_E L) docs entry s f)
      (\<lambda>n. \<exists>ps. n = got 200 (listed ps) \<and> static_paths f ps) (\<lambda>s. holds (web_E L) docs entry s f)"
    and "f ''/test_url'' = None \<Longrightarrow> does (do_post ((''http://'' @ a) @ ''/api/routes/static'') test_body L)
      (\<lambda>s. holds (web_E L) docs entry s f)
      (\<lambda>n. n = Info [(''status'', Num 200), (''body'', Text ''Static endpoint successfully added!'')] ''POST successfully'')
      (\<lambda>s. holds (web_E L) docs entry s (f(''/test_url'' \<mapsto> Static ''hello'')))"
    and "does (do_delete (((''http://'' @ a) @ ''/api/routes/static'') @ ''?path=/test_url'') L)
      (\<lambda>s. holds (web_E L) docs entry s f) (\<lambda>n. n = Info [(''status'', Num 204), (''body'', Text '''')] ''DELETE success'')
      (\<lambda>s. holds (web_E L) docs entry s (f(''/test_url'' := None)))"
proof -
  note test_url = get_test_url [OF assms, of docs entry]
  show "does (do_get ((''http://'' @ a) @ ''/api/ping'') L) P (\<lambda>n. n = got 200 (JStr ''Ping yourself, I have another work!'')) P"
    unfolding does_def using get_ping [OF assms] by blast
  show "f ''/test_url'' = None \<Longrightarrow> does (do_get ((''http://'' @ a) @ ''/test_url'') L) (\<lambda>s. holds (web_E L) docs entry s f)
      (\<lambda>n. n = got 400 (JObj [(''error'', JStr ''no such path: /test_url'')])) (\<lambda>s. holds (web_E L) docs entry s f)"
    unfolding does_def using test_url [where f = f and x = None, unfolded option.case option.map] by blast
  show "f ''/test_url'' = Some (Static x) \<Longrightarrow> does (do_get ((''http://'' @ a) @ ''/test_url'') L)
      (\<lambda>s. holds (web_E L) docs entry s f) (\<lambda>n. n = got 200 (JStr x)) (\<lambda>s. holds (web_E L) docs entry s f)"
    unfolding does_def using test_url [where f = f and x = "Some x", unfolded option.case option.map] by blast
  show "does (do_get ((''http://'' @ a) @ ''/api/routes/static'') L) (\<lambda>s. holds (web_E L) docs entry s f)
      (\<lambda>n. \<exists>ps. n = got 200 (listed ps) \<and> static_paths f ps) (\<lambda>s. holds (web_E L) docs entry s f)"
    unfolding does_def using get_static_api [OF assms, of docs entry _ f] by blast
  show "f ''/test_url'' = None \<Longrightarrow> does (do_post ((''http://'' @ a) @ ''/api/routes/static'') test_body L)
      (\<lambda>s. holds (web_E L) docs entry s f)
      (\<lambda>n. n = Info [(''status'', Num 200), (''body'', Text ''Static endpoint successfully added!'')] ''POST successfully'')
      (\<lambda>s. holds (web_E L) docs entry s (f(''/test_url'' \<mapsto> Static ''hello'')))"
    unfolding does_def using post_test_url [OF assms, of docs entry _ f] by blast
  show "does (do_delete (((''http://'' @ a) @ ''/api/routes/static'') @ ''?path=/test_url'') L)
      (\<lambda>s. holds (web_E L) docs entry s f) (\<lambda>n. n = Info [(''status'', Num 204), (''body'', Text '''')] ''DELETE success'')
      (\<lambda>s. holds (web_E L) docs entry s (f(''/test_url'' := None)))"
    unfolding does_def using delete_test_url [OF assms, of docs entry _ f] by blast
qed

text \<open>The scenario of the routes API against a server whose database answers, over a network that loses
  nothing: whatever endpoints are there already, as long as \<open>/test_url\<close> is free, its nine requests are answered, in
  this order, by the ping, a 400 for the unknown path, the list of the static endpoints, the confirmation of the \<open>POST\<close>, the
  posted text, the list with \<open>/test_url\<close> in it, an empty 204, the 400 again and a list as at the start; the
  endpoints are those of before.\<close>
lemma api_scenario:
  assumes "smooth L" and "server_cfg L = Some cfg" and "CHR ''/'' \<notin> set (SAddr cfg)"
    and "holds (web_E L) docs entry (site l) f" and "f ''/test_url'' = None"
  shows "\<exists>s ps qs rs. play_server_api L l = (\<lparr>site = s, written = written l @ [
      got 200 (JStr ''Ping yourself, I have another work!''),
      got 400 (JObj [(''error'', JStr ''no such path: /test_url'')]),
      got 200 (listed ps),
      Info [(''status'', Num 200), (''body'', Text ''Static endpoint successfully added!'')] ''POST successfully'',
      got 200 (JStr ''hello''),
      got 200 (listed qs),
      Info [(''status'', Num 204), (''body'', Text '''')] ''DELETE success'',
      got 400 (JObj [(''error'', JStr ''no such path: /test_url'')]),
      got 200 (listed rs)]\<rparr>, Runs) \<and>
    static_paths f ps \<and> static_paths (f(''/test_url'' \<mapsto> Static ''hello'')) qs \<and> static_paths f rs \<and>
    holds (web_E L) docs entry s f"
proof -
  let ?g = "f(''/test_url'' \<mapsto> Static ''hello'')"
  note step = scenario_steps [OF assms(1,3)]
  have g: "?g ''/test_url'' = Some (Static ''hello'')" and gone: "?g(''/test_url'' := None) = f"
    using assms(5) by (simp_all add: fun_upd_idem)
  note free = step(2) [where f = f, OF assms(5)] and posted = step(5) [where f = f, OF assms(5)]
    and found = step(3) [where f = ?g, OF g] and deleted = step(6) [where f = ?g, unfolded gone]
  note all = does_more [OF step(1) does_more [OF free does_more [OF step(4) does_more [OF posted
    does_more [OF found does_more [OF step(4) does_more [OF deleted does_more [OF free does_more [OF step(4) does_none]]]]]]]]]
  from all [unfolded does_all_def, rule_format, OF assms(4)] assms(2) show ?thesis
    unfolding play_server_api_def by (force simp: list_all2_Cons1 Let_def simp del: run_stages.simps append.simps)
qed

section \<open>The brokers\<close>

definition brokers_E :: "('c, 'h, 'v, 'w, 'p, 'q, 'e, 'g, 'm) lab_env \<Rightarrow> ('w, 'p, 'q, 'e, 'g, 'm) brokers_env" where
  "brokers_E L = bro (web_E L)"

definition with_brk :: "(('w, 'p, 'q, 'e, 'g, 'm) brokers_srv \<Rightarrow> ('w, 'p, 'q, 'e, 'g, 'm) brokers_srv)
    \<Rightarrow> ('c, 'h, 'v, 'w, 'p, 'q, 'e, 'g, 'm) lab \<Rightarrow> ('c, 'h, 'v, 'w, 'p, 'q, 'e, 'g, 'm) lab" where
  "with_brk f l = l\<lparr>site := (site l)\<lparr>brk := f (brk (site l))\<rparr>\<rparr>"

definition sleep :: "('c, 'h, 'v, 'w, 'p, 'q, 'e, 'g, 'm) play" where
  "sleep L l = (with_brk (meanwhile L) l, Runs)"

definition add_pool :: "('c, 'h, 'v, 'w, 'p, 'q, 'e, 'g, 'm) lab_env \<Rightarrow> pool \<Rightarrow> ('c, 'h, 'v, 'w, 'p, 'q, 'e, 'g, 'm) lab
    \<Rightarrow> ('c, 'h, 'v, 'w, 'p, 'q, 'e, 'g, 'm) lab \<times> pool option \<times> go_error option" where
  "add_pool L p l =
     (let B = brokers_E L; (r, h, err) = AddMessagePool (pool_be B) (blib B) (benv B) (breg (brk (site l))) p in
      (with_brk (\<lambda>b. b\<lparr>breg := r\<rparr>) l, h, err))"

text \<open>\<open>Schedule\<close> on what a handler makes.  A handler without a pool, nil itself or a nil pointer in the interface, panics in the
  end: at the constructor, or at the id of the task.\<close>

definition schedule_on :: "pool option \<Rightarrow> (pool \<Rightarrow> scheduled) \<Rightarrow> ('c, 'h, 'v, 'w, 'p, 'q, 'e, 'g, 'm) lab
    \<Rightarrow> ('c, 'h, 'v, 'w, 'p, 'q, 'e, 'g, 'm) lab \<times> fate" where
  "schedule_on handler t l = (case handler of
     None \<Rightarrow> (l, Panicked ''nil pointer dereference'')
   | Some p \<Rightarrow> (with_brk (\<lambda>b. b\<lparr>handed := handed b @ [t p]\<rparr>) l, Runs))"

text \<open>The part \<open>play_brokers\<close> and \<open>play_kafka\<close> share: an error is written down, and the handler used all the same.\<close>

definition log_failure :: "go_error option \<Rightarrow> string \<Rightarrow> ('c, 'h, 'v, 'w, 'p, 'q, 'e, 'g, 'm) lab
    \<Rightarrow> ('c, 'h, 'v, 'w, 'p, 'q, 'e, 'g, 'm) lab" where
  "log_failure err msg l = (case err of None \<Rightarrow> l | Some e \<Rightarrow> noted (Error_note [err_field e] msg) l)"

definition play_pool :: "pool \<Rightarrow> ('c, 'h, 'v, 'w, 'p, 'q, 'e, 'g, 'm) play" where
  "play_pool p L l =
     (let (l, handler, err) = add_pool L p l; l = log_failure err ''add new pool failed'' l in
      run_stages [
        schedule_on handler ReadTask,
        \<lambda>l. (noted (Info [(''id'', Text (readTaskId (the handler)))] ''start reading'') l, Runs),
        sleep L,
        \<lambda>l. let (r, res) = GetMessagePool (pool_be (brokers_E L)) (breg (brk (site l))) (GetName p);
               l = with_brk (\<lambda>b. b\<lparr>breg := r\<rparr>) l in
            case res of
              Inl err \<Rightarrow> schedule_on None ReadTask (log_failure (Some err) ''get pool failed'' l)
            | Inr handler \<Rightarrow> schedule_on (Some handler) (\<lambda>p. WriteTask p [''40'', ''41'', ''42'']) l,
        sleep L] l)"

definition play_brokers :: "('c, 'h, 'v, 'w, 'p, 'q, 'e, 'g, 'm) play" where
  "play_brokers = play_pool (RabbitMQPool (NewRabbitMQMessagePool ''test-pool'' ''test-mock-queue''))"

definition play_kafka :: "('c, 'h, 'v, 'w, 'p, 'q, 'e, 'g, 'm) play" where
  "play_kafka = play_pool (KafkaPool (NewKafkaMessagePool ''test-pool-kafka'' ''test-topic''))"

section \<open>Files and scripts\<close>

text \<open>A raw string of Go: the backslash and the \<open>n\<close> in it are two characters.\<close>

definition TEST_PY :: string where
  "TEST_PY = ''def func(headers, body):'' @ CHR 0x5C # ''n    print('' @ quote # ''Hello, world!'' @ quote # '')''"

definition play_file_storage :: "('c, 'h, 'v, 'w, 'p, 'q, 'e, 'g, 'm) play" where
  "play_file_storage L l = (case NewFileStorageDriver (fs_mkdir L) (fs_root L) ''coderun'' of
     Inl err \<Rightarrow> (noted (Error_note [err_field err] ''cannot create filestorage'') l, Runs)
   | Inr fs \<Rightarrow>
       let sys = bsys (brokers_E L);
           (d, err) = fs_Write sys fs (bdisk (brk (site l))) ''mapper'' ''test.py'' TEST_PY;
           l = with_brk (\<lambda>b. b\<lparr>bdisk := d\<rparr>) l in
       (case err of
          Some err \<Rightarrow> (noted (Error_note [err_field err] ''write failed'') l, Runs)
        | None \<Rightarrow> (case fs_Read sys fs d ''mapper'' ''test.py'' of
            Inl err \<Rightarrow> (noted (Error_note [err_field err] ''read failed'') l, Runs)
          | Inr s \<Rightarrow> (noted (Info [(''text'', Text s)] ''read file successfuly'') l, Runs))))"

definition PLAY_ARGS :: Args where
  "PLAY_ARGS = NewDynHandleArgs ''{}'' (newline # ''{'' @ newline # CHR 0x09 # quote # ''A'' @ quote # '': '' @ quote # ''sample_A'' @
     quote # '','' @ newline # CHR 0x09 # quote # ''B'' @ quote # '': 42,'' @ newline # CHR 0x09 # quote # ''C'' @ quote # '': ['' @
     quote # ''a'' @ quote # '', '' @ quote # ''b'' @ quote # '', '' @ quote # ''c'' @ quote # '']'' @ newline # ''}'' @ [newline])"

text \<open>A script that fails ends the rounds, with its worker not returned.\<close>

fun coderun_rounds :: "nat \<Rightarrow> ('c, 'h, 'v, 'w, 'p, 'q, 'e, 'g, 'm) play" where
  "coderun_rounds 0 L l = (l, Runs)"
| "coderun_rounds (Suc n) L l = (case BorrowWorker (dockers (web_E L)) (coders (site l)) of
     None \<Rightarrow> (l, Hangs)
   | Some (w, res) \<Rightarrow>
       let l = l\<lparr>site := (site l)\<lparr>coders := w\<rparr>\<rparr> in
       (case res of
          Inl err \<Rightarrow> (noted (Error_note [err_field err] ''borrow worker'') l, Runs)
        | Inr worker \<Rightarrow> (case RunScript (web_http (web_E L)) worker ''mapper'' ''test.py'' PLAY_ARGS of
            Panic m \<Rightarrow> (l, Panicked m)
          | Return (out, Some err) \<Rightarrow> (noted (Error_note [err_field err] ''run script'') l, Runs)
          | Return (out, None) \<Rightarrow>
              let l = noted (Info [(''output'', Text out)] ''script finished'') l in
              (case Return_worker worker (coders (site l)) of
                 None \<Rightarrow> (l, Hangs)
               | Some w \<Rightarrow> coderun_rounds n L (l\<lparr>site := (site l)\<lparr>coders := w\<rparr>\<rparr>)))))"

definition play_coderun :: "('c, 'h, 'v, 'w, 'p, 'q, 'e, 'g, 'm) play" where
  "play_coderun = coderun_rounds 10"

section \<open>Forwarding\<close>

definition SCRIPT_BASIC :: string where
  "SCRIPT_BASIC = WrapCodeForEsb (newline # ''def func(msgs):'' @ newline # ''    return ['' @ quote # ''Helllo body'' @ quote # '']'' @ [newline])"

definition SCRIPT_HARD :: string where
  "SCRIPT_HARD = WrapCodeForEsb (newline # ''def func(msgs):'' @ newline # CHR 0x09 # ''return msgs[::-1]'' @ [newline])"

text \<open>A stage that may end the scenario early: \<open>return\<close> after an error is written down.\<close>

definition or_return :: "string \<Rightarrow> ('l \<Rightarrow> 'l \<times> go_error option) \<Rightarrow> (go_error \<Rightarrow> string \<Rightarrow> 'l \<Rightarrow> 'l)
    \<Rightarrow> ('l \<Rightarrow> 'l \<times> fate) \<Rightarrow> 'l \<Rightarrow> 'l \<times> fate" where
  "or_return msg f write onward l = (case f l of
     (l, Some err) \<Rightarrow> (write err msg l, Runs)
   | (l, None) \<Rightarrow> onward l)"

definition write_script :: "('c, 'h, 'v, 'w, 'p, 'q, 'e, 'g, 'm) lab_env \<Rightarrow> FileStorage \<Rightarrow> string \<Rightarrow> string
    \<Rightarrow> ('c, 'h, 'v, 'w, 'p, 'q, 'e, 'g, 'm) lab \<Rightarrow> ('c, 'h, 'v, 'w, 'p, 'q, 'e, 'g, 'm) lab \<times> go_error option" where
  "write_script L fs name code l =
     (let (d, err) = fs_Write (bsys (brokers_E L)) fs (bdisk (brk (site l))) ''mapper'' name code in
      (with_brk (\<lambda>b. b\<lparr>bdisk := d\<rparr>) l, err))"

definition link_pools :: "('c, 'h, 'v, 'w, 'p, 'q, 'e, 'g, 'm) lab_env \<Rightarrow> string \<Rightarrow> string \<Rightarrow> string
    \<Rightarrow> ('c, 'h, 'v, 'w, 'p, 'q, 'e, 'g, 'm) lab \<Rightarrow> ('c, 'h, 'v, 'w, 'p, 'q, 'e, 'g, 'm) lab \<times> go_error option" where
  "link_pools L pool_in pool_out name l =
     (let (b, err) = AddEsbRecordWithMapper (esb_be (brokers_E L)) (besb (brk (site l))) pool_in pool_out name in
      (with_brk (\<lambda>s. s\<lparr>besb := b\<rparr>) l, err))"

text \<open>The errors of the pools and of the driver are dropped; \<open>Write\<close> on a driver that is nil panics.\<close>

definition play_esb :: "('c, 'h, 'v, 'w, 'p, 'q, 'e, 'g, 'm) play" where
  "play_esb L l =
     (let new = (\<lambda>n. RabbitMQPool (NewRabbitMQMessagePool (''test-pool-'' @ n) (''test-mock-queue-'' @ n)));
          (l, pool1, _) = add_pool L (new ''1'') l;
          (l, pool2, _) = add_pool L (new ''2'') l;
          (l, pool3, _) = add_pool L (new ''3'') l;
          failed = (\<lambda>err msg. noted (Error_note [err_field err] msg)) in
      case NewFileStorageDriver (fs_mkdir L) (fs_root L) ''coderun'' of
        Inl err \<Rightarrow> (l, Panicked ''nil pointer dereference'')
      | Inr fs \<Rightarrow>
          or_return ''write to file'' (write_script L fs ''test-mapper-basic.py'' SCRIPT_BASIC) failed
         (or_return ''write to file'' (write_script L fs ''test-mapper-hard.py'' SCRIPT_HARD) failed
         (or_return ''add esb record'' (link_pools L ''test-pool-2'' ''test-pool-1'' ''test-mapper-basic.py'') failed
         (or_return ''add esb record'' (link_pools L ''test-pool-3'' ''test-pool-1'' ''test-mapper-hard.py'') failed
         (run_stages [
            schedule_on pool2 ReadTask, schedule_on pool3 ReadTask, sleep L,
            schedule_on pool2 (\<lambda>p. WriteTask p []), schedule_on pool3 (\<lambda>p. WriteTask p [''msg1'', ''msg2'', ''msg3'']), sleep L,
            schedule_on pool1 ReadTask, schedule_on pool1 ReadTask, sleep L])))) l)"

section \<open>All of it\<close>

definition plays :: "('c, 'h, 'v, 'w, 'p, 'q, 'e, 'g, 'm) play" where
  "plays L = run_stages [play_brokers L, play_file_storage L, play_coderun L, play_esb L, play_server_api L, play_kafka L]"

section \<open>Scripts that fail\<close>

lemma RunScript_coderun_mapper: "\<exists>out err. RunScript http v ''mapper'' n args = Return (out, err)"
  by (auto simp: RunScript_def Let_def split: sum.split)

definition finished :: "string \<Rightarrow> entry_note" where
  "finished out = Info [(''output'', Text out)] ''script finished''"

text \<open>How a number of rounds may go: all of them to the end, or with an error that leaves a worker out.\<close>

definition rounds_went :: "'v docker \<Rightarrow> nat \<Rightarrow> 'v watcher \<Rightarrow> entry_note list \<Rightarrow> 'v watcher \<Rightarrow> bool" where
  "rounds_went lib n w ns w' \<longleftrightarrow> (\<exists>outs. ns = map finished outs \<and> length outs = n \<and> bench w' = bench w) \<or>
     (\<exists>outs err msg. ns = map finished outs @ [Error_note [err_field err] msg] \<and> length outs < n \<and>
       (msg = ''run script'' \<and> (\<exists>v. bench w = add_mset v (bench w')) \<or>
        msg = ''borrow worker'' \<and> (bench w' = bench w \<or> (\<exists>v. bench w = add_mset v (bench w') \<and>
          InspectWorkerContainer lib (dp w) (cId v) = Inl err))))"

lemma rounds_went_step:
  assumes "rounds_went lib n w ns w'" and "bench w = bench u" and "dp w = dp u"
  shows "rounds_went lib (Suc n) u (finished out # ns) w'"
proof -
  show ?thesis using assms(1) [unfolded rounds_went_def assms(2,3)]
  proof (elim disjE exE)
    fix outs assume "ns = map finished outs \<and> length outs = n \<and> bench w' = bench u"
    then show ?thesis unfolding rounds_went_def by (intro disjI1 exI [of _ "out # outs"]) simp
  next
    fix outs err msg
    assume "ns = map finished outs @ [Error_note [err_field err] msg] \<and> length outs < n \<and>
      (msg = ''run script'' \<and> (\<exists>v. bench u = add_mset v (bench w')) \<or>
       msg = ''borrow worker'' \<and> (bench w' = bench u \<or> (\<exists>v. bench u = add_mset v (bench w') \<and>
         InspectWorkerContainer lib (dp u) (cId v) = Inl err)))"
    then show ?thesis unfolding rounds_went_def by (intro disjI2 exI [of _ "out # outs"] exI [of _ err] exI [of _ msg]) simp
  qed
qed

lemma coderun_rounds_went:
  assumes "roomy (coders (site l))"
  shows "\<exists>w' ns. coderun_rounds n L l = (l\<lparr>site := (site l)\<lparr>coders := w'\<rparr>, written := written l @ ns\<rparr>, Runs) \<and>
    rounds_went (dockers (web_E L)) n (coders (site l)) ns w' \<and> roomy w'"
  using assms
proof (induction n arbitrary: l)
  case 0
  have "l = l\<lparr>site := (site l)\<lparr>coders := coders (site l)\<rparr>, written := written l @ []\<rparr>" by simp
  with 0 show ?case by (intro exI [of _ "coders (site l)"] exI [of _ "[]"]) (simp add: rounds_went_def)
next
  case (Suc n)
  let ?w = "coders (site l)"
  obtain t r where b: "BorrowWorker (dockers (web_E L)) ?w = Some (t, r)" and lent: "lent_out (dockers (web_E L)) ?w t r"
    using BorrowWorker_lent [OF Suc.prems] by blast
  have less: "bench ?w = add_mset v (bench t) \<Longrightarrow> roomy t" for v
    using lent Suc.prems by (simp add: roomy_bench lent_out_def)
  show ?case
  proof (cases r)
    case (Inl err)
    with lent Suc.prems less have "roomy t" by (auto simp: lent_out_def roomy_bench)
    moreover from Inl lent have "rounds_went (dockers (web_E L)) (Suc n) ?w [Error_note [err_field err] ''borrow worker''] t"
      unfolding rounds_went_def lent_out_def
      by (intro disjI2 exI [of _ "[]"] exI [of _ err] exI [of _ "''borrow worker''"]) auto
    ultimately show ?thesis using b Inl by (auto simp: noted_def)
  next
    case (Inr v)
    with lent have bench: "bench ?w = add_mset v (bench t)" and cnt: "WorkerCnt t = WorkerCnt ?w" and d: "dp t = dp ?w"
      by (simp_all add: lent_out_def)
    obtain out err where run: "RunScript (web_http (web_E L)) v ''mapper'' ''test.py'' PLAY_ARGS = Return (out, err)"
      using RunScript_coderun_mapper by blast
    show ?thesis
    proof (cases err)
      case (Some e)
      have "rounds_went (dockers (web_E L)) (Suc n) ?w [Error_note [err_field e] ''run script''] t"
        unfolding rounds_went_def
        by (intro disjI2 exI [of _ "[]"] exI [of _ e] exI [of _ "''run script''"]) (use bench in auto)
      with b Inr run Some less [OF bench] show ?thesis by (auto simp: noted_def)
    next
      case None
      let ?t = "t\<lparr>workers := workers t @ [v]\<rparr>"
      have ret: "Return_worker v t = Some ?t"
        using bench_room [OF bench Suc.prems cnt] by (simp add: Return_worker_def send_workers_def)
      have again: "bench ?t = bench ?w" using bench by (simp add: bench_def)
      let ?l = "(noted (finished out) (l\<lparr>site := (site l)\<lparr>coders := t\<rparr>\<rparr>))\<lparr>site := (site l)\<lparr>coders := ?t\<rparr>\<rparr>"
      have "roomy (coders (site ?l))" using Suc.prems cnt again by (simp add: roomy_bench)
      from Suc.IH [OF this] obtain w' ns where IH: "coderun_rounds n L ?l
          = (?l\<lparr>site := (site ?l)\<lparr>coders := w'\<rparr>, written := written ?l @ ns\<rparr>, Runs)"
        "rounds_went (dockers (web_E L)) n ?t ns w'" "roomy w'" by auto
      have "coderun_rounds (Suc n) L l = coderun_rounds n L ?l"
        using b Inr run None ret by (simp add: noted_def finished_def)
      with IH(1) have "coderun_rounds (Suc n) L l
          = (l\<lparr>site := (site l)\<lparr>coders := w'\<rparr>, written := written l @ (finished out # ns)\<rparr>, Runs)" by (simp add: noted_def)
      with rounds_went_step [OF IH(2) again] d IH(3) show ?thesis by auto
    qed
  qed
qed

text \<open>The rounds of scripts always come to an end, and one script that fails is enough to lose a worker: either
  all ten finish and everybody is back, or the rounds stop at the first error, where a failed script leaves its worker out for good,
  and a failed borrowing loses at most the worker whose inspection failed.  Nothing else of the server changes.\<close>
lemma coderun_scenario:
  assumes "roomy (coders (site l))" and "play_coderun L l = (l', end)"
  shows "end = Runs \<and> site l' = (site l)\<lparr>coders := coders (site l')\<rparr> \<and> (\<exists>ns. written l' = written l @ ns \<and>
    ((\<exists>outs. ns = map finished outs \<and> length outs = 10 \<and> bench (coders (site l')) = bench (coders (site l))) \<or>
     (\<exists>outs err msg. ns = map finished outs @ [Error_note [err_field err] msg] \<and> length outs < 10 \<and>
       (msg = ''run script'' \<and> (\<exists>v. bench (coders (site l)) = add_mset v (bench (coders (site l')))) \<or>
        msg = ''borrow worker'' \<and> (bench (coders (site l')) = bench (coders (site l)) \<or>
          (\<exists>v. bench (coders (site l)) = add_mset v (bench (coders (site l'))) \<and>
            InspectWorkerContainer (dockers (web_E L)) (dp (coders (site l))) (cId v) = Inl err))))))"
proof -
  obtain w' ns where run: "coderun_rounds 10 L l = (l\<lparr>site := (site l)\<lparr>coders := w'\<rparr>, written := written l @ ns\<rparr>, Runs)"
    and went: "rounds_went (dockers (web_E L)) 10 (coders (site l)) ns w'"
    using coderun_rounds_went [OF assms(1), of 10 L] by blast
  with assms(2) have "end = Runs" "site l' = (site l)\<lparr>coders := w'\<rparr>" "written l' = written l @ ns"
    by (auto simp: play_coderun_def)
  with went show ?thesis unfolding rounds_went_def by auto
qed

section \<open>What the brokers are asked\<close>

lemma add_pool_free:
  assumes "pools_live (pool_be (brokers_E L)) docs entry (breg (brk (site l)))"
    and "rows docs (breg (brk (site l))) (rname p) = None"
  shows "\<exists>r. add_pool L (RabbitMQPool p) l = (with_brk (\<lambda>b. b\<lparr>breg := r\<rparr>) l, Some (RabbitMQPool p), None) \<and>
    pools_live (pool_be (brokers_E L)) docs entry r \<and>
    rows docs r = (rows docs (breg (brk (site l))))(rname p \<mapsto> row_of (RabbitMQPool p))"
proof -
  let ?B = "brokers_E L" and ?s = "breg (brk (site l))"
  obtain r h err where a: "AddMessagePool (pool_be ?B) (blib ?B) (benv ?B) ?s (RabbitMQPool p) = (r, h, err)" by (rule prod_cases3)
  note inv = pools_liveD [OF assms(1)]
  have at: "h = Some (RabbitMQPool p)" "err = snd (addMessagePool (pool_be ?B) (pools ?s) (row_of (RabbitMQPool p)))"
    using a by (auto simp: AddMessagePool_def row_of_def Let_def split: prod.splits)
  have err: "err = None"
    using live_pools.add_live [OF inv(2), of "row_of (RabbitMQPool p)"] assms(2) at(2) by (simp add: row_of_def)
  have "rows docs r = (rows docs ?s)(rname p \<mapsto> row_of (RabbitMQPool p))"
    using AddMessagePool_rows(2) [OF inv(1) a err] at(1) by simp
  moreover have "pools_live (pool_be ?B) docs entry r" by (rule AddMessagePool_pools_live [OF assms(1) a])
  moreover have "add_pool L (RabbitMQPool p) l = (with_brk (\<lambda>b. b\<lparr>breg := r\<rparr>) l, Some (RabbitMQPool p), None)"
    using a at(1) err by (simp add: add_pool_def)
  ultimately show ?thesis by blast
qed

text \<open>Workers that leave the rows of the pools and the tasks that were handed over alone.\<close>

definition discreet :: "('c, 'h, 'v, 'w, 'p, 'q, 'e, 'g, 'm) lab_env \<Rightarrow> bool" where
  "discreet L \<longleftrightarrow> (\<forall>b. pools (breg (meanwhile L b)) = pools (breg b) \<and> handed (meanwhile L b) = handed b)"

lemma with_brk_simps [simp]:
  "brk (site (with_brk f l)) = f (brk (site l))" "written (with_brk f l) = written l"
  "store (site (with_brk f l)) = store (site l)" "coders (site (with_brk f l)) = coders (site l)"
  by (simp_all add: with_brk_def)

lemma pools_live_pools: "pools r = pools s \<Longrightarrow> pools_live be docs entry r = pools_live be docs entry s"
  by (simp add: pools_live_def pools_inv_def)

text \<open>The scenario of the brokers: while the database answers and the name is free, it adds the pool, and hands the scheduler
  first a read task and then a write task of the three messages, both of that very pool; the same with Kafka, when no broker
  answers, ends in a nil pointer, with the error only in the log and no task handed over.\<close>
lemma brokers_scenario:
  assumes "pools_live (pool_be (brokers_E L)) docs entry (breg (brk (site l)))" and "discreet L"
    and "rows docs (breg (brk (site l))) ''test-pool'' = None"
    and "CreateBrokerEndpoint (blib (brokers_E L)) (benv (brokers_E L)) (breg (brk (site l)))
      (KafkaPool (NewKafkaMessagePool ''test-pool-kafka'' ''test-topic'')) = (r, mp, Some err)"
  shows "(\<exists>l'. play_brokers L l = (l', Runs) \<and>
      handed (brk (site l')) = handed (brk (site l)) @
        [ReadTask (RabbitMQPool (NewRabbitMQMessagePool ''test-pool'' ''test-mock-queue'')),
         WriteTask (RabbitMQPool (NewRabbitMQMessagePool ''test-pool'' ''test-mock-queue'')) [''40'', ''41'', ''42'']] \<and>
      written l' = written l @ [Info [(''id'', Text ''rabbitmq:test-pool:test-mock-queue:read'')] ''start reading'']) \<and>
    (\<exists>l'. play_kafka L l = (l', Panicked ''nil pointer dereference'') \<and> handed (brk (site l')) = handed (brk (site l)) \<and>
      written l' = written l @ [Error_note [err_field err] ''add new pool failed''])"
proof
  let ?p = "NewRabbitMQMessagePool ''test-pool'' ''test-mock-queue''" and ?be = "pool_be (brokers_E L)"
  have name: "rname ?p = ''test-pool''" "GetName (RabbitMQPool ?p) = ''test-pool''" by (simp_all add: NewRabbitMQMessagePool_def)
  have id: "readTaskId (RabbitMQPool ?p) = ''rabbitmq:test-pool:test-mock-queue:read''" by code_simp
  have "pool_ok (RabbitMQPool ?p)" by code_simp
  then have again: "createFromDatabase (row_of (RabbitMQPool ?p)) = Inr (RabbitMQPool ?p)" by (rule pool_from_row)
  obtain r where a: "add_pool L (RabbitMQPool ?p) l = (with_brk (\<lambda>b. b\<lparr>breg := r\<rparr>) l, Some (RabbitMQPool ?p), None)"
    and r: "pools_live ?be docs entry r" and row: "rows docs r ''test-pool'' = Some (row_of (RabbitMQPool ?p))"
    using add_pool_free [OF assms(1), of ?p] assms(3) name by auto
  let ?b = "meanwhile L ((brk (site l))\<lparr>breg := r, handed := handed (brk (site l)) @ [ReadTask (RabbitMQPool ?p)]\<rparr>)"
  have b: "pools (breg ?b) = pools r" "handed ?b = handed (brk (site l)) @ [ReadTask (RabbitMQPool ?p)]"
    using assms(2) by (simp_all add: discreet_def)
  then have "pools_live ?be docs entry (breg ?b)" "rows docs (breg ?b) ''test-pool'' = Some (row_of (RabbitMQPool ?p))"
    using r row by (simp_all add: pools_live_pools [of "breg ?b" r] table_def)
  from GetMessagePool_live [OF this(1), of "''test-pool''"] this(2)
  have "snd (GetMessagePool ?be (breg ?b) ''test-pool'') = Inr (RabbitMQPool ?p)" by (simp only: option.case again)
  then obtain u where "GetMessagePool ?be (breg ?b) ''test-pool'' = (u, Inr (RabbitMQPool ?p))" by (metis prod.collapse)
  with a b(2) assms(2) name id have "\<exists>l'. play_pool (RabbitMQPool ?p) L l = (l', Runs) \<and>
      handed (brk (site l')) = handed (brk (site l)) @ [ReadTask (RabbitMQPool ?p), WriteTask (RabbitMQPool ?p) [''40'', ''41'', ''42'']] \<and>
      written l' = written l @ [Info [(''id'', Text ''rabbitmq:test-pool:test-mock-queue:read'')] ''start reading'']"
    by (simp add: play_pool_def schedule_on_def sleep_def log_failure_def noted_def discreet_def)
  then show "\<exists>l'. play_brokers L l = (l', Runs) \<and>
      handed (brk (site l')) = handed (brk (site l)) @ [ReadTask (RabbitMQPool ?p), WriteTask (RabbitMQPool ?p) [''40'', ''41'', ''42'']] \<and>
      written l' = written l @ [Info [(''id'', Text ''rabbitmq:test-pool:test-mock-queue:read'')] ''start reading'']"
    by (simp add: play_brokers_def)
next
  show "\<exists>l'. play_kafka L l = (l', Panicked ''nil pointer dereference'') \<and> handed (brk (site l')) = handed (brk (site l)) \<and>
      written l' = written l @ [Error_note [err_field err] ''add new pool failed'']"
    using assms(4) by (simp add: play_kafka_def play_pool_def add_pool_def AddMessagePool_def schedule_on_def log_failure_def noted_def
        with_brk_def)
qed

section \<open>The witnesses\<close>

text \<open>A playground over memory: every worker runs, no script and no broker does.\<close>

abbreviation demo_lab where
  "demo_lab \<equiv> \<lparr>web_E = demo_web_env\<lparr>web_http := (\<lambda>_ _ _. Inr (400, Inr ''SyntaxError'')),
       bro := demo_benv\<lparr>blib := quiet_lib\<lparr>NewAdminClient := (\<lambda>_ _. Some (GoError ''no broker''))\<rparr>\<rparr>\<rparr>,
     server_cfg = Some \<lparr>SAddr = ''0.0.0.0:1337'', AcceptTimeout = 1000, ResponseTimeout = 1000, DeployProduction = False\<rparr>,
     at_time = ''1'', fs_mkdir = (\<lambda>_. None), fs_root = Inr ''/srv'', own_headers = (\<lambda>_ _. []), trip_of = (\<lambda>_ _. Well),
     cut_off = (\<lambda>_ _. None), refusal = (\<lambda>_. ''invalid''), undecodable = (\<lambda>_. GoError ''invalid''), meanwhile = (\<lambda>b. b)\<rparr>"

abbreviation demo_site :: "(Route list, (string \<times> Route) list, nat, unit, MessagePool list, (string \<times> MessagePool) list,
    ESBRecord list, (string \<times> ESBRecord) list, TaskMessage list) web" where
  "demo_site \<equiv> demo_web\<lparr>coders := blank_watcher\<lparr>WorkerCnt := 1, workers := [\<lparr>port = ''1'', cId = ''''\<rparr>]\<rparr>\<rparr>"

lemma static_paths_few:
  "static_paths Map.empty ps \<longleftrightarrow> ps = []" "static_paths [p \<mapsto> Static x] ps \<longleftrightarrow> ps = [p]"
proof -
  show "static_paths Map.empty ps \<longleftrightarrow> ps = []" by (auto simp: static_paths_def)
  have "distinct ps \<and> set ps = {p} \<longleftrightarrow> ps = [p]"
    by (cases ps; cases "tl ps") (auto simp: insert_eq_iff)
  then show "static_paths [p \<mapsto> Static x] ps \<longleftrightarrow> ps = [p]" by (simp add: static_paths_def)
qed

lemma api_scenario_witness:
  "\<exists>s. play_server_api demo_lab \<lparr>site = demo_site, written = []\<rparr> = (\<lparr>site = s, written = [
      got 200 (JStr ''Ping yourself, I have another work!''),
      got 400 (JObj [(''error'', JStr ''no such path: /test_url'')]),
      got 200 (listed []),
      Info [(''status'', Num 200), (''body'', Text ''Static endpoint successfully added!'')] ''POST successfully'',
      got 200 (JStr ''hello''),
      got 200 (listed [''/test_url'']),
      Info [(''status'', Num 204), (''body'', Text '''')] ''DELETE success'',
      got 400 (JObj [(''error'', JStr ''no such path: /test_url'')]),
      got 200 (listed [])]\<rparr>, Runs)"
proof -
  have holds: "holds (web_E demo_lab) mem_docs map_of (site \<lparr>site = demo_site, written = []\<rparr>) Map.empty"
    using mem_endpoints_live by (auto simp: holds_def endpoints_def table_def)
  have "smooth demo_lab" by (simp add: smooth_def)
  from api_scenario [OF this _ _ holds] show ?thesis by (auto simp: static_paths_few)
qed

lemma coderun_scenario_witness:
  "\<exists>l'. play_coderun demo_lab \<lparr>site = demo_site, written = []\<rparr> = (l', Runs) \<and>
     written l' = [Error_note [err_field ErrCodeRunFailed] ''run script''] \<and> size (bench (coders (site l'))) = 0"
proof -
  let ?l = "\<lparr>site = demo_site, written = []\<rparr>"
  obtain l' "end" where run: "play_coderun demo_lab ?l = (l', end)" by force
  have room: "roomy (coders (site ?l))" by (simp add: roomy_def blank_watcher_def)
  have "fst (play_coderun demo_lab ?l)
      = ?l\<lparr>site := (site ?l)\<lparr>coders := (coders (site ?l))\<lparr>workers := []\<rparr>\<rparr>, written := [Error_note [err_field ErrCodeRunFailed] ''run script'']\<rparr>"
    by (simp add: play_coderun_def eval_nat_numeral BorrowWorker_def BorrowWorker_loop.simps borrowCheck_def mem_docker_def
        RunScript_def noted_def)
  with run have w: "written l' = [Error_note [err_field ErrCodeRunFailed] ''run script'']" by simp
  from coderun_scenario [OF room run] w have "end = Runs" "\<exists>v. bench (coders (site ?l)) = add_mset v (bench (coders (site l')))"
    by (auto simp: finished_def append_eq_Cons_conv Cons_eq_append_conv)
  moreover have "size (bench (coders (site ?l))) = 1" by (simp add: bench_def blank_watcher_def)
  ultimately show ?thesis using run w by auto
qed

lemma brokers_scenario_witness:
  "\<exists>l'. play_brokers demo_lab \<lparr>site = demo_site, written = []\<rparr> = (l', Runs) \<and> length (handed (brk (site l'))) = 2"
proof -
  let ?l = "\<lparr>site = demo_site, written = []\<rparr>"
  have live: "pools_live (pool_be (brokers_E demo_lab)) mem_docs map_of (breg (brk (site ?l)))"
    using empty_registry_live [of 0 "()"] by (simp add: brokers_E_def demo_benv_def demo_brokers_def)
  have quiet: "discreet demo_lab" by (simp add: discreet_def)
  have free: "rows mem_docs (breg (brk (site ?l))) ''test-pool'' = None"
    by (simp add: demo_brokers_def empty_registry_def table_def)
  have "\<exists>r mp err. CreateBrokerEndpoint (blib (brokers_E demo_lab)) (benv (brokers_E demo_lab)) (breg (brk (site ?l)))
      (KafkaPool (NewKafkaMessagePool ''test-pool-kafka'' ''test-topic'')) = (r, mp, Some err)"
    by (simp add: brokers_E_def demo_benv_def demo_brokers_def empty_registry_def kCreateBrokerEndpoint_def
        GetKafkaConnectionConfig_def Let_def)
  then obtain r mp err where "CreateBrokerEndpoint (blib (brokers_E demo_lab)) (benv (brokers_E demo_lab)) (breg (brk (site ?l)))
      (KafkaPool (NewKafkaMessagePool ''test-pool-kafka'' ''test-topic'')) = (r, mp, Some err)" by blast
  from brokers_scenario [OF live quiet free this] show ?thesis by (auto simp: demo_brokers_def)
qed

section \<open>The program\<close>

text \<open>The scenarios in the process that was started, with all three parts switched on: the state and the environment of its server,
  its configuration, its disk.\<close>

definition lab_in :: "('t, 's, 'r, 'rh, 'm, 'e, 'eh, 'p, 'ph, 'v) machine \<Rightarrow> ('t, 's, 'r, 'rh, 'm, 'e, 'eh, 'p, 'ph, 'v, 'k) process
    \<Rightarrow> ('r, 'rh, 'v, 'w, 'p, 'ph, 'e, 'eh, 'm) lab_env \<Rightarrow> bool" where
  "lab_in M c L \<longleftrightarrow> (\<exists>plib http lib sys. web_E L = env_of M plib http lib sys c) \<and>
     server_cfg L = GetServerConfig (config c) \<and> fs_mkdir L = mkdir M \<and> fs_root L = proot M \<and>
     UseServer (Components (config c)) \<and> UseBrokers (Components (config c)) \<and> UseCoderun (Components (config c))"

text \<open>
  \<open>main\<close>: how the scenarios ended, and how the deferred \<open>Stop\<close> did, which runs after a panic too but not when the process
  exits or never comes back.
\<close>

inductive playground_main :: "('t, 's, 'r, 'rh, 'm, 'e, 'eh, 'p, 'ph, 'v) machine
    \<Rightarrow> ('r, 'rh, 'v, 'w, 'p, 'ph, 'e, 'eh, 'm) lab_env \<Rightarrow> 'w \<Rightarrow> fsys \<Rightarrow> ('t, 's, 'r, 'rh, 'm, 'e, 'eh, 'p, 'ph, 'v, 'k) process
    \<Rightarrow> ('t, 's, 'r, 'rh, 'm, 'e, 'eh, 'p, 'ph, 'v, 'k) process \<Rightarrow> fate \<Rightarrow> fate option \<Rightarrow> bool" for M L b0 fs0 where
  p_failed: "components_Start M c = (d, end) \<Longrightarrow> end \<noteq> Runs \<Longrightarrow> playground_main M L b0 fs0 c d end None"
| p_gone: "components_Start M c = (d, Runs) \<Longrightarrow> lab_in M d L \<Longrightarrow> plays L \<lparr>site = web_of b0 fs0 d, written = []\<rparr> = (l, end) \<Longrightarrow>
    end = Exited \<or> end = Hangs \<Longrightarrow> worked M d e \<Longrightarrow> playground_main M L b0 fs0 c e end None"
| p_played: "components_Start M c = (d, Runs) \<Longrightarrow> lab_in M d L \<Longrightarrow> plays L \<lparr>site = web_of b0 fs0 d, written = []\<rparr> = (l, end) \<Longrightarrow>
    end = Runs \<or> end = Panicked m \<Longrightarrow> worked M d e \<Longrightarrow> components_Stop M e (f, how) \<Longrightarrow>
    playground_main M L b0 fs0 c f end (Some how)"

text \<open>However its scenarios end, also with a panic in one of them, the playground takes down what it started when the deferred
  \<open>Stop\<close> comes through: the server does not listen, every worker of the scheduler has left, and no container is left, the one a
  scenario forgot to give back included.\<close>
lemma playground_takes_down:
  assumes docker: "\<And>cfg cc. container_law (docker_of M cfg cc) present used" "\<And>cfg cc. fresh_ports (docker_of M cfg cc) used"
      "\<And>cfg cc. starts (docker_of M cfg cc)" and "newClient M = Inr d0"
    and mim: "\<And>w s w'. stop (mims M) w s = Return w' \<Longrightarrow> running w' = running w - set_option s"
      "\<And>w w' s. start (mims M) w = (w', Inr s) \<Longrightarrow> running w' = insert s (running w)"
    and main: "playground_main M L b0 fs0 (zero_process w) f end (Some Runs)"
    and "\<And>v. watcher f = Some v \<Longrightarrow> dom (workerByPort v) \<subseteq> set (port_order M)"
  shows "(end = Runs \<or> (\<exists>m. end = Panicked m)) \<and>
    (\<forall>s. httpd f = Some s \<longrightarrow> \<not> listening s) \<and>
    (\<forall>t. scheduler f = Some t \<longrightarrow> set (r_workers t) \<subseteq> {Gone} \<and> set (w_workers t) \<subseteq> {Gone}) \<and>
    (\<forall>v. watcher f = Some v \<longrightarrow> present (dp v) \<subseteq> present d0)"
proof -
  from main obtain c e where life: "components_Start M (zero_process w) = (c, Runs)" "worked M c e" "components_Stop M e (f, Runs)"
    and "end = Runs \<or> (\<exists>m. end = Panicked m)"
    by (cases rule: playground_main.cases) auto
  moreover have "(\<forall>s. httpd f = Some s \<longrightarrow> \<not> listening s) \<and>
    (\<forall>t. scheduler f = Some t \<longrightarrow> set (r_workers t) \<subseteq> {Gone} \<and> set (w_workers t) \<subseteq> {Gone}) \<and>
    (\<forall>v. watcher f = Some v \<longrightarrow> present (dp v) \<subseteq> present d0) \<and> (\<exists>s. running (mongods (mdata f)) = insert s (running w))"
    by (rule started_takes_down [where running = running and used = used, OF _ _ _ assms(4) _ _ life]) (fact docker mim assms(8))+
  ultimately show ?thesis by blast
qed

section \<open>The scenarios end\<close>

text \<open>A stage that keeps an invariant of the server and comes to an end, maybe in a nil pointer.\<close>

definition settles :: "(('c, 'h, 'v, 'w, 'p, 'q, 'e, 'g, 'm) web \<Rightarrow> bool)
    \<Rightarrow> (('c, 'h, 'v, 'w, 'p, 'q, 'e, 'g, 'm) lab \<Rightarrow> ('c, 'h, 'v, 'w, 'p, 'q, 'e, 'g, 'm) lab \<times> fate) \<Rightarrow> bool" where
  "settles ok g \<longleftrightarrow> (\<forall>l l' end. ok (site l) \<longrightarrow> g l = (l', end) \<longrightarrow>
     ok (site l') \<and> (end = Runs \<or> end = Panicked ''nil pointer dereference''))"

lemma settlesD: "settles ok g \<Longrightarrow> ok (site l) \<Longrightarrow> g l = (l', end) \<Longrightarrow>
    ok (site l') \<and> (end = Runs \<or> end = Panicked ''nil pointer dereference'')"
  unfolding settles_def by blast

lemma settles_stages: "list_all (settles ok) fs \<Longrightarrow> settles ok (run_stages fs)"
proof (induction fs)
  case (Cons f fs)
  then have f: "settles ok f" and fs: "settles ok (run_stages fs)" by simp_all
  show ?case
    unfolding settles_def
  proof (intro allI impI)
    fix l l' "end" assume l: "ok (site l)" and run: "run_stages (f # fs) l = (l', end)"
    obtain k x where k: "f l = (k, x)" by force
    note s = settlesD [OF f l k]
    show "ok (site l') \<and> (end = Runs \<or> end = Panicked ''nil pointer dereference'')"
    proof (cases "x = Runs")
      case True
      with run k have "run_stages fs k = (l', end)" by simp
      with settlesD [OF fs] s show ?thesis by blast
    next
      case False
      with s have "x = Panicked ''nil pointer dereference''" by simp
      with run k have "l' = k" "end = x" by simp_all
      with s show ?thesis by simp
    qed
  qed
qed (simp add: settles_def)

lemma noted_site [simp]: "site (noted n l) = site l"
  by (simp add: noted_def)

lemma log_failure_site [simp]: "site (log_failure err msg l) = site l"
  by (simp add: log_failure_def split: option.split)

lemma exchange_settles:
  assumes ok: "web_ok (web_E L) docs entry obs (site l)" and fwd: "\<And>x. forward (proxies (web_E L)) x \<noteq> []"
    and run: "exchange L m url b l = (l', a)"
  shows "web_ok (web_E L) docs entry obs (site l') \<and> (\<forall>f. a \<noteq> Ends f)"
proof -
  obtain t r rs where "serve (web_E L) (at_time L) (site l) (request_for L m url b) = Some (t, Replies (r # rs))"
    "web_ok (web_E L) docs entry obs t" using serve_ok [OF ok fwd] by blast
  with ok run show ?thesis by (auto simp: exchange_def split: trip.splits prod.splits)
qed

lemma requests_settle:
  assumes "\<And>x. forward (proxies (web_E L)) x \<noteq> []"
  shows "settles (web_ok (web_E L) docs entry obs) (do_get url L)" and "settles (web_ok (web_E L) docs entry obs) (do_post url b L)"
    and "settles (web_ok (web_E L) docs entry obs) (do_delete url L)"
  using exchange_settles [OF _ assms]
  by (fastforce simp: settles_def do_get_def do_post_def do_delete_def split: prod.splits answer.splits option.splits sum.splits)+

lemma api_settles:
  assumes "\<And>x. forward (proxies (web_E L)) x \<noteq> []"
  shows "settles (web_ok (web_E L) docs entry obs) (play_server_api L)"
proof -
  note stages = settles_stages [of "web_ok (web_E L) docs entry obs"]
  show ?thesis
  proof (cases "server_cfg L")
    case None
    then show ?thesis by (auto simp: settles_def play_server_api_def)
  next
    case (Some cfg)
    show ?thesis
      unfolding play_server_api_def Let_def Some option.case
      by (rule stages) (simp add: requests_settle [OF assms])
  qed
qed

lemma coderun_settles: "settles (web_ok (web_E L) docs entry obs) (play_coderun L)"
  unfolding settles_def play_coderun_def
proof (intro allI impI)
  fix l l' "end" assume ok: "web_ok (web_E L) docs entry obs (site l)" and run: "coderun_rounds 10 L l = (l', end)"
  from coderun_rounds_went [OF web_okD(3) [OF ok], of 10 L] run obtain w' where "site l' = (site l)\<lparr>coders := w'\<rparr>" "roomy w'" "end = Runs"
    by auto
  with ok show "web_ok (web_E L) docs entry obs (site l') \<and> (end = Runs \<or> end = Panicked ''nil pointer dereference'')"
    by (simp add: web_ok_def)
qed

text \<open>The scenarios of the brokers, with workers that keep the invariant of the stores.\<close>

lemma with_brk_ok:
  "web_ok E docs entry obs (site l) \<Longrightarrow> brokers_inv (bro E) obs (f (brk (site l))) \<Longrightarrow>
    web_ok E docs entry obs (site (with_brk f l))"
  by (simp add: web_ok_def with_brk_def)

lemma brokers_inv_parts:
  "brokers_inv E obs b \<Longrightarrow> brokers_inv E obs (b\<lparr>handed := hs\<rparr>)"
  "brokers_inv E obs b \<Longrightarrow> pools_inv (pool_be E) (pool_docs obs) (pool_entry obs) r \<Longrightarrow> brokers_inv E obs (b\<lparr>breg := r\<rparr>)"
  "brokers_inv E obs b \<Longrightarrow> cached_inv (esb_be E) (=) PoolNameIn (esb_docs obs) (esb_entry obs) e \<Longrightarrow> brokers_inv E obs (b\<lparr>besb := e\<rparr>)"
  by (simp_all add: brokers_inv_def)

lemma brokers_stages_settle:
  assumes "\<And>b. brokers_inv (brokers_E L) obs b \<Longrightarrow> brokers_inv (brokers_E L) obs (meanwhile L b)"
  shows "settles (web_ok (web_E L) docs entry obs) (sleep L)"
    and "settles (web_ok (web_E L) docs entry obs) (schedule_on handler task)"
    and "settles (web_ok (web_E L) docs entry obs) (\<lambda>l. (noted n l, Runs))"
  using assms
  by (auto simp: settles_def sleep_def schedule_on_def brokers_E_def intro!: with_brk_ok brokers_inv_parts(1)
      intro: web_okD(4) split: option.splits)

lemma schedule_on_ok: "web_ok E docs entry obs (site l) \<Longrightarrow> web_ok E docs entry obs (site (fst (schedule_on h t l)))"
  by (auto simp: schedule_on_def intro!: with_brk_ok brokers_inv_parts(1) intro: web_okD(4) split: option.split)

lemma add_pool_ok:
  assumes ok: "web_ok (web_E L) docs entry obs (site l)" and run: "add_pool L p l = (l', h, err)"
  shows "web_ok (web_E L) docs entry obs (site l')"
proof -
  obtain r h' err' where a: "AddMessagePool (pool_be (brokers_E L)) (blib (brokers_E L)) (benv (brokers_E L)) (breg (brk (site l))) p
      = (r, h', err')" by (rule prod_cases3)
  have inv: "brokers_inv (brokers_E L) obs (brk (site l))" using web_okD(4) [OF ok] by (simp add: brokers_E_def)
  then have "pools_inv (pool_be (brokers_E L)) (pool_docs obs) (pool_entry obs) (breg (brk (site l)))" by (simp add: brokers_inv_def)
  from with_brk_ok [OF ok, of "\<lambda>b. b\<lparr>breg := r\<rparr>"] brokers_inv_parts(2) [OF inv AddMessagePool_rows(1) [OF this a]] run a
  show ?thesis by (auto simp: add_pool_def brokers_E_def)
qed

lemma play_pool_settles:
  assumes "\<And>b. brokers_inv (brokers_E L) obs b \<Longrightarrow> brokers_inv (brokers_E L) obs (meanwhile L b)"
  shows "settles (web_ok (web_E L) docs entry obs) (play_pool p L)"
proof -
  let ?ok = "web_ok (web_E L) docs entry obs"
  note stage = brokers_stages_settle [OF assms]
  let ?again = "\<lambda>l. let (r, res) = GetMessagePool (pool_be (brokers_E L)) (breg (brk (site l))) (GetName p);
               l = with_brk (\<lambda>b. b\<lparr>breg := r\<rparr>) l in
            case res of
              Inl err \<Rightarrow> schedule_on None ReadTask (log_failure (Some err) ''get pool failed'' l)
            | Inr handler \<Rightarrow> schedule_on (Some handler) (\<lambda>p. WriteTask p [''40'', ''41'', ''42'']) l"
  have again: "settles ?ok ?again"
    unfolding settles_def
  proof (intro allI impI)
    fix l l' "end" assume ok: "?ok (site l)" and run: "?again l = (l', end)"
    obtain r res where g: "GetMessagePool (pool_be (brokers_E L)) (breg (brk (site l))) (GetName p) = (r, res)" by force
    have inv: "brokers_inv (brokers_E L) obs (brk (site l))" using web_okD(4) [OF ok] by (simp add: brokers_E_def)
    then have "pools_inv (pool_be (brokers_E L)) (pool_docs obs) (pool_entry obs) (breg (brk (site l)))" by (simp add: brokers_inv_def)
    from with_brk_ok [OF ok, of "\<lambda>b. b\<lparr>breg := r\<rparr>"] brokers_inv_parts(2) [OF inv GetMessagePool_rows(1) [OF this g]]
    have "?ok (site (with_brk (\<lambda>b. b\<lparr>breg := r\<rparr>) l))" by (simp add: brokers_E_def)
    moreover have "l' = (case res of Inl err \<Rightarrow> fst (schedule_on None ReadTask (log_failure (Some err) ''get pool failed''
        (with_brk (\<lambda>b. b\<lparr>breg := r\<rparr>) l))) | Inr h \<Rightarrow> fst (schedule_on (Some h) (\<lambda>p. WriteTask p [''40'', ''41'', ''42''])
        (with_brk (\<lambda>b. b\<lparr>breg := r\<rparr>) l)))" and "end = (case res of Inl _ \<Rightarrow> Panicked ''nil pointer dereference'' | Inr _ \<Rightarrow> Runs)"
      using run g by (cases res; simp add: schedule_on_def; blast)+
    ultimately show "?ok (site l') \<and> (end = Runs \<or> end = Panicked ''nil pointer dereference'')"
      by (cases res) (auto simp del: fst_conv intro!: schedule_on_ok)
  qed
  show ?thesis
    unfolding settles_def
  proof (intro allI impI)
    fix l l' "end" assume ok: "?ok (site l)" and run: "play_pool p L l = (l', end)"
    obtain k h err where a: "add_pool L p l = (k, h, err)" by (rule prod_cases3)
    let ?fs = "[schedule_on h ReadTask, \<lambda>l. (noted (Info [(''id'', Text (readTaskId (the h)))] ''start reading'') l, Runs), sleep L,
      ?again, sleep L]"
    have "list_all (settles ?ok) ?fs" using stage again by simp
    note all = settles_stages [OF this]
    have "?ok (site (log_failure err ''add new pool failed'' k))" using add_pool_ok [OF ok a] by simp
    moreover have "run_stages ?fs (log_failure err ''add new pool failed'' k) = (l', end)"
      using run a unfolding play_pool_def by simp
    ultimately show "?ok (site l') \<and> (end = Runs \<or> end = Panicked ''nil pointer dereference'')"
      by (rule settlesD [OF all])
  qed
qed

lemma bdisk_ok: "web_ok E docs entry obs (site l) \<Longrightarrow> web_ok E docs entry obs (site (with_brk (\<lambda>b. b\<lparr>bdisk := d\<rparr>) l))"
  by (intro with_brk_ok) (simp_all add: brokers_inv_disk web_okD(4))

lemma files_settle: "settles (web_ok (web_E L) docs entry obs) (play_file_storage L)"
  by (auto simp: settles_def play_file_storage_def Let_def split_beta intro!: bdisk_ok split: sum.splits option.splits)

lemma or_return_settles:
  assumes "\<And>l l' err. ok (site l) \<Longrightarrow> f l = (l', err) \<Longrightarrow> ok (site l')" and "settles ok g"
  shows "settles ok (or_return msg f (\<lambda>err msg. noted (Error_note [err_field err] msg)) g)"
  unfolding settles_def
proof (intro allI impI)
  fix l l' "end" assume l: "ok (site l)" and run: "or_return msg f (\<lambda>err msg. noted (Error_note [err_field err] msg)) g l = (l', end)"
  obtain k err where k: "f l = (k, err)" by force
  with run assms(1) [OF l k] settlesD [OF assms(2), of k]
  show "ok (site l') \<and> (end = Runs \<or> end = Panicked ''nil pointer dereference'')"
    by (cases err) (auto simp: or_return_def)
qed

lemma link_pools_ok:
  assumes ok: "web_ok (web_E L) docs entry obs (site l)" and run: "link_pools L a b name l = (l', err)"
  shows "web_ok (web_E L) docs entry obs (site l')"
proof -
  let ?rec = "\<lparr>PoolNameIn = a, PoolNameOut = b, MapperScriptName = name\<rparr>"
  obtain e err' where a: "addESBRecord (esb_be (brokers_E L)) (besb (brk (site l))) ?rec = (e, err')" by force
  have inv: "brokers_inv (brokers_E L) obs (brk (site l))" using web_okD(4) [OF ok] by (simp add: brokers_E_def)
  then have "cached_inv (esb_be (brokers_E L)) (=) PoolNameIn (esb_docs obs) (esb_entry obs) (besb (brk (site l)))"
    by (simp add: brokers_inv_def)
  from with_brk_ok [OF ok, of "\<lambda>s. s\<lparr>besb := e\<rparr>"] brokers_inv_parts(3) [OF inv esb_store.add_inv [OF this a]] run a
  show ?thesis by (simp add: link_pools_def AddEsbRecordWithMapper_def brokers_E_def)
qed

lemma write_script_ok:
  "web_ok (web_E L) docs entry obs (site l) \<Longrightarrow> write_script L fs name code l = (l', err) \<Longrightarrow> web_ok (web_E L) docs entry obs (site l')"
  by (auto simp: write_script_def split_beta intro!: bdisk_ok)

lemma esb_settles:
  assumes "\<And>b. brokers_inv (brokers_E L) obs b \<Longrightarrow> brokers_inv (brokers_E L) obs (meanwhile L b)"
  shows "settles (web_ok (web_E L) docs entry obs) (play_esb L)"
proof -
  let ?ok = "web_ok (web_E L) docs entry obs"
  note stage = brokers_stages_settle [OF assms]
  show ?thesis
    unfolding settles_def
  proof (intro allI impI)
    fix l l' "end" assume ok: "?ok (site l)" and run: "play_esb L l = (l', end)"
    let ?new = "\<lambda>n. RabbitMQPool (NewRabbitMQMessagePool (''test-pool-'' @ n) (''test-mock-queue-'' @ n))"
    obtain k1 h1 e1 where a1: "add_pool L (?new ''1'') l = (k1, h1, e1)" by (rule prod_cases3)
    obtain k2 h2 e2 where a2: "add_pool L (?new ''2'') k1 = (k2, h2, e2)" by (rule prod_cases3)
    obtain k3 h3 e3 where a3: "add_pool L (?new ''3'') k2 = (k3, h3, e3)" by (rule prod_cases3)
    have k3: "?ok (site k3)" using add_pool_ok [OF add_pool_ok [OF add_pool_ok [OF ok a1] a2] a3] .
    let ?failed = "\<lambda>err msg. noted (Error_note [err_field err] msg)"
    let ?fs = "[schedule_on h2 ReadTask, schedule_on h3 ReadTask, sleep L,
      schedule_on h2 (\<lambda>p. WriteTask p []), schedule_on h3 (\<lambda>p. WriteTask p [''msg1'', ''msg2'', ''msg3'']), sleep L,
      schedule_on h1 ReadTask, schedule_on h1 ReadTask, sleep L]"
    let ?all = "\<lambda>fs. or_return ''write to file'' (write_script L fs ''test-mapper-basic.py'' SCRIPT_BASIC) ?failed
         (or_return ''write to file'' (write_script L fs ''test-mapper-hard.py'' SCRIPT_HARD) ?failed
         (or_return ''add esb record'' (link_pools L ''test-pool-2'' ''test-pool-1'' ''test-mapper-basic.py'') ?failed
         (or_return ''add esb record'' (link_pools L ''test-pool-3'' ''test-pool-1'' ''test-mapper-hard.py'') ?failed
         (run_stages ?fs))))"
    have "list_all (settles ?ok) ?fs" using stage by simp
    then have "settles ?ok (?all fs)" for fs
      by (intro or_return_settles settles_stages) (assumption | erule (1) write_script_ok | erule (1) link_pools_ok)+
    note all = settlesD [OF this k3]
    show "?ok (site l') \<and> (end = Runs \<or> end = Panicked ''nil pointer dereference'')"
    proof (cases "NewFileStorageDriver (fs_mkdir L) (fs_root L) ''coderun''")
      case (Inl err)
      with run a1 a2 a3 have "l' = k3" "end = Panicked ''nil pointer dereference''" by (simp_all add: play_esb_def)
      with k3 show ?thesis by simp
    next
      case (Inr fs)
      from run have "?all fs k3 = (l', end)" by (simp only: play_esb_def Let_def a1 a2 a3 prod.case Inr sum.case)
      with all show ?thesis by blast
    qed
  qed
qed

lemma plays_end:
  assumes "web_ok (web_E L) docs entry obs (site l)" and "\<And>x. forward (proxies (web_E L)) x \<noteq> []"
    and "\<And>b. brokers_inv (bro (web_E L)) obs b \<Longrightarrow> brokers_inv (bro (web_E L)) obs (meanwhile L b)"
    and "plays L l = (l', end)"
  shows "web_ok (web_E L) docs entry obs (site l') \<and> (end = Runs \<or> end = Panicked ''nil pointer dereference'')"
proof -
  have b: "brokers_inv (brokers_E L) obs b \<Longrightarrow> brokers_inv (brokers_E L) obs (meanwhile L b)" for b
    using assms(3) by (simp add: brokers_E_def)
  have "list_all (settles (web_ok (web_E L) docs entry obs)) [play_brokers L, play_file_storage L, play_coderun L, play_esb L,
      play_server_api L, play_kafka L]"
    by (simp add: play_brokers_def play_kafka_def play_pool_settles [OF b] files_settle coderun_settles esb_settles [OF b]
        api_settles [OF assms(2)])
  from settlesD [OF settles_stages [OF this] assms(1)] assms(4) show ?thesis by (simp only: plays_def)
qed

text \<open>The playground comes to an end: on a server that meets its invariant, whatever the database, the network, the brokers,
  Docker, the scripts and the disk answer, its six scenarios run through, or one of them panics on a pool that could not
  be had or on a section of the configuration that is missing; nothing blocks or ends the process, and the server meets
  its invariant afterwards.\<close>
lemma playground_ends:
  assumes "web_ok (web_E L) docs entry obs (site l)" and "\<And>x. forward (proxies (web_E L)) x \<noteq> []"
    and "\<And>b. brokers_inv (bro (web_E L)) obs b \<Longrightarrow> brokers_inv (bro (web_E L)) obs (meanwhile L b)"
    and "plays L l = (l', end)"
  shows "web_ok (web_E L) docs entry obs (site l') \<and> (end = Runs \<or> end = Panicked ''nil pointer dereference'')"
  by (rule plays_end [where L = L and l = l and obs = obs, OF assms(1) _ _ assms(4)]) (fact assms(2,3))+

lemma playground_ends_witness:
  "\<exists>l' end. plays demo_lab \<lparr>site = demo_site, written = []\<rparr> = (l', end) \<and>
     (end = Runs \<or> end = Panicked ''nil pointer dereference'')"
proof -
  obtain l' "end" where run: "plays demo_lab \<lparr>site = demo_site, written = []\<rparr> = (l', end)" by force
  have "brokers_inv (demo_benv\<lparr>blib := l\<rparr>) demo_obs b = brokers_inv demo_benv demo_obs b" for l b
    by (simp add: brokers_inv_def)
  then have ok: "web_ok (web_E demo_lab) mem_docs map_of demo_obs (site \<lparr>site = demo_site, written = []\<rparr>)"
    by (simp add: web_ok_def mem_endpoints_inv all_stored_def demo_brokers_inv roomy_def blank_watcher_def)
  have "forward (proxies (web_E demo_lab)) x \<noteq> []" for x by simp
  from playground_ends [OF ok this _ run] run show ?thesis by auto
qed

text \<open>The machine of \<open>Control\<close>, with the scenarios played on it.\<close>

text \<open>The scenarios played in the machine of \<open>Control\<close>.\<close>

lemma playground_takes_down_witness:
  "\<exists>L :: (_, _, _, unit, _, _, _, _, _) lab_env. \<exists>(f :: (_, _, _, _, _, _, _, _, _, _, unit) process) end.
     playground_main demo_machine L () \<lparr>files = Map.empty\<rparr> (zero_process {}) f end (Some Runs) \<and>
     (\<exists>t. scheduler f = Some t \<and> set (r_workers t) \<subseteq> {Gone}) \<and> (\<exists>v. watcher f = Some v \<and> shelf_present (dp v) \<subseteq> {})"
proof -
  obtain c f :: "(_, _, _, _, _, _, _, _, _, _, unit) process" and t v where
    start: "components_Start demo_machine (zero_process {}) = (c, Runs)" and work: "worked demo_machine c c"
    and stop: "components_Stop demo_machine c (f, Runs)" and cfg: "config c = demo_service"
    and f: "scheduler f = Some t" "watcher f = Some v" "dom (workerByPort v) \<subseteq> set (port_order demo_machine)"
    by (rule demo_life) blast
  define L where "L = \<lparr>web_E = env_of demo_machine (proxies demo_web_env) no_http quiet_lib demo_sys c,
    server_cfg = GetServerConfig demo_service, at_time = ''1'', fs_mkdir = mkdir demo_machine, fs_root = proot demo_machine,
    own_headers = (\<lambda>_ _. []), trip_of = (\<lambda>_ _. Well), cut_off = (\<lambda>_ _. None), refusal = (\<lambda>_. ''invalid''),
    undecodable = (\<lambda>_. GoError ''invalid''), meanwhile = (\<lambda>b. b)\<rparr>"
  have lab: "lab_in demo_machine c L"
    by (simp add: lab_in_def L_def cfg) (auto simp: demo_service_def)
  let ?l = "\<lparr>site = web_of () \<lparr>files = Map.empty\<rparr> c, written = []\<rparr>"
  obtain l "end" where plays: "plays L ?l = (l, end)" by force
  have mongo: "mongo demo_machine = mem_lib" "mims demo_machine = mem_mim" by (simp_all add: demo_machine_def)
  have new: "connect mem_mim w s = Inr cl \<Longrightarrow> fresh_server mem_docs mem_docs mem_docs mem_docs cl" for w s cl
    by (auto simp: mem_mim_def fresh_server_def)
  have "UseCoderun (Components (config c))" by (simp add: cfg demo_service_def)
  from booted_web_ok [where M = demo_machine, unfolded mongo, OF mem_lib_laws new start this]
  have ok: "web_ok (web_E L) mem_docs map_of \<lparr>pool_docs = mem_docs, pool_entry = map_of, esb_docs = mem_docs, esb_entry = map_of\<rparr> (site ?l)"
    by (simp add: L_def)
  have "end = Runs \<or> end = Panicked ''nil pointer dereference''"
    using plays_end [OF ok _ _ plays] by (simp add: L_def env_of_def Let_def)
  then have main: "playground_main demo_machine L () \<lparr>files = Map.empty\<rparr> (zero_process {}) f end (Some Runs)"
    by (intro p_played [OF start lab plays _ work stop])
  have "(end = Runs \<or> (\<exists>m. end = Panicked m)) \<and> (\<forall>s. httpd f = Some s \<longrightarrow> \<not> listening s) \<and>
    (\<forall>t. scheduler f = Some t \<longrightarrow> set (r_workers t) \<subseteq> {Gone} \<and> set (w_workers t) \<subseteq> {Gone}) \<and>
    (\<forall>v. watcher f = Some v \<longrightarrow> shelf_present (dp v) \<subseteq> shelf_present ([], []))"
  proof (rule playground_takes_down [where M = demo_machine and running = "\<lambda>w. w" and used = shelf_used, OF _ _ _ _ _ _ main])
    show "dom (workerByPort v') \<subseteq> set (port_order demo_machine)" if "watcher f = Some v'" for v' using that f by simp
  qed (auto simp: demo_docker shelf_laws demo_machine_facts mem_mim_def split: option.splits)
  with main f show ?thesis by (intro exI [of _ L] exI [of _ f] exI [of _ "end"]) (auto simp: shelf_present_def)
qed

text \<open>Why every script of \<open>play_coderun\<close> fails: the file it runs is a single line with a backslash in it, and the arguments,
  made for an endpoint but wrapped for a mapper, are not JSON.\<close>

lemma test_script_broken: "newline \<notin> set TEST_PY" and "json_parse (WrapArgsForEsb (arg_data PLAY_ARGS)) = None"
  by code_simp+

end
